theory Spec2Isabelle
  imports Complex_Main
begin

section \<open>Python values and errors\<close>

text \<open>
  The training script \<^verbatim>\<open>train.py\<close> is Python. Its integers are unbounded and are
  modelled as \<^typ>\<open>int\<close>; \<^verbatim>\<open>//\<close> and \<^verbatim>\<open>%\<close> on integers round towards minus
  infinity, as \<open>div\<close> and \<open>mod\<close> on \<^typ>\<open>int\<close> do. Scalars that hold losses, errors
  and tensor entries are modelled as exact rationals: the model says what the code
  computes up to the rounding of the floating-point operations, which it does not
  describe. Every exception the modelled code can raise is a value of \<open>error\<close>;
  \<open>LibraryError\<close> stands for an exception raised inside the library. \<^verbatim>\<open>/\<close> is
  modelled as true division.
\<close>

datatype error = ZeroDivisionError | AttributeError | KeyError | LibraryError

definition bindE :: "error + 'a \<Rightarrow> ('a \<Rightarrow> error + 'b) \<Rightarrow> error + 'b" where
  "bindE m f = (case m of Inl e \<Rightarrow> Inl e | Inr x \<Rightarrow> f x)"

definition py_mod :: "int \<Rightarrow> int \<Rightarrow> error + int" where
  "py_mod a b = (if b = 0 then Inl ZeroDivisionError else Inr (a mod b))"

definition py_floordiv :: "int \<Rightarrow> int \<Rightarrow> error + int" where
  "py_floordiv a b = (if b = 0 then Inl ZeroDivisionError else Inr (a div b))"

definition py_truediv :: "int \<Rightarrow> int \<Rightarrow> error + rat" where
  "py_truediv a b = (if b = 0 then Inl ZeroDivisionError else Inr (of_int a / of_int b))"

section \<open>AverageMeter\<close>

text \<open>
  \<^verbatim>\<open>class AverageMeter\<close>: the fields \<^verbatim>\<open>avg\<close>, \<^verbatim>\<open>sum\<close>, \<^verbatim>\<open>count\<close>. The constructor
  calls \<^verbatim>\<open>reset\<close>. \<^verbatim>\<open>update(val, n)\<close> adds \<^verbatim>\<open>val * n\<close> to the sum and \<^verbatim>\<open>n\<close> to the
  count, then divides; the division raises when the count is zero.
\<close>

record AverageMeter =
  avg :: rat
  sum_m :: rat
  count :: int

definition reset :: AverageMeter where
  "reset = \<lparr>avg = 0, sum_m = 0, count = 0\<rparr>"

definition update :: "AverageMeter \<Rightarrow> rat \<Rightarrow> int \<Rightarrow> error + AverageMeter" where
  "update m val n =
     (let s = sum_m m + val * of_int n;
          c = count m + n
      in if c = 0 then Inl ZeroDivisionError
         else Inr \<lparr>avg = s / of_int c, sum_m = s, count = c\<rparr>)"

fun updates :: "AverageMeter \<Rightarrow> (rat \<times> int) list \<Rightarrow> error + AverageMeter" where
  "updates m [] = Inr m"
| "updates m ((val, n) # calls) =
     (case update m val n of Inl e \<Rightarrow> Inl e | Inr m' \<Rightarrow> updates m' calls)"

fun positive_weights :: "(rat \<times> int) list \<Rightarrow> bool" where
  "positive_weights [] = True"
| "positive_weights ((val, n) # calls) = (1 \<le> n \<and> positive_weights calls)"

fun weighted_total :: "(rat \<times> int) list \<Rightarrow> rat" where
  "weighted_total [] = 0"
| "weighted_total ((val, n) # calls) = val * of_int n + weighted_total calls"

fun total_weight :: "(rat \<times> int) list \<Rightarrow> int" where
  "total_weight [] = 0"
| "total_weight ((val, n) # calls) = n + total_weight calls"

section \<open>Tensors, parameters and modules\<close>

text \<open>
  Tensors are mutable objects that several names can refer to, so they live in a store:
  a heap is the list of all tensors allocated so far and a reference is an index into
  it. A tensor's value is the list of its entries. \<^verbatim>\<open>clone()\<close> allocates a new tensor
  with the same entries; an in-place operation overwrites the entries at a reference.
  A parameter has a \<^verbatim>\<open>data\<close> tensor and a \<^verbatim>\<open>grad\<close> tensor, which is \<^verbatim>\<open>None\<close> until
  a backward pass creates it. A model is the list \<^verbatim>\<open>model.modules()\<close>; each module has
  a class, of which the script distinguishes \<^verbatim>\<open>nn.Conv2d\<close> and \<^verbatim>\<open>nn.Linear\<close>, and its
  own parameters by attribute name (\<^verbatim>\<open>weight\<close>, \<^verbatim>\<open>bias\<close>). \<^verbatim>\<open>named_parameters()\<close>
  lists every parameter under the module's prefix. A Python dict from parameter names
  to tensors is an association list of references.
\<close>

type_synonym addr = nat
type_synonym tensor = "rat list"
type_synonym heap = "tensor list"
type_synonym param_dict = "(string \<times> addr) list"

record parameter =
  data :: addr
  grad :: "addr option"

datatype module_kind = Conv2d | Linear | OtherModule

record module =
  mod_name :: string
  mod_kind :: module_kind
  mod_params :: "(string \<times> parameter) list"

definition clone :: "heap \<Rightarrow> addr \<Rightarrow> heap \<times> addr" where
  "clone h a = (h @ [h ! a], length h)"

fun dict_set :: "param_dict \<Rightarrow> string \<Rightarrow> addr \<Rightarrow> param_dict" where
  "dict_set [] k v = [(k, v)]"
| "dict_set ((k', v') # d) k v = (if k' = k then (k, v) # d else (k', v') # dict_set d k v)"

definition dict_get :: "param_dict \<Rightarrow> string \<Rightarrow> error + addr" where
  "dict_get d k = (case map_of d k of None \<Rightarrow> Inl KeyError | Some v \<Rightarrow> Inr v)"

definition module_parameters :: "module \<Rightarrow> (string \<times> parameter) list" where
  "module_parameters m = map (\<lambda>(n, p). (mod_name m @ ''.'' @ n, p)) (mod_params m)"

definition named_parameters :: "module list \<Rightarrow> (string \<times> parameter) list" where
  "named_parameters model = concat (map module_parameters model)"

section \<open>Snapshots of the model: get_model_weights, get_model_gradients\<close>

text \<open>
  \<^verbatim>\<open>get_model_weights\<close> and \<^verbatim>\<open>get_model_gradients\<close> fill a fresh dict with a clone of
  every named parameter, or of its gradient. \<^verbatim>\<open>weight.grad.clone()\<close> raises
  AttributeError when the gradient is \<^verbatim>\<open>None\<close>.
\<close>

fun weights_loop :: "heap \<Rightarrow> param_dict \<Rightarrow> (string \<times> parameter) list \<Rightarrow> heap \<times> param_dict" where
  "weights_loop h weights [] = (h, weights)"
| "weights_loop h weights ((name, weight) # ps) =
     (case clone h (data weight) of (h', a) \<Rightarrow> weights_loop h' (dict_set weights name a) ps)"

definition get_model_weights :: "heap \<Rightarrow> module list \<Rightarrow> heap \<times> param_dict" where
  "get_model_weights h model = weights_loop h [] (named_parameters model)"

fun gradients_loop ::
  "heap \<Rightarrow> param_dict \<Rightarrow> (string \<times> parameter) list \<Rightarrow> error + heap \<times> param_dict" where
  "gradients_loop h gradients [] = Inr (h, gradients)"
| "gradients_loop h gradients ((name, weight) # ps) =
     (case grad weight of
        None \<Rightarrow> Inl AttributeError
      | Some g \<Rightarrow>
          (case clone h g of (h', a) \<Rightarrow> gradients_loop h' (dict_set gradients name a) ps))"

definition get_model_gradients :: "heap \<Rightarrow> module list \<Rightarrow> error + heap \<times> param_dict" where
  "get_model_gradients h model = gradients_loop h [] (named_parameters model)"

text \<open>
  The tensors a model refers to, and a sequence of in-place writes: each write
  replaces the entries of the tensor at a reference.
\<close>

fun parameter_addrs :: "parameter \<Rightarrow> addr list" where
  "parameter_addrs p = data p # (case grad p of None \<Rightarrow> [] | Some g \<Rightarrow> [g])"

definition model_addrs :: "module list \<Rightarrow> addr list" where
  "model_addrs model = concat (map (\<lambda>(n, p). parameter_addrs p) (named_parameters model))"

fun write_all :: "heap \<Rightarrow> (addr \<times> tensor) list \<Rightarrow> heap" where
  "write_all h [] = h"
| "write_all h ((a, t) # ws) = write_all (h[a := t]) ws"

fun allocated :: "heap \<Rightarrow> addr list \<Rightarrow> bool" where
  "allocated h [] = True"
| "allocated h (a # refs) = (a < length h \<and> allocated h refs)"

fun writes_to :: "addr list \<Rightarrow> (addr \<times> tensor) list \<Rightarrow> bool" where
  "writes_to refs [] = True"
| "writes_to refs ((a, t) # ws) = (a \<in> set refs \<and> writes_to refs ws)"

section \<open>Weight decay: wd_pre_step\<close>

text \<open>
  \<^verbatim>\<open>wd_pre_step(model, weight_decay=1e-4)\<close> visits \<^verbatim>\<open>model.modules()\<close> and, for a module
  that is an \<^verbatim>\<open>nn.Conv2d\<close> or an \<^verbatim>\<open>nn.Linear\<close>, runs
  \<^verbatim>\<open>m.weight.grad.add_(weight_decay * m.weight)\<close>: the gradient tensor of the module's
  \<^verbatim>\<open>weight\<close> is overwritten with itself plus the scaled weight, entry by entry. The
  call raises AttributeError when that gradient is \<^verbatim>\<open>None\<close>.
\<close>

definition add_scaled :: "rat \<Rightarrow> tensor \<Rightarrow> tensor \<Rightarrow> tensor" where
  "add_scaled c g w = map2 (\<lambda>x y. x + c * y) g w"

definition decay_weight :: "rat \<Rightarrow> heap \<Rightarrow> module \<Rightarrow> error + heap" where
  "decay_weight weight_decay h m =
     (case map_of (mod_params m) ''weight'' of
        None \<Rightarrow> Inl AttributeError
      | Some w \<Rightarrow>
          (case grad w of
             None \<Rightarrow> Inl AttributeError
           | Some g \<Rightarrow> Inr (h[g := add_scaled weight_decay (h ! g) (h ! data w)])))"

fun wd_pre_step :: "heap \<Rightarrow> module list \<Rightarrow> rat \<Rightarrow> error + heap" where
  "wd_pre_step h [] weight_decay = Inr h"
| "wd_pre_step h (m # ms) weight_decay =
     (if mod_kind m = Conv2d \<or> mod_kind m = Linear
      then (case decay_weight weight_decay h m of
              Inl e \<Rightarrow> Inl e
            | Inr h' \<Rightarrow> wd_pre_step h' ms weight_decay)
      else wd_pre_step h ms weight_decay)"

definition default_weight_decay :: rat where
  "default_weight_decay = 1 / 10000"

text \<open>
  The gradient and weight tensors that \<^verbatim>\<open>wd_pre_step\<close> pairs up, in the order of the
  modules; used to state what the function does.
\<close>

fun decayed :: "module list \<Rightarrow> (addr \<times> addr) list" where
  "decayed [] = []"
| "decayed (m # ms) =
     (if mod_kind m = Conv2d \<or> mod_kind m = Linear
      then (case map_of (mod_params m) ''weight'' of
              None \<Rightarrow> decayed ms
            | Some w \<Rightarrow> (case grad w of None \<Rightarrow> decayed ms | Some g \<Rightarrow> (g, data w) # decayed ms))
      else decayed ms)"

section \<open>Loading weights into the model: set_model_weights\<close>

text \<open>
  \<^verbatim>\<open>set_model_weights(weights, model)\<close> rebinds the \<^verbatim>\<open>data\<close> of every named parameter
  to \<^verbatim>\<open>weights[name]\<close>, moved to the GPU by \<^verbatim>\<open>.cuda()\<close> when one is available; a name
  missing from the dict raises KeyError. Moving a tensor is the library's; it is the
  parameter \<open>dev\<close>, which may allocate.
\<close>

fun set_params ::
  "(heap \<Rightarrow> addr \<Rightarrow> heap \<times> addr) \<Rightarrow> param_dict \<Rightarrow> string \<Rightarrow> heap \<Rightarrow>
   (string \<times> parameter) list \<Rightarrow> error + heap \<times> (string \<times> parameter) list" where
  "set_params dev weights pre h [] = Inr (h, [])"
| "set_params dev weights pre h ((n, p) # ps) =
     (case dict_get weights (pre @ ''.'' @ n) of
        Inl e \<Rightarrow> Inl e
      | Inr a \<Rightarrow>
          (case dev h a of
             (h1, a1) \<Rightarrow>
               (case set_params dev weights pre h1 ps of
                  Inl e \<Rightarrow> Inl e
                | Inr (h2, ps') \<Rightarrow> Inr (h2, (n, p\<lparr>data := a1\<rparr>) # ps'))))"

fun set_modules ::
  "(heap \<Rightarrow> addr \<Rightarrow> heap \<times> addr) \<Rightarrow> param_dict \<Rightarrow> heap \<Rightarrow> module list \<Rightarrow>
   error + heap \<times> module list" where
  "set_modules dev weights h [] = Inr (h, [])"
| "set_modules dev weights h (m # ms) =
     (case set_params dev weights (mod_name m) h (mod_params m) of
        Inl e \<Rightarrow> Inl e
      | Inr (h1, ps) \<Rightarrow>
          (case set_modules dev weights h1 ms of
             Inl e \<Rightarrow> Inl e
           | Inr (h2, ms') \<Rightarrow> Inr (h2, m\<lparr>mod_params := ps\<rparr> # ms')))"

section \<open>The training loop: train\<close>

text \<open>
  The collaborators of \<^verbatim>\<open>train\<close> that the script imports are parameters of the model:
  the parameter server (\<^verbatim>\<open>pull\<close>, \<^verbatim>\<open>push\<close>) with a state of its own, and the library's
  \<^verbatim>\<open>zero_grad\<close>, forward pass, criterion, \<^verbatim>\<open>backward\<close>, \<^verbatim>\<open>clip_grad_norm\<close>, \<^verbatim>\<open>.cuda()\<close>
  and \<^verbatim>\<open>input.size(0)\<close>. \<^verbatim>\<open>accuracy\<close> is built from tensor primitives only and no
  property below depends on it; it is a parameter too. The server and the library
  may read and change the heap. \<open>forward\<close> gives the output of \<^verbatim>\<open>model(input)\<close>;
  \<open>backward\<close> gives the heap and the model as the forward pass and \<^verbatim>\<open>loss.backward()\<close>
  leave them, for the loss divided by \<^verbatim>\<open>batch_accumulate_num\<close>. \<open>'sv\<close> is the server,
  \<open>'b\<close> a batch \<^verbatim>\<open>(input, target)\<close>, \<open>'o\<close> the output of the forward pass. Switching
  the model to training mode and moving the batch to the GPU change none of the values
  the model describes and are left out.
\<close>

record ('sv, 'b, 'o) env =
  cuda_is_available :: bool
  cuda :: "heap \<Rightarrow> addr \<Rightarrow> heap \<times> addr"
  pull :: "'sv \<Rightarrow> heap \<Rightarrow> int \<Rightarrow> 'sv \<times> heap \<times> param_dict"
  push :: "'sv \<Rightarrow> heap \<Rightarrow> int \<Rightarrow> param_dict \<Rightarrow> int \<Rightarrow> rat \<Rightarrow> int \<Rightarrow> 'sv \<times> heap \<times> rat"
  zero_grad :: "heap \<Rightarrow> module list \<Rightarrow> heap \<times> module list"
  forward :: "heap \<Rightarrow> module list \<Rightarrow> 'b \<Rightarrow> 'o"
  criterion :: "'o \<Rightarrow> 'b \<Rightarrow> rat"
  backward :: "heap \<Rightarrow> module list \<Rightarrow> 'b \<Rightarrow> int \<Rightarrow> heap \<times> module list"
  clip_grad_norm :: "heap \<Rightarrow> module list \<Rightarrow> rat \<Rightarrow> heap"
  accuracy :: "'o \<Rightarrow> 'b \<Rightarrow> rat \<times> rat"
  size0 :: "'b \<Rightarrow> int"

definition set_model_weights ::
  "('sv, 'b, 'o) env \<Rightarrow> heap \<Rightarrow> param_dict \<Rightarrow> module list \<Rightarrow> error + heap \<times> module list" where
  "set_model_weights e h weights model =
     set_modules (if cuda_is_available e then cuda e else (\<lambda>h a. (h, a))) weights h model"

text \<open>
  The calls the loop makes to its collaborators are recorded, in order and with the
  loader index of the batch being processed, in a trace. \<open>Push\<close> carries the
  arguments \<^verbatim>\<open>current_worker, gradients, epoch, tau, iteration\<close> and the step norm the
  server returned; \<open>SaveStepNorm\<close> the value passed to \<^verbatim>\<open>statistics.save_step_norm\<close>.
\<close>

datatype event =
    Pull int
  | ZeroGrad
  | Forward
  | Backward
  | WdPreStep
  | ClipGradNorm rat
  | Push int param_dict int rat int rat
  | SaveStepNorm rat
  | BarNext

record 'sv tstate =
  st_heap :: heap
  st_model :: "module list"
  st_server :: 'sv
  train_loss :: AverageMeter
  train_error :: AverageMeter
  st_statistics :: "rat list"
  st_bar :: "nat option"
  trace :: "(nat \<times> event) list"

text \<open>The index arithmetic of the loop body (lines 175, 176 and 196).\<close>

definition current_accumulate_num :: "int \<Rightarrow> int \<Rightarrow> error + int" where
  "current_accumulate_num i batch_accumulate_num = py_mod i batch_accumulate_num"

definition current_worker :: "int \<Rightarrow> int \<Rightarrow> int \<Rightarrow> error + int" where
  "current_worker i batch_accumulate_num workers_number =
     bindE (py_floordiv i batch_accumulate_num) (\<lambda>q. py_mod q workers_number)"

definition staleness :: "int \<Rightarrow> int \<Rightarrow> int \<Rightarrow> int \<Rightarrow> error + rat" where
  "staleness i batch_accumulate_num cw workers_number =
     bindE (py_floordiv i batch_accumulate_num) (\<lambda>q.
     bindE (py_truediv (q - cw) workers_number) (\<lambda>d. Inr (d + 1)))"

text \<open>Lines 177 to 183: at the first batch of a group, pull, load the weights, zero the gradients.\<close>

definition pull_phase ::
  "('sv, 'b, 'o) env \<Rightarrow> int \<Rightarrow> int \<Rightarrow> nat \<Rightarrow> 'sv tstate \<Rightarrow> error + 'sv tstate" where
  "pull_phase e can cw i st =
     (if can = 0
      then (case pull e (st_server st) (st_heap st) cw of
              (sv, h, weights) \<Rightarrow>
                bindE (set_model_weights e h weights (st_model st)) (\<lambda>(h1, m1).
                  (case zero_grad e h1 m1 of
                     (h2, m2) \<Rightarrow>
                       Inr (st\<lparr>st_heap := h2, st_model := m2, st_server := sv,
                                trace := trace st @ [(i, Pull cw), (i, ZeroGrad)]\<rparr>))))
      else Inr st)"

text \<open>
  Lines 184 to 193: forward pass, loss divided by \<^verbatim>\<open>batch_accumulate_num\<close>, backward
  pass, weight decay, clipping when \<^verbatim>\<open>grad_clip < 1000\<close>, and the two meters.
\<close>

definition grad_phase ::
  "('sv, 'b, 'o) env \<Rightarrow> rat \<Rightarrow> int \<Rightarrow> nat \<Rightarrow> 'b \<Rightarrow> 'sv tstate \<Rightarrow> error + 'sv tstate" where
  "grad_phase e grad_clip batch_accumulate_num i b st =
     (let output = forward e (st_heap st) (st_model st) b;
          loss = criterion e output b / of_int batch_accumulate_num
      in case backward e (st_heap st) (st_model st) b batch_accumulate_num of
           (h1, m1) \<Rightarrow>
             bindE (wd_pre_step h1 m1 default_weight_decay) (\<lambda>h2.
               let h3 = (if grad_clip < 1000 then clip_grad_norm e h2 m1 grad_clip else h2);
                   clip = (if grad_clip < 1000 then [(i, ClipGradNorm grad_clip)] else []);
                   prec1 = fst (accuracy e output b)
               in bindE (update (train_loss st) (loss * of_int batch_accumulate_num) (size0 e b)) (\<lambda>tl.
                  bindE (update (train_error st) (100 - prec1) (size0 e b)) (\<lambda>te.
                    Inr (st\<lparr>st_heap := h3, st_model := m1, train_loss := tl, train_error := te,
                             trace := trace st @ [(i, Forward), (i, Backward), (i, WdPreStep)] @ clip\<rparr>)))))"

text \<open>Lines 194 to 198: at the last batch of a group, snapshot the gradients and push.\<close>

definition push_phase ::
  "('sv, 'b, 'o) env \<Rightarrow> int \<Rightarrow> int \<Rightarrow> int \<Rightarrow> int \<Rightarrow> int \<Rightarrow> nat \<Rightarrow> 'sv tstate \<Rightarrow>
   error + 'sv tstate" where
  "push_phase e epoch workers_number batch_accumulate_num can cw i st =
     (if can = batch_accumulate_num - 1
      then bindE (get_model_gradients (st_heap st) (st_model st)) (\<lambda>(h1, gradients).
           bindE (staleness (int i) batch_accumulate_num cw workers_number) (\<lambda>tau.
           bindE (py_floordiv (int i) batch_accumulate_num) (\<lambda>iteration.
             (case push e (st_server st) h1 cw gradients epoch tau iteration of
                (sv, h2, step_norm) \<Rightarrow>
                  Inr (st\<lparr>st_heap := h2, st_server := sv,
                           st_statistics := st_statistics st @ [step_norm],
                           trace := trace st @
                             [(i, Push cw gradients epoch tau iteration step_norm),
                              (i, SaveStepNorm step_norm)]\<rparr>)))))
      else Inr st)"

text \<open>Lines 199 and 200.\<close>

definition bar_phase :: "nat \<Rightarrow> 'sv tstate \<Rightarrow> 'sv tstate" where
  "bar_phase i st =
     (case st_bar st of
        None \<Rightarrow> st
      | Some k \<Rightarrow> st\<lparr>st_bar := Some (Suc k), trace := trace st @ [(i, BarNext)]\<rparr>)"

definition train_step ::
  "('sv, 'b, 'o) env \<Rightarrow> int \<Rightarrow> int \<Rightarrow> rat \<Rightarrow> int \<Rightarrow> nat \<Rightarrow> 'b \<Rightarrow> 'sv tstate \<Rightarrow>
   error + 'sv tstate" where
  "train_step e epoch workers_number grad_clip batch_accumulate_num i b st =
     bindE (current_accumulate_num (int i) batch_accumulate_num) (\<lambda>can.
     bindE (current_worker (int i) batch_accumulate_num workers_number) (\<lambda>cw.
     bindE (pull_phase e can cw i st) (\<lambda>st1.
     bindE (grad_phase e grad_clip batch_accumulate_num i b st1) (\<lambda>st2.
     bindE (push_phase e epoch workers_number batch_accumulate_num can cw i st2) (\<lambda>st3.
       Inr (bar_phase i st3))))))"

fun train_loop ::
  "('sv, 'b, 'o) env \<Rightarrow> int \<Rightarrow> int \<Rightarrow> rat \<Rightarrow> int \<Rightarrow> (nat \<times> 'b) list \<Rightarrow> 'sv tstate \<Rightarrow>
   error + 'sv tstate" where
  "train_loop e epoch workers_number grad_clip batch_accumulate_num [] st = Inr st"
| "train_loop e epoch workers_number grad_clip batch_accumulate_num ((i, b) # rest) st =
     bindE (train_step e epoch workers_number grad_clip batch_accumulate_num i b st)
       (train_loop e epoch workers_number grad_clip batch_accumulate_num rest)"

text \<open>
  \<^verbatim>\<open>train\<close> starts with two fresh meters, runs the loop over the enumerated loader and
  returns the two averages; the model also returns the final state, with the trace.
\<close>

definition train ::
  "('sv, 'b, 'o) env \<Rightarrow> 'b list \<Rightarrow> heap \<Rightarrow> module list \<Rightarrow> 'sv \<Rightarrow> int \<Rightarrow> int \<Rightarrow> rat \<Rightarrow> int \<Rightarrow>
   nat option \<Rightarrow> rat list \<Rightarrow> error + (rat \<times> rat) \<times> 'sv tstate" where
  "train e train_loader h model server epoch workers_number grad_clip batch_accumulate_num
     bar statistics =
     bindE (train_loop e epoch workers_number grad_clip batch_accumulate_num
              (enumerate 0 train_loader)
              \<lparr>st_heap = h, st_model = model, st_server = server,
               train_loss = reset, train_error = reset,
               st_statistics = statistics, st_bar = bar, trace = []\<rparr>)
       (\<lambda>st. Inr ((avg (train_loss st), avg (train_error st)), st))"


text \<open>
  The calls one pass through the loop body makes, as a function of the loader index:
  what the trace of that pass must be, given the gradients pushed and the step norm
  returned. Used to state and prove the properties of the trace.
\<close>

definition step_events ::
  "int \<Rightarrow> int \<Rightarrow> rat \<Rightarrow> int \<Rightarrow> bool \<Rightarrow> nat \<Rightarrow> param_dict \<Rightarrow> rat \<Rightarrow> event list" where
  "step_events epoch workers_number grad_clip batch_accumulate_num has_bar i g r =
     (let it = int i div batch_accumulate_num; cw = it mod workers_number in
        (if int i mod batch_accumulate_num = 0 then [Pull cw, ZeroGrad] else []) @
        [Forward, Backward, WdPreStep] @
        (if grad_clip < 1000 then [ClipGradNorm grad_clip] else []) @
        (if int i mod batch_accumulate_num = batch_accumulate_num - 1
         then [Push cw g epoch (of_int (it - cw) / of_int workers_number + 1) it r, SaveStepNorm r]
         else []) @
        (if has_bar then [BarNext] else []))"

section \<open>A small instance\<close>

text \<open>
  A concrete setting on which the definitions above are run: one \<^verbatim>\<open>nn.Linear\<close> module
  with a weight, a server that counts the pushes and returns the staleness factor as
  the step norm, batches that are single numbers.
\<close>

definition demo_env :: "(nat, rat, rat) env" where
  "demo_env =
     \<lparr>cuda_is_available = False,
      cuda = (\<lambda>h a. (h, a)),
      pull = (\<lambda>sv h cw. (sv, h @ [[of_int cw]], [(''fc.weight'', length h)])),
      push = (\<lambda>sv h cw g epoch tau it. (Suc sv, h, tau)),
      zero_grad = (\<lambda>h m. (h[1 := [0]], m)),
      forward = (\<lambda>h m b. b),
      criterion = (\<lambda>out b. out),
      backward = (\<lambda>h m b k. (h[1 := map (\<lambda>x. x + b / of_int k) (h ! 1)], m)),
      clip_grad_norm = (\<lambda>h m c. h),
      accuracy = (\<lambda>out b. (50, 100)),
      size0 = (\<lambda>b. 1)\<rparr>"

definition demo_model :: "module list" where
  "demo_model = [\<lparr>mod_name = ''fc'', mod_kind = Linear,
                  mod_params = [(''weight'', \<lparr>data = 0, grad = Some 1\<rparr>)]\<rparr>]"

definition demo_heap :: heap where
  "demo_heap = [[1], [0]]"

text \<open>The calls to \<^verbatim>\<open>clip_grad_norm\<close> in a trace.\<close>

fun is_clip :: "nat \<times> event \<Rightarrow> bool" where
  "is_clip (i, ClipGradNorm c) = True"
| "is_clip (i, ev) = False"

text \<open>
  The calls that order pulls, passes and pushes, the part of a trace that belongs to
  one accumulation group, and the step norms a trace hands to the statistics.
\<close>

fun is_sync :: "event \<Rightarrow> bool" where
  "is_sync (Pull cw) = True"
| "is_sync Forward = True"
| "is_sync Backward = True"
| "is_sync (Push cw g ep tau it r) = True"
| "is_sync (SaveStepNorm r) = True"
| "is_sync ev = False"

definition group_sync :: "int \<Rightarrow> nat \<Rightarrow> (nat \<times> event) list \<Rightarrow> (nat \<times> event) list" where
  "group_sync batch_accumulate_num g tr =
     filter (\<lambda>(j, ev). int j div batch_accumulate_num = int g \<and> is_sync ev) tr"

fun saved_step_norms :: "(nat \<times> event) list \<Rightarrow> rat list" where
  "saved_step_norms [] = []"
| "saved_step_norms ((i, SaveStepNorm r) # tr) = r # saved_step_norms tr"
| "saved_step_norms ((i, ev) # tr) = saved_step_norms tr"

text \<open>
  A second small model: a linear layer with a weight and a bias, and a module of another
  class (a batch normalisation, say) with a weight. Then the calls of one pass that order
  weight decay, clipping and push; one decay step on the heap; and the condition that
  the tensors paired up by \<^verbatim>\<open>wd_pre_step\<close> are not shared.
\<close>

definition bias_model :: "module list" where
  "bias_model = [\<lparr>mod_name = ''fc'', mod_kind = Linear,
                  mod_params = [(''weight'', \<lparr>data = 0, grad = Some 1\<rparr>),
                                (''bias'', \<lparr>data = 2, grad = Some 3\<rparr>)]\<rparr>,
                 \<lparr>mod_name = ''bn'', mod_kind = OtherModule,
                  mod_params = [(''weight'', \<lparr>data = 4, grad = Some 5\<rparr>)]\<rparr>]"

definition bias_heap :: heap where
  "bias_heap = [[1], [1], [1], [1], [1], [1]]"

fun is_decay_order :: "nat \<Rightarrow> nat \<times> event \<Rightarrow> bool" where
  "is_decay_order i (j, WdPreStep) = (j = i)"
| "is_decay_order i (j, ClipGradNorm c) = (j = i)"
| "is_decay_order i (j, Push cw g ep tau it r) = (j = i)"
| "is_decay_order i (j, ev) = False"

definition decay_step :: "rat \<Rightarrow> addr \<times> addr \<Rightarrow> heap \<Rightarrow> heap" where
  "decay_step c gw h = h[fst gw := add_scaled c (h ! fst gw) (h ! snd gw)]"

fun no_sharing :: "(addr \<times> addr) list \<Rightarrow> bool" where
  "no_sharing [] = True"
| "no_sharing ((g, w) # ps) =
     (g \<notin> set (map fst ps) \<and> g \<notin> set (map snd ps) \<and> w \<notin> set (map fst ps) \<and> g \<noteq> w \<and>
      no_sharing ps)"

definition demo_state :: "nat tstate" where
  "demo_state = \<lparr>st_heap = demo_heap, st_model = demo_model, st_server = 0,
                  train_loss = reset, train_error = reset,
                  st_statistics = [], st_bar = None, trace = []\<rparr>"

section \<open>Resuming from a checkpoint\<close>

text \<open>
  Lines 54 to 65 of \<^verbatim>\<open>main\<close>. When \<^verbatim>\<open>args.resume\<close> is set and the checkpoint file
  exists, \<^verbatim>\<open>torch.load\<close> reads a dict with the keys \<^verbatim>\<open>epoch\<close>, \<^verbatim>\<open>server\<close>,
  \<^verbatim>\<open>val_stats\<close>, \<^verbatim>\<open>train_stats\<close> and \<^verbatim>\<open>state_dict\<close>; the start epoch, the server and
  the two statistics objects are replaced by the loaded ones and the state dict is
  handed to \<^verbatim>\<open>model.load_state_dict\<close>. When the file does not exist a message is
  printed and the run goes on unchanged. \<^verbatim>\<open>torch.load\<close> and \<^verbatim>\<open>load_state_dict\<close> are
  the library's: the first is the parameter \<open>file\<close> (no file, or what loading it
  gives), the second the parameter \<open>load_state_dict\<close>. The server, the statistics,
  the state dict and the model are of any type.
\<close>

record ('sv, 'st, 'sd) checkpoint =
  ck_epoch :: int
  ck_server :: 'sv
  ck_val_stats :: 'st
  ck_train_stats :: 'st
  ck_state_dict :: 'sd

record ('sv, 'st, 'm) run_state =
  rs_start_epoch :: int
  rs_server :: 'sv
  rs_val_statistics :: 'st
  rs_train_statistics :: 'st
  rs_model :: 'm

definition resume ::
  "('m \<Rightarrow> 'sd \<Rightarrow> error + 'm) \<Rightarrow> bool \<Rightarrow> (error + ('sv, 'st, 'sd) checkpoint) option \<Rightarrow>
   ('sv, 'st, 'm) run_state \<Rightarrow> error + ('sv, 'st, 'm) run_state" where
  "resume load_state_dict resume_given file rs =
     (if resume_given
      then (case file of
              Some loaded \<Rightarrow>
                bindE loaded (\<lambda>checkpoint.
                bindE (load_state_dict (rs_model rs) (ck_state_dict checkpoint)) (\<lambda>m.
                  Inr \<lparr>rs_start_epoch = ck_epoch checkpoint, rs_server = ck_server checkpoint,
                       rs_val_statistics = ck_val_stats checkpoint,
                       rs_train_statistics = ck_train_stats checkpoint, rs_model = m\<rparr>))
            | None \<Rightarrow> Inr rs)
      else Inr rs)"

text \<open>
  A loader that compares names only, as the library's strict loading does: the model
  is the list of its parameter names, a state dict the list of the names it holds.
\<close>

definition load_names :: "string list \<Rightarrow> string list \<Rightarrow> error + string list" where
  "load_names own state_dict = (if set state_dict = set own then Inr own else Inl LibraryError)"

section \<open>The calls the parameter server receives\<close>

text \<open>
  \<^verbatim>\<open>train\<close> reaches the parameter server through \<^verbatim>\<open>server.pull\<close> (line 178) and
  \<^verbatim>\<open>server.push\<close> (line 196) only. To speak of the arguments these two calls are made
  with, the server of an environment is given a log: a \<open>server_call\<close> is one call with
  its arguments (and, for a push, the step norm it returned).
\<close>

datatype server_call =
    PullCall int
  | PushCall int param_dict int rat int rat

text \<open>
  \<open>recording e\<close> is the environment \<open>e\<close> whose server also keeps the list of the calls
  it has received: \<^verbatim>\<open>pull\<close> and \<^verbatim>\<open>push\<close> do what they do in \<open>e\<close> and append the call,
  with the arguments they were given, to the list. Nothing else changes.
\<close>

definition recording :: "('sv, 'b, 'o) env \<Rightarrow> ('sv \<times> server_call list, 'b, 'o) env" where
  "recording e =
     \<lparr>cuda_is_available = cuda_is_available e,
      cuda = cuda e,
      pull = (\<lambda>(sv, calls) h cw.
                case pull e sv h cw of
                  (sv', h', weights) \<Rightarrow> ((sv', calls @ [PullCall cw]), h', weights)),
      push = (\<lambda>(sv, calls) h cw gradients epoch tau iteration.
                case push e sv h cw gradients epoch tau iteration of
                  (sv', h', step_norm) \<Rightarrow>
                    ((sv', calls @ [PushCall cw gradients epoch tau iteration step_norm]),
                     h', step_norm)),
      zero_grad = zero_grad e,
      forward = forward e,
      criterion = criterion e,
      backward = backward e,
      clip_grad_norm = clip_grad_norm e,
      accuracy = accuracy e,
      size0 = size0 e\<rparr>"

text \<open>The state \<open>st\<close> of a run on \<open>e\<close>, seen as a state of a run on \<open>recording e\<close>.\<close>

definition with_calls :: "'sv tstate \<Rightarrow> server_call list \<Rightarrow> ('sv \<times> server_call list) tstate" where
  "with_calls st calls =
     \<lparr>st_heap = st_heap st, st_model = st_model st, st_server = (st_server st, calls),
      train_loss = train_loss st, train_error = train_error st,
      st_statistics = st_statistics st, st_bar = st_bar st, trace = trace st\<rparr>"

text \<open>
  The pulls and pushes of a trace, as calls; the step norms a list of calls returned;
  the worker a call is for.
\<close>

fun server_calls :: "(nat \<times> event) list \<Rightarrow> server_call list" where
  "server_calls [] = []"
| "server_calls ((i, Pull cw) # tr) = PullCall cw # server_calls tr"
| "server_calls ((i, Push cw g ep tau it r) # tr) = PushCall cw g ep tau it r # server_calls tr"
| "server_calls ((i, ev) # tr) = server_calls tr"

fun returned_step_norms :: "server_call list \<Rightarrow> rat list" where
  "returned_step_norms [] = []"
| "returned_step_norms (PushCall cw g ep tau it r # calls) = r # returned_step_norms calls"
| "returned_step_norms (PullCall cw # calls) = returned_step_norms calls"

fun worker_of :: "server_call \<Rightarrow> int" where
  "worker_of (PullCall cw) = cw"
| "worker_of (PushCall cw g ep tau it r) = cw"

text \<open>
  The small instance with a \<^verbatim>\<open>clip_grad_norm\<close> that changes the gradient: every entry
  of the gradient tensor (cell 1) is cut down to the ceiling.
\<close>

definition clipping_env :: "(nat, rat, rat) env" where
  "clipping_env =
     demo_env\<lparr>clip_grad_norm := (\<lambda>h m c. h[1 := map (\<lambda>x. min x c) (h ! 1)])\<rparr>"

section \<open>The learning rate after a reconfiguration\<close>

text \<open>
  Modelled from the spec: the base learning rate the parameter server uses after a
  reconfiguration from synchronous to asynchronous mode. The rule is code of the
  parameter server (\<^verbatim>\<open>parameter_server.py\<close>), which is not among the sources;
  \<^verbatim>\<open>train.py\<close> only holds a block of comments (lines 67 to 101) that no run executes.
  The spec gives the rate as
  \<^verbatim>\<open>lr * sqrt(workers_num * batch_size / baseline) / workers_num\<close>.
\<close>

definition reconfigured_lr :: "real \<Rightarrow> int \<Rightarrow> int \<Rightarrow> int \<Rightarrow> real" where
  "reconfigured_lr lr workers_num batch_size baseline =
     lr * sqrt (of_int (workers_num * batch_size) / of_int baseline) / of_int workers_num"

text \<open>
  Modelled from the spec: the start of the warm-up ramp of the "fast" mode, which is
  code of the absent parameter server as well; the spec gives \<^verbatim>\<open>lr/workers_num\<close>.
\<close>

definition warm_up_start_lr :: "real \<Rightarrow> int \<Rightarrow> real" where
  "warm_up_start_lr lr workers_num = lr / of_int workers_num"

text \<open>
  Modelled from the spec: the end of the warm-up ramp of the "fast" mode, which is
  code of the absent parameter server as well; the spec gives
  \<^verbatim>\<open>lr*(workers_num*batch_size/baseline)/sqrt(workers_num)\<close>.
\<close>

definition warm_up_end_lr :: "real \<Rightarrow> int \<Rightarrow> int \<Rightarrow> int \<Rightarrow> real" where
  "warm_up_end_lr lr workers_num batch_size baseline =
     lr * (of_int (workers_num * batch_size) / of_int baseline) / sqrt (of_int workers_num)"

section \<open>Properties of AverageMeter\<close>

lemma total_weight_nonneg: "positive_weights calls \<Longrightarrow> 0 \<le> total_weight calls"
  by (induction calls rule: total_weight.induct) auto

lemma updates_general:
  "positive_weights calls \<Longrightarrow> 0 \<le> count m \<Longrightarrow>
   \<exists>m'. updates m calls = Inr m' \<and>
        sum_m m' = sum_m m + weighted_total calls \<and>
        count m' = count m + total_weight calls \<and>
        (calls \<noteq> [] \<longrightarrow> avg m' = sum_m m' / of_int (count m'))"
proof (induction calls arbitrary: m)
  case Nil
  then show ?case by simp
next
  case (Cons call calls)
  obtain val n where call: "call = (val, n)" by (cases call)
  from Cons.prems call have n: "1 \<le> n" and rest: "positive_weights calls" by auto
  define m1 where "m1 = \<lparr>avg = (sum_m m + val * of_int n) / of_int (count m + n),
                         sum_m = sum_m m + val * of_int n, count = count m + n\<rparr>"
  from n Cons.prems(2) have nz: "count m + n \<noteq> 0" by linarith
  then have step: "update m val n = Inr m1"
    by (simp add: update_def m1_def Let_def)
  have m1_count: "0 \<le> count m1" using n Cons.prems(2) by (simp add: m1_def)
  from Cons.IH [OF rest m1_count] obtain m' where
    run: "updates m1 calls = Inr m'" and
    s: "sum_m m' = sum_m m1 + weighted_total calls" and
    c: "count m' = count m1 + total_weight calls" and
    a: "calls \<noteq> [] \<longrightarrow> avg m' = sum_m m' / of_int (count m')"
    by blast
  have avg_ok: "avg m' = sum_m m' / of_int (count m')"
  proof (cases "calls = []")
    case True
    with run have "m' = m1" by simp
    then show ?thesis by (simp add: m1_def)
  next
    case False
    with a show ?thesis by simp
  qed
  have "updates m (call # calls) = Inr m'" using call step run by simp
  moreover have "sum_m m' = sum_m m + weighted_total (call # calls)"
    using s call by (simp add: m1_def)
  moreover have "count m' = count m + total_weight (call # calls)"
    using c call by (simp add: m1_def)
  ultimately show ?case using avg_ok by blast
qed

text \<open>
  Claim C10. A meter that has just been reset has sum, count and average zero. After
  any sequence of \<^verbatim>\<open>update(val, n)\<close> calls on such a meter in which every \<^verbatim>\<open>n\<close> is
  at least one, no call raises, the sum is the total of the \<^verbatim>\<open>val * n\<close>, the count is
  the total of the \<^verbatim>\<open>n\<close>, and (when at least one call was made) the average is the sum
  divided by the count, that is the weighted mean of the values.
\<close>

theorem AverageMeter_invariant:
  "avg reset = 0 \<and> sum_m reset = 0 \<and> count reset = 0 \<and>
   (positive_weights calls \<longrightarrow>
     (\<exists>m. updates reset calls = Inr m \<and>
          sum_m m = weighted_total calls \<and>
          count m = total_weight calls \<and>
          (calls \<noteq> [] \<longrightarrow> avg m = weighted_total calls / of_int (total_weight calls))))"
proof -
  have r: "avg reset = 0 \<and> sum_m reset = 0 \<and> count reset = 0"
    by (simp add: reset_def)
  have "\<exists>m. updates reset calls = Inr m \<and> sum_m m = weighted_total calls \<and>
          count m = total_weight calls \<and>
          (calls \<noteq> [] \<longrightarrow> avg m = weighted_total calls / of_int (total_weight calls))"
    if pw: "positive_weights calls"
  proof -
    have "0 \<le> count reset" by (simp add: reset_def)
    from updates_general [OF pw this] obtain m where
      "updates reset calls = Inr m"
      "sum_m m = sum_m reset + weighted_total calls"
      "count m = count reset + total_weight calls"
      "calls \<noteq> [] \<longrightarrow> avg m = sum_m m / of_int (count m)"
      by blast
    then show ?thesis by (auto simp: reset_def)
  qed
  with r show ?thesis by blast
qed

theorem AverageMeter_invariant_witness:
  "positive_weights [(3, 2), (6, 1)] \<and>
   updates reset [(3, 2), (6, 1)] = Inr \<lparr>avg = 4, sum_m = 12, count = 3\<rparr>"
proof -
  have pw: "positive_weights [(3, 2), (6, 1)]" by simp
  have run: "updates reset [(3, 2), (6, 1)] = Inr \<lparr>avg = 4, sum_m = 12, count = 3\<rparr>"
    by (simp add: reset_def update_def Let_def)
  from AverageMeter_invariant [of "[(3, 2), (6, 1)]"] pw run show ?thesis by simp
qed

section \<open>The trace of a run of train\<close>

lemma bindE_Inr: "bindE m f = Inr y \<longleftrightarrow> (\<exists>x. m = Inr x \<and> f x = Inr y)"
  by (cases m) (auto simp: bindE_def)

lemma pull_phase_trace:
  assumes "pull_phase e can cw i st = Inr st'"
  shows "trace st' = trace st @ (if can = 0 then [(i, Pull cw), (i, ZeroGrad)] else [])"
    and "st_bar st' = st_bar st"
  using assms
  by (auto simp: pull_phase_def bindE_Inr split_beta split: if_splits)

lemma grad_phase_trace:
  assumes "grad_phase e grad_clip ban i b st = Inr st'"
  shows "trace st' = trace st @ [(i, Forward), (i, Backward), (i, WdPreStep)] @
           (if grad_clip < 1000 then [(i, ClipGradNorm grad_clip)] else [])"
    and "st_bar st' = st_bar st"
  using assms
  by (auto simp: grad_phase_def bindE_Inr Let_def split_beta split: if_splits)

lemma push_phase_trace:
  assumes "push_phase e epoch w ban can cw i st = Inr st'"
  shows "\<exists>g r. trace st' = trace st @
           (if can = ban - 1
            then [(i, Push cw g epoch (of_int (int i div ban - cw) / of_int w + 1) (int i div ban) r),
                  (i, SaveStepNorm r)]
            else [])"
    and "st_bar st' = st_bar st"
  using assms
  by (auto simp: push_phase_def bindE_Inr staleness_def py_floordiv_def py_truediv_def split_beta
           split: if_splits)

lemma bar_phase_trace:
  "trace (bar_phase i st) = trace st @ (if st_bar st \<noteq> None then [(i, BarNext)] else [])"
  "st_bar (bar_phase i st) = None \<longleftrightarrow> st_bar st = None"
  by (auto simp: bar_phase_def split: option.splits)

lemma train_step_trace:
  assumes "train_step e epoch w gc ban i b st = Inr st'"
  shows "\<exists>g r. trace st' = trace st @ map (Pair i) (step_events epoch w gc ban (st_bar st \<noteq> None) i g r)"
    and "st_bar st' = None \<longleftrightarrow> st_bar st = None"
    and "ban \<noteq> 0" and "w \<noteq> 0"
proof -
  from assms obtain can cw st1 st2 st3 where
    can: "current_accumulate_num (int i) ban = Inr can" and
    cw: "current_worker (int i) ban w = Inr cw" and
    p1: "pull_phase e can cw i st = Inr st1" and
    p2: "grad_phase e gc ban i b st1 = Inr st2" and
    p3: "push_phase e epoch w ban can cw i st2 = Inr st3" and
    st': "st' = bar_phase i st3"
    unfolding train_step_def bindE_Inr by auto
  from can have ban: "ban \<noteq> 0" and can_eq: "can = int i mod ban"
    by (auto simp: current_accumulate_num_def py_mod_def split: if_splits)
  from cw ban have w: "w \<noteq> 0" and cw_eq: "cw = (int i div ban) mod w"
    by (auto simp: current_worker_def py_mod_def py_floordiv_def bindE_Inr split: if_splits)
  show "ban \<noteq> 0" by fact
  show "w \<noteq> 0" by fact
  have bars: "st_bar st3 = st_bar st"
    using pull_phase_trace(2)[OF p1] grad_phase_trace(2)[OF p2] push_phase_trace(2)[OF p3] by simp
  show "st_bar st' = None \<longleftrightarrow> st_bar st = None"
    using bars st' bar_phase_trace(2)[of i st3] by simp
  from push_phase_trace(1)[OF p3] obtain g r where
    t3: "trace st3 = trace st2 @
           (if can = ban - 1
            then [(i, Push cw g epoch (of_int (int i div ban - cw) / of_int w + 1) (int i div ban) r),
                  (i, SaveStepNorm r)]
            else [])" by blast
  have "trace st' = trace st @ map (Pair i) (step_events epoch w gc ban (st_bar st \<noteq> None) i g r)"
    unfolding st' bar_phase_trace(1) t3 grad_phase_trace(1)[OF p2] pull_phase_trace(1)[OF p1] bars
    by (simp add: step_events_def Let_def can_eq cw_eq)
  then show "\<exists>g r. trace st' = trace st @ map (Pair i) (step_events epoch w gc ban (st_bar st \<noteq> None) i g r)"
    by blast
qed

lemma train_loop_trace:
  "train_loop e epoch w gc ban (enumerate k bs) st = Inr st' \<Longrightarrow>
   \<exists>gs rs. trace st' = trace st @
     concat (map (\<lambda>i. map (Pair i) (step_events epoch w gc ban (st_bar st \<noteq> None) i (gs i) (rs i)))
               [k..<k + length bs])"
proof (induction bs arbitrary: k st)
  case Nil
  then show ?case by simp
next
  case (Cons b bs)
  from Cons.prems obtain st1 where
    s1: "train_step e epoch w gc ban k b st = Inr st1" and
    rest: "train_loop e epoch w gc ban (enumerate (Suc k) bs) st1 = Inr st'"
    by (auto simp: bindE_Inr)
  from train_step_trace(1)[OF s1] obtain g r where
    t1: "trace st1 = trace st @ map (Pair k) (step_events epoch w gc ban (st_bar st \<noteq> None) k g r)"
    by blast
  have bar: "(st_bar st1 \<noteq> None) = (st_bar st \<noteq> None)"
    using train_step_trace(2)[OF s1] by simp
  from Cons.IH[OF rest] obtain gs rs where
    t2: "trace st' = trace st1 @
     concat (map (\<lambda>i. map (Pair i) (step_events epoch w gc ban (st_bar st1 \<noteq> None) i (gs i) (rs i)))
               [Suc k..<Suc k + length bs])" by blast
  let ?gs = "gs(k := g)" and ?rs = "rs(k := r)"
  have same: "map (\<lambda>i. map (Pair i) (step_events epoch w gc ban (st_bar st \<noteq> None) i (?gs i) (?rs i)))
               [Suc k..<Suc k + length bs] =
        map (\<lambda>i. map (Pair i) (step_events epoch w gc ban (st_bar st \<noteq> None) i (gs i) (rs i)))
               [Suc k..<Suc k + length bs]"
    by (rule map_cong) auto
  have upt: "[k..<k + length (b # bs)] = k # [Suc k..<Suc k + length bs]"
    by (subst upt_rec) simp
  have "trace st' = trace st @
     concat (map (\<lambda>i. map (Pair i) (step_events epoch w gc ban (st_bar st \<noteq> None) i (?gs i) (?rs i)))
               [k..<k + length (b # bs)])"
    unfolding upt list.map concat.simps same
    using t1 t2 bar by simp
  then show ?case by blast
qed

lemma train_trace:
  assumes "train e loader h model server epoch w gc ban bar statistics = Inr (res, st)"
  shows "\<exists>gs rs. trace st =
     concat (map (\<lambda>i. map (Pair i) (step_events epoch w gc ban (bar \<noteq> None) i (gs i) (rs i)))
               [0..<length loader])"
proof -
  from assms have "train_loop e epoch w gc ban (enumerate 0 loader)
              \<lparr>st_heap = h, st_model = model, st_server = server,
               train_loss = reset, train_error = reset,
               st_statistics = statistics, st_bar = bar, trace = []\<rparr> = Inr st"
    by (auto simp: train_def bindE_Inr)
  from train_loop_trace[OF this] show ?thesis by simp
qed

text \<open>
  A run of \<^verbatim>\<open>train\<close> on the small instance: six batches, epoch 7, two workers,
  \<^verbatim>\<open>grad_clip = 5\<close>, two batches per accumulation group, no progress bar.
\<close>

lemma demo_run: "train demo_env [2, 2, 2, 2, 2, 2] demo_heap demo_model 0 7 2 5 2 None [] =
Inr ((2, 50),
      \<lparr>st_heap = [[1], [2], [0], [2], [1], [10001 / 5000], [0], [2]],
         st_model =
           [\<lparr>mod_name = ''fc'', mod_kind = Linear,
               mod_params = [(''weight'', \<lparr>data = 6, grad = Some 1\<rparr>)]\<rparr>],
         st_server = 3, train_loss = \<lparr>avg = 2, sum_m = 12, count = 6\<rparr>,
         train_error = \<lparr>avg = 50, sum_m = 300, count = 6\<rparr>,
         st_statistics = [1, 1, 2], st_bar = None,
         trace =
           [(0, Pull 0), (0, ZeroGrad), (0, Forward), (0, Backward),
            (0, WdPreStep), (0, ClipGradNorm 5), (1, Forward),
            (1, Backward), (1, WdPreStep), (1, ClipGradNorm 5),
            (1, Push 0 [(''fc.weight'', 3)] 7 1 0 1), (1, SaveStepNorm 1),
            (2, Pull 1), (2, ZeroGrad), (2, Forward), (2, Backward),
            (2, WdPreStep), (2, ClipGradNorm 5), (3, Forward),
            (3, Backward), (3, WdPreStep), (3, ClipGradNorm 5),
            (3, Push 1 [(''fc.weight'', 5)] 7 1 1 1), (3, SaveStepNorm 1),
            (4, Pull 0), (4, ZeroGrad), (4, Forward), (4, Backward),
            (4, WdPreStep), (4, ClipGradNorm 5), (5, Forward),
            (5, Backward), (5, WdPreStep), (5, ClipGradNorm 5),
            (5, Push 0 [(''fc.weight'', 7)] 7 2 2 2),
            (5, SaveStepNorm 2)]\<rparr>)"
  by code_simp

section \<open>Scheduling: workers and staleness\<close>

lemma trace_mem:
  assumes "train e loader h model server epoch w gc ban bar statistics = Inr (res, st)"
      and "(i, ev) \<in> set (trace st)"
  shows "i < length loader \<and> (\<exists>g r. ev \<in> set (step_events epoch w gc ban (bar \<noteq> None) i g r))"
proof -
  from train_trace[OF assms(1)] obtain gs rs where
    "trace st = concat (map (\<lambda>i. map (Pair i) (step_events epoch w gc ban (bar \<noteq> None) i (gs i) (rs i)))
               [0..<length loader])" by blast
  with assms(2) show ?thesis by auto
qed

lemma train_nonzero:
  assumes "train e loader h model server epoch w gc ban bar statistics = Inr (res, st)"
      and "loader \<noteq> []"
  shows "ban \<noteq> 0 \<and> w \<noteq> 0"
proof -
  from assms(2) obtain b bs where l: "loader = b # bs" by (cases loader) auto
  from assms(1) obtain st0 st1 where "train_step e epoch w gc ban 0 b st0 = Inr st1"
    by (auto simp: train_def l bindE_Inr)
  from train_step_trace(3,4)[OF this] show ?thesis by simp
qed

lemma push_needs_group:
  assumes "Push cw g ep tau it r \<in> set (step_events epoch w gc ban hb i g' r')"
  shows "int i mod ban = ban - 1 \<and> cw = (int i div ban) mod w \<and> it = int i div ban \<and>
         tau = of_int (int i div ban - (int i div ban) mod w) / of_int w + 1 \<and> ep = epoch \<and>
         g = g' \<and> r = r'"
  using assms by (auto simp: step_events_def Let_def split: if_splits)

lemma pull_needs_group:
  assumes "Pull cw \<in> set (step_events epoch w gc ban hb i g' r')"
  shows "int i mod ban = 0 \<and> cw = (int i div ban) mod w"
  using assms by (auto simp: step_events_def Let_def split: if_splits)

lemma last_of_group_pos:
  assumes "int i mod ban = ban - 1"
  shows "0 < ban"
proof (rule ccontr)
  assume "\<not> 0 < ban"
  then consider "ban = 0" | "ban < 0" by linarith
  then show False
  proof cases
    case 1
    with assms show False by simp
  next
    case 2
    then have "ban < int i mod ban" by (rule neg_mod_bound)
    with assms show False by simp
  qed
qed

lemma staleness_value:
  assumes "0 < w" and "0 \<le> q"
  shows "(of_int (q - q mod w) :: rat) / of_int w + 1 = of_int (q div w) + 1"
    and "(1 :: rat) \<le> of_int (q - q mod w) / of_int w + 1"
proof -
  have "q - q mod w = w * (q div w)"
    by (simp add: minus_mod_eq_mult_div)
  then have eq: "(of_int (q - q mod w) :: rat) / of_int w = of_int (q div w)"
    using assms(1) by simp
  then show "(of_int (q - q mod w) :: rat) / of_int w + 1 = of_int (q div w) + 1" by simp
  from assms have "0 \<le> q div w" by (simp add: pos_imp_zdiv_nonneg_iff)
  then have "(0 :: rat) \<le> of_int (q div w)" by simp
  with eq show "(1 :: rat) \<le> of_int (q - q mod w) / of_int w + 1" by simp
qed

section \<open>Gradient clipping\<close>

lemma clip_of_step:
  "filter is_clip (map (Pair i) (step_events epoch w gc ban hb i g r)) =
     (if gc < 1000 then [(i, ClipGradNorm gc)] else [])"
  by (simp add: step_events_def Let_def)

lemma grad_phase_clip_irrelevant:
  "\<not> gc < 1000 \<Longrightarrow> grad_phase (e\<lparr>clip_grad_norm := f\<rparr>) gc ban i b st = grad_phase e gc ban i b st"
  by (simp add: grad_phase_def)

lemma train_step_clip_irrelevant:
  "\<not> gc < 1000 \<Longrightarrow>
   train_step (e\<lparr>clip_grad_norm := f\<rparr>) epoch w gc ban i b st = train_step e epoch w gc ban i b st"
proof -
  have p1: "pull_phase (e\<lparr>clip_grad_norm := f\<rparr>) = pull_phase e"
    by (intro ext) (simp add: pull_phase_def set_model_weights_def split_beta)
  have p3: "push_phase (e\<lparr>clip_grad_norm := f\<rparr>) = push_phase e"
    by (intro ext) (simp add: push_phase_def split_beta)
  assume "\<not> gc < 1000"
  then show ?thesis
    by (simp add: train_step_def grad_phase_clip_irrelevant p1 p3)
qed

lemma train_loop_clip_irrelevant:
  "\<not> gc < 1000 \<Longrightarrow>
   train_loop (e\<lparr>clip_grad_norm := f\<rparr>) epoch w gc ban bs st = train_loop e epoch w gc ban bs st"
proof (induction bs arbitrary: st)
  case Nil
  then show ?case by simp
next
  case (Cons ib bs)
  obtain i b where ib: "ib = (i, b)" by (cases ib)
  have "train_loop (e\<lparr>clip_grad_norm := f\<rparr>) epoch w gc ban bs = train_loop e epoch w gc ban bs"
    using Cons by (intro ext) simp
  then show ?case using Cons.prems by (simp add: ib train_step_clip_irrelevant)
qed

lemma demo_run_unclipped:
  "train demo_env [2, 2] demo_heap demo_model 0 7 2 1000 2 None [] =
   Inr ((2, 50),
      \<lparr>st_heap = [[1], [2], [0], [2]],
         st_model =
           [\<lparr>mod_name = ''fc'', mod_kind = Linear,
               mod_params = [(''weight'', \<lparr>data = 2, grad = Some 1\<rparr>)]\<rparr>],
         st_server = 1, train_loss = \<lparr>avg = 2, sum_m = 4, count = 2\<rparr>,
         train_error = \<lparr>avg = 50, sum_m = 100, count = 2\<rparr>,
         st_statistics = [1], st_bar = None,
         trace =
           [(0, Pull 0), (0, ZeroGrad), (0, Forward), (0, Backward),
            (0, WdPreStep), (1, Forward), (1, Backward), (1, WdPreStep),
            (1, Push 0 [(''fc.weight'', 3)] 7 1 0 1),
            (1, SaveStepNorm 1)]\<rparr>)"
  by code_simp

section \<open>Pull and push within an accumulation group\<close>

lemma map_skip_first:
  "a \<notin> set xs \<Longrightarrow> map (\<lambda>i. (if i = a then P else []) @ R i) xs = map R xs"
  by (induction xs) auto

lemma map_skip_last:
  "b \<notin> set xs \<Longrightarrow> map (\<lambda>i. M i @ (if i = b then Q i else [])) xs = map M xs"
  by (induction xs) auto

lemma concat_first:
  assumes "0 < n"
  shows "concat (map (\<lambda>i. (if i = a then P else []) @ R i) [a..<a + n]) =
         P @ concat (map R [a..<a + n])"
proof -
  obtain xs where u: "[a..<a + n] = a # xs" and nin: "a \<notin> set xs"
  proof
    show "[a..<a + n] = a # [Suc a..<a + n]" using assms by (subst upt_rec) simp
    show "a \<notin> set [Suc a..<a + n]" by simp
  qed
  show ?thesis unfolding u by (simp add: map_skip_first[OF nin])
qed

lemma concat_last:
  assumes "a \<le> b"
  shows "concat (map (\<lambda>i. M i @ (if i = b then Q i else [])) [a..<Suc b]) =
         concat (map M [a..<Suc b]) @ Q b"
proof -
  obtain xs where u: "[a..<Suc b] = xs @ [b]" and nin: "b \<notin> set xs"
  proof
    show "[a..<Suc b] = [a..<b] @ [b]" using assms by simp
    show "b \<notin> set [a..<b]" by simp
  qed
  show ?thesis unfolding u by (simp add: map_skip_last[OF nin])
qed

lemma concat_group:
  assumes "0 < n"
  shows "concat (map (\<lambda>i. (if i = a then P else []) @ M i @ (if i = a + n - 1 then Q i else []))
                  [a..<a + n]) =
         P @ concat (map M [a..<a + n]) @ Q (a + n - 1)"
proof -
  define b where "b = a + n - 1"
  from assms have s: "a + n = Suc b" and le: "a \<le> b" by (simp_all add: b_def)
  have "concat (map (\<lambda>i. (if i = a then P else []) @ M i @ (if i = b then Q i else []))
                  [a..<a + n]) =
        P @ concat (map (\<lambda>i. M i @ (if i = b then Q i else [])) [a..<a + n])"
    by (rule concat_first[OF assms])
  also have "concat (map (\<lambda>i. M i @ (if i = b then Q i else [])) [a..<a + n]) =
             concat (map M [a..<a + n]) @ Q b"
    unfolding s by (rule concat_last[OF le])
  finally show ?thesis unfolding b_def .
qed

lemma concat_all_empty: "(\<And>i. i \<in> set xs \<Longrightarrow> G i = []) \<Longrightarrow> concat (map G xs) = []"
  by (induction xs) auto

lemma sync_of_step:
  assumes n: "0 < n"
  shows "filter (\<lambda>(j, ev). int j div int n = int g \<and> is_sync ev)
           (map (Pair i) (step_events epoch w gc (int n) hb i gr r)) =
         (if i div n = g
          then (if i = g * n then [(i, Pull (int g mod w))] else []) @
               [(i, Forward), (i, Backward)] @
               (if i = g * n + n - 1
                then [(i, Push (int g mod w) gr epoch
                            (of_int (int g - int g mod w) / of_int w + 1) (int g) r),
                      (i, SaveStepNorm r)]
                else [])
          else [])"
proof (cases "i div n = g")
  case False
  then have "int i div int n \<noteq> int g"
    by (metis nat_int zdiv_int)
  then show ?thesis using False by (simp add: filter_map comp_def)
next
  case True
  then have d: "int i div int n = int g" by (simp flip: zdiv_int)
  have m: "int i mod int n = int (i mod n)" by (simp add: zmod_int)
  have first: "(i mod n = 0) = (i = g * n)"
    using True n by (metis add.right_neutral div_mult_mod_eq mod_mult_self2_is_0 mult.commute)
  have i_eq: "i = g * n + i mod n" using True by (metis div_mult_mod_eq)
  have last: "(int (i mod n) = int n - 1) = (i = g * n + n - 1)"
  proof
    assume "int (i mod n) = int n - 1"
    then have "i mod n = n - 1" using n by linarith
    with i_eq show "i = g * n + n - 1" using n by simp
  next
    assume a: "i = g * n + n - 1"
    have "i mod n < n" using n by simp
    with i_eq a have "i mod n = n - 1" using n by linarith
    then show "int (i mod n) = int n - 1" using n by simp
  qed
  show ?thesis
    using True by (simp add: step_events_def Let_def d m first last filter_map comp_def)
qed

lemma saved_step_norms_append:
  "saved_step_norms (xs @ ys) = saved_step_norms xs @ saved_step_norms ys"
  by (induction xs rule: saved_step_norms.induct) auto

lemma pull_phase_saved:
  assumes "pull_phase e can cw i st = Inr st'"
  shows "\<exists>evs. trace st' = trace st @ evs \<and>
               st_statistics st' = st_statistics st @ saved_step_norms evs"
  using assms
  by (auto simp: pull_phase_def bindE_Inr split_beta split: if_splits)

lemma grad_phase_saved:
  assumes "grad_phase e grad_clip ban i b st = Inr st'"
  shows "\<exists>evs. trace st' = trace st @ evs \<and>
               st_statistics st' = st_statistics st @ saved_step_norms evs"
  using assms
  by (auto simp: grad_phase_def bindE_Inr Let_def split_beta split: if_splits)

lemma push_phase_saved:
  assumes "push_phase e epoch w ban can cw i st = Inr st'"
  shows "\<exists>evs. trace st' = trace st @ evs \<and>
               st_statistics st' = st_statistics st @ saved_step_norms evs"
  using assms
  by (auto simp: push_phase_def bindE_Inr split_beta split: if_splits)

lemma bar_phase_saved:
  "\<exists>evs. trace (bar_phase i st) = trace st @ evs \<and>
         st_statistics (bar_phase i st) = st_statistics st @ saved_step_norms evs"
  by (auto simp: bar_phase_def split: option.splits)

lemma train_step_saved:
  assumes "train_step e epoch w gc ban i b st = Inr st'"
  shows "\<exists>evs. trace st' = trace st @ evs \<and>
               st_statistics st' = st_statistics st @ saved_step_norms evs"
proof -
  from assms obtain can cw st1 st2 st3 where
    p1: "pull_phase e can cw i st = Inr st1" and
    p2: "grad_phase e gc ban i b st1 = Inr st2" and
    p3: "push_phase e epoch w ban can cw i st2 = Inr st3" and
    st': "st' = bar_phase i st3"
    unfolding train_step_def bindE_Inr by auto
  from pull_phase_saved[OF p1] obtain e1 where
    a1: "trace st1 = trace st @ e1" "st_statistics st1 = st_statistics st @ saved_step_norms e1"
    by blast
  from grad_phase_saved[OF p2] obtain e2 where
    a2: "trace st2 = trace st1 @ e2" "st_statistics st2 = st_statistics st1 @ saved_step_norms e2"
    by blast
  from push_phase_saved[OF p3] obtain e3 where
    a3: "trace st3 = trace st2 @ e3" "st_statistics st3 = st_statistics st2 @ saved_step_norms e3"
    by blast
  from bar_phase_saved[of i st3] obtain e4 where
    a4: "trace st' = trace st3 @ e4" "st_statistics st' = st_statistics st3 @ saved_step_norms e4"
    unfolding st' by blast
  have "trace st' = trace st @ (e1 @ e2 @ e3 @ e4)"
    using a1 a2 a3 a4 by simp
  moreover have "st_statistics st' = st_statistics st @ saved_step_norms (e1 @ e2 @ e3 @ e4)"
    using a1 a2 a3 a4 by (simp add: saved_step_norms_append)
  ultimately show ?thesis by blast
qed

lemma train_loop_saved:
  "train_loop e epoch w gc ban ibs st = Inr st' \<Longrightarrow>
   \<exists>evs. trace st' = trace st @ evs \<and>
         st_statistics st' = st_statistics st @ saved_step_norms evs"
proof (induction ibs arbitrary: st)
  case Nil
  then show ?case by simp
next
  case (Cons ib ibs)
  obtain i b where ib: "ib = (i, b)" by (cases ib)
  from Cons.prems obtain st1 where
    s1: "train_step e epoch w gc ban i b st = Inr st1" and
    rest: "train_loop e epoch w gc ban ibs st1 = Inr st'"
    by (auto simp: ib bindE_Inr)
  from train_step_saved[OF s1] obtain e1 where
    a1: "trace st1 = trace st @ e1" "st_statistics st1 = st_statistics st @ saved_step_norms e1"
    by blast
  from Cons.IH[OF rest] obtain e2 where
    a2: "trace st' = trace st1 @ e2" "st_statistics st' = st_statistics st1 @ saved_step_norms e2"
    by blast
  have "trace st' = trace st @ (e1 @ e2)" using a1 a2 by simp
  moreover have "st_statistics st' = st_statistics st @ saved_step_norms (e1 @ e2)"
    using a1 a2 by (simp add: saved_step_norms_append)
  ultimately show ?case by blast
qed

lemma train_saved:
  assumes "train e loader h model server epoch w gc ban bar statistics = Inr (res, st)"
  shows "st_statistics st = statistics @ saved_step_norms (trace st)"
proof -
  from assms have "train_loop e epoch w gc ban (enumerate 0 loader)
              \<lparr>st_heap = h, st_model = model, st_server = server,
               train_loss = reset, train_error = reset,
               st_statistics = statistics, st_bar = bar, trace = []\<rparr> = Inr st"
    by (auto simp: train_def bindE_Inr)
  from train_loop_saved[OF this] show ?thesis by auto
qed

lemma group_of_trace:
  assumes n: "0 < n" and len: "(g + 1) * n \<le> L"
  shows "group_sync (int n) g
           (concat (map (\<lambda>i. map (Pair i) (step_events epoch w gc (int n) hb i (gs i) (rs i))) [0..<L])) =
         [(g * n, Pull (int g mod w))] @
         concat (map (\<lambda>i. [(i, Forward), (i, Backward)]) [g * n..<g * n + n]) @
         [(g * n + n - 1, Push (int g mod w) (gs (g * n + n - 1)) epoch
                            (of_int (int g - int g mod w) / of_int w + 1) (int g) (rs (g * n + n - 1))),
          (g * n + n - 1, SaveStepNorm (rs (g * n + n - 1)))]"
proof -
  let ?G = "\<lambda>i. (if i div n = g
          then (if i = g * n then [(i, Pull (int g mod w))] else []) @
               [(i, Forward), (i, Backward)] @
               (if i = g * n + n - 1
                then [(i, Push (int g mod w) (gs i) epoch
                            (of_int (int g - int g mod w) / of_int w + 1) (int g) (rs i)),
                      (i, SaveStepNorm (rs i))]
                else [])
          else [])"
  let ?a = "g * n"
  have split: "[0..<L] = [0..<?a] @ [?a..<?a + n] @ [?a + n..<L]"
  proof -
    from len have l1: "?a + n \<le> L" by simp
    have "[0..<L] = [0..<?a + n] @ [?a + n..<L]"
      using l1 by (metis le_add_diff_inverse upt_add_eq_append zero_le)
    moreover have "[0..<?a + n] = [0..<?a] @ [?a..<?a + n]"
      by (rule upt_add_eq_append) simp
    ultimately show ?thesis by simp
  qed
  have before: "concat (map ?G [0..<?a]) = []"
  proof (rule concat_all_empty)
    fix i assume "i \<in> set [0..<?a]"
    then have "i < g * n" by simp
    then have "i div n < g" using n by (simp add: less_mult_imp_div_less)
    then show "?G i = []" by simp
  qed
  have after: "concat (map ?G [?a + n..<L]) = []"
  proof (rule concat_all_empty)
    fix i assume "i \<in> set [?a + n..<L]"
    then have "(g + 1) * n \<le> i" by simp
    then have "g + 1 \<le> i div n" using n by (simp add: less_eq_div_iff_mult_less_eq)
    then show "?G i = []" by simp
  qed
  have inside: "map ?G [?a..<?a + n] =
        map (\<lambda>i. (if i = ?a then [(?a, Pull (int g mod w))] else []) @
               [(i, Forward), (i, Backward)] @
               (if i = ?a + n - 1
                then [(i, Push (int g mod w) (gs i) epoch
                            (of_int (int g - int g mod w) / of_int w + 1) (int g) (rs i)),
                      (i, SaveStepNorm (rs i))]
                else [])) [?a..<?a + n]"
  proof (rule map_cong)
    fix i assume "i \<in> set [?a..<?a + n]"
    then have "g * n \<le> i" "i < g * n + n" by simp_all
    then have "i div n = g" using n
      by (metis add.commute div_nat_eqI mult.commute mult_Suc_right)
    then show "?G i = (if i = ?a then [(?a, Pull (int g mod w))] else []) @
               [(i, Forward), (i, Backward)] @
               (if i = ?a + n - 1
                then [(i, Push (int g mod w) (gs i) epoch
                            (of_int (int g - int g mod w) / of_int w + 1) (int g) (rs i)),
                      (i, SaveStepNorm (rs i))]
                else [])" by simp
  qed simp
  have "group_sync (int n) g
           (concat (map (\<lambda>i. map (Pair i) (step_events epoch w gc (int n) hb i (gs i) (rs i))) [0..<L])) =
        concat (map ?G [0..<L])"
    unfolding group_sync_def filter_concat map_map comp_def sync_of_step[OF n] ..
  also have "\<dots> = concat (map ?G [?a..<?a + n])"
    unfolding split map_append concat_append before after by simp
  also have "\<dots> = [(g * n, Pull (int g mod w))] @
         concat (map (\<lambda>i. [(i, Forward), (i, Backward)]) [g * n..<g * n + n]) @
         [(g * n + n - 1, Push (int g mod w) (gs (g * n + n - 1)) epoch
                            (of_int (int g - int g mod w) / of_int w + 1) (int g) (rs (g * n + n - 1))),
          (g * n + n - 1, SaveStepNorm (rs (g * n + n - 1)))]"
    unfolding inside by (rule concat_group[OF n])
  finally show ?thesis .
qed

section \<open>Snapshots do not alias the model\<close>

lemma map_of_dict_set: "map_of (dict_set d k v) = (map_of d)(k \<mapsto> v)"
  by (induction d k v rule: dict_set.induct) auto

lemma allocated_iff: "allocated h refs \<longleftrightarrow> (\<forall>a\<in>set refs. a < length h)"
  by (induction refs) auto

lemma writes_to_iff: "writes_to refs ws \<longleftrightarrow> (\<forall>(a, t)\<in>set ws. a \<in> set refs)"
  by (induction ws) auto

lemma length_write_all: "length (write_all h ws) = length h"
  by (induction ws arbitrary: h) auto

lemma write_all_other: "b \<notin> fst ` set ws \<Longrightarrow> write_all h ws ! b = h ! b"
  by (induction ws arbitrary: h) auto

lemma weights_loop_inv:
  assumes "weights_loop h d ps = (h', d')"
      and "\<forall>(n, p)\<in>set ps. data p < length h"
  shows "(\<exists>ext. h' = h @ ext) \<and>
         dom (map_of d') = dom (map_of d) \<union> fst ` set ps \<and>
         (\<forall>name b. map_of d' name = Some b \<longrightarrow>
            map_of d name = Some b \<or>
            (length h \<le> b \<and> b < length h' \<and> (\<exists>p. (name, p) \<in> set ps \<and> h' ! b = h ! data p)))"
  using assms
proof (induction ps arbitrary: h d)
  case Nil
  then show ?case by simp
next
  case (Cons np ps)
  obtain n p where np: "np = (n, p)" by (cases np)
  let ?h1 = "h @ [h ! data p]" and ?d1 = "dict_set d n (length h)"
  from Cons.prems(1) have run: "weights_loop ?h1 ?d1 ps = (h', d')"
    by (simp add: np clone_def)
  from Cons.prems(2) have p_ok: "data p < length h" and
    rest_ok: "\<forall>(n, p)\<in>set ps. data p < length h"
    by (auto simp: np)
  from rest_ok have rest_ok1: "\<forall>(n, p)\<in>set ps. data p < length ?h1" by auto
  from Cons.IH[OF run rest_ok1] obtain ext where
    ext: "h' = ?h1 @ ext" and
    dm: "dom (map_of d') = dom (map_of ?d1) \<union> fst ` set ps" and
    ent: "\<forall>name b. map_of d' name = Some b \<longrightarrow>
            map_of ?d1 name = Some b \<or>
            (length ?h1 \<le> b \<and> b < length h' \<and> (\<exists>p. (name, p) \<in> set ps \<and> h' ! b = ?h1 ! data p))"
    by blast
  have e1: "\<exists>ext. h' = h @ ext" using ext by simp
  have e2: "dom (map_of d') = dom (map_of d) \<union> fst ` set (np # ps)"
    using dm by (auto simp: map_of_dict_set np)
  have e3: "map_of d name = Some b \<or>
            (length h \<le> b \<and> b < length h' \<and> (\<exists>q. (name, q) \<in> set (np # ps) \<and> h' ! b = h ! data q))"
    if m: "map_of d' name = Some b" for name b
  proof -
    from ent m consider (old) "map_of ?d1 name = Some b"
      | (new) "length ?h1 \<le> b" "b < length h'" "\<exists>q. (name, q) \<in> set ps \<and> h' ! b = ?h1 ! data q"
      by blast
    then show ?thesis
    proof cases
      case old
      show ?thesis
      proof (cases "name = n")
        case True
        with old have b: "b = length h" by (simp add: map_of_dict_set)
        have "h' ! b = h ! data p" unfolding b ext by (simp add: nth_append)
        moreover have "b < length h'" unfolding b ext by simp
        ultimately show ?thesis using True b np by auto
      next
        case False
        with old show ?thesis by (simp add: map_of_dict_set)
      qed
    next
      case new
      from new(3) obtain q where q: "(name, q) \<in> set ps" "h' ! b = ?h1 ! data q" by blast
      from q(1) rest_ok have "data q < length h" by auto
      then have "?h1 ! data q = h ! data q" by (simp add: nth_append)
      with q new(1,2) show ?thesis by auto
    qed
  qed
  from e1 e2 e3 show ?case by blast
qed

lemma gradients_as_weights:
  "gradients_loop h d ps = Inr r \<Longrightarrow>
   r = weights_loop h d (map (\<lambda>(n, p). (n, p\<lparr>data := the (grad p)\<rparr>)) ps) \<and>
   (\<forall>(n, p)\<in>set ps. grad p \<noteq> None)"
proof (induction ps arbitrary: h d)
  case Nil
  then show ?case by simp
next
  case (Cons np ps)
  obtain n p where np: "np = (n, p)" by (cases np)
  from Cons.prems obtain g where g: "grad p = Some g" and
    run: "gradients_loop (h @ [h ! g]) (dict_set d n (length h)) ps = Inr r"
    by (auto simp: np clone_def split: option.splits)
  from Cons.IH[OF run] show ?case by (simp add: np g clone_def)
qed

lemma model_addrs_mem:
  assumes "(name, p) \<in> set (named_parameters model)"
  shows "data p \<in> set (model_addrs model)"
    and "grad p = Some g \<Longrightarrow> g \<in> set (model_addrs model)"
  using assms by (auto simp: model_addrs_def intro!: bexI[of _ "(name, p)"])

lemma snapshot_untouched:
  assumes alloc: "allocated h refs" and w: "writes_to refs ws" and b: "length h \<le> b"
  shows "write_all h' ws ! b = h' ! b"
proof (rule write_all_other)
  show "b \<notin> fst ` set ws"
  proof
    assume "b \<in> fst ` set ws"
    then obtain t where "(b, t) \<in> set ws" by auto
    with w have "b \<in> set refs" by (auto simp: writes_to_iff)
    with alloc have "b < length h" by (simp add: allocated_iff)
    with b show False by simp
  qed
qed

text \<open>
  Claim C8. The dicts returned by \<^verbatim>\<open>get_model_weights\<close> and \<^verbatim>\<open>get_model_gradients\<close>
  hold clones. Let every tensor of the model be allocated. Then the returned dict has
  an entry for exactly the names of the model's parameters; the tensor under a name
  holds the entries that a parameter of that name (its \<^verbatim>\<open>data\<close>, or its \<^verbatim>\<open>grad\<close>) had
  at the call; and after any sequence of in-place writes to the model's parameter and
  gradient tensors the tensor in the dict is unchanged.
\<close>

theorem snapshots_are_copies:
  assumes "allocated h (model_addrs model)"
      and "writes_to (model_addrs model) ws"
  shows "(get_model_weights h model = (h1, weights) \<longrightarrow>
            dom (map_of weights) = fst ` set (named_parameters model) \<and>
            (map_of weights name = Some b \<longrightarrow>
               write_all h1 ws ! b = h1 ! b \<and>
               (\<exists>weight. (name, weight) \<in> set (named_parameters model) \<and>
                         h1 ! b = h ! data weight))) \<and>
         (get_model_gradients h model = Inr (h2, gradients) \<longrightarrow>
            dom (map_of gradients) = fst ` set (named_parameters model) \<and>
            (map_of gradients name = Some c \<longrightarrow>
               write_all h2 ws ! c = h2 ! c \<and>
               (\<exists>weight g. (name, weight) \<in> set (named_parameters model) \<and>
                           grad weight = Some g \<and> h2 ! c = h ! g)))"
proof (intro conjI impI)
  assume run: "get_model_weights h model = (h1, weights)"
  have ok: "\<forall>(n, p)\<in>set (named_parameters model). data p < length h"
    using assms(1) model_addrs_mem(1) by (fastforce simp: allocated_iff)
  from run have "weights_loop h [] (named_parameters model) = (h1, weights)"
    by (simp add: get_model_weights_def)
  from weights_loop_inv[OF this ok] have
    dm: "dom (map_of weights) = fst ` set (named_parameters model)" and
    ent: "\<And>name b. map_of weights name = Some b \<Longrightarrow>
            length h \<le> b \<and> b < length h1 \<and>
            (\<exists>p. (name, p) \<in> set (named_parameters model) \<and> h1 ! b = h ! data p)"
    by auto
  show "dom (map_of weights) = fst ` set (named_parameters model)" by fact
  assume m: "map_of weights name = Some b"
  from ent[OF m] have fresh: "length h \<le> b" and
    val: "\<exists>p. (name, p) \<in> set (named_parameters model) \<and> h1 ! b = h ! data p" by simp_all
  show "write_all h1 ws ! b = h1 ! b"
    by (rule snapshot_untouched[OF assms(1,2) fresh])
  show "\<exists>weight. (name, weight) \<in> set (named_parameters model) \<and> h1 ! b = h ! data weight"
    by fact
next
  assume run: "get_model_gradients h model = Inr (h2, gradients)"
  let ?ps = "map (\<lambda>(n, p). (n, p\<lparr>data := the (grad p)\<rparr>)) (named_parameters model)"
  from run have g: "gradients_loop h [] (named_parameters model) = Inr (h2, gradients)"
    by (simp add: get_model_gradients_def)
  from gradients_as_weights[OF g] have
    wl: "weights_loop h [] ?ps = (h2, gradients)" and
    some: "\<forall>(n, p)\<in>set (named_parameters model). grad p \<noteq> None" by simp_all
  have ok: "\<forall>(n, p)\<in>set ?ps. data p < length h"
  proof -
    have "the (grad p) < length h" if "(n, p) \<in> set (named_parameters model)" for n p
    proof -
      from some that obtain a where a: "grad p = Some a" by auto
      from model_addrs_mem(2)[OF that a] assms(1) have "a < length h"
        by (simp add: allocated_iff)
      with a show ?thesis by simp
    qed
    then show ?thesis by auto
  qed
  have names: "fst ` set ?ps = fst ` set (named_parameters model)"
    by (force simp: image_iff)
  from weights_loop_inv[OF wl ok] have
    dm: "dom (map_of gradients) = fst ` set ?ps" and
    ent: "\<And>name b. map_of gradients name = Some b \<Longrightarrow>
            length h \<le> b \<and> b < length h2 \<and>
            (\<exists>p. (name, p) \<in> set ?ps \<and> h2 ! b = h ! data p)"
    by auto
  show "dom (map_of gradients) = fst ` set (named_parameters model)"
    using dm names by simp
  assume m: "map_of gradients name = Some c"
  from ent[OF m] obtain q where fresh: "length h \<le> c" and
    q: "(name, q) \<in> set ?ps" "h2 ! c = h ! data q" by blast
  show "write_all h2 ws ! c = h2 ! c"
    by (rule snapshot_untouched[OF assms(1,2) fresh])
  from q(1) obtain p where p: "(name, p) \<in> set (named_parameters model)"
    "q = p\<lparr>data := the (grad p)\<rparr>" by auto
  from some p(1) obtain a where a: "grad p = Some a" by auto
  have "h2 ! c = h ! a" using q(2) p(2) a by simp
  with p(1) a show "\<exists>weight g. (name, weight) \<in> set (named_parameters model) \<and>
                           grad weight = Some g \<and> h2 ! c = h ! g" by blast
qed

theorem snapshots_are_copies_witness:
  "allocated demo_heap (model_addrs demo_model) \<and>
   writes_to (model_addrs demo_model) [(0, [9]), (1, [8])] \<and>
   get_model_weights demo_heap demo_model = ([[1], [0], [1]], [(''fc.weight'', 2)]) \<and>
   write_all [[1], [0], [1]] [(0, [9]), (1, [8])] ! 2 = demo_heap ! 0 \<and>
   get_model_gradients demo_heap demo_model = Inr ([[1], [0], [0]], [(''fc.weight'', 2)]) \<and>
   write_all [[1], [0], [0]] [(0, [9]), (1, [8])] ! 2 = demo_heap ! 1"
proof -
  have a: "allocated demo_heap (model_addrs demo_model)"
    by (simp add: demo_heap_def demo_model_def model_addrs_def named_parameters_def
          module_parameters_def)
  have w: "writes_to (model_addrs demo_model) [(0, [9]), (1, [8])]"
    by (simp add: demo_model_def model_addrs_def named_parameters_def module_parameters_def)
  have r1: "get_model_weights demo_heap demo_model = ([[1], [0], [1]], [(''fc.weight'', 2)])"
    by (simp add: get_model_weights_def demo_heap_def demo_model_def named_parameters_def
          module_parameters_def clone_def)
  have r2: "get_model_gradients demo_heap demo_model = Inr ([[1], [0], [0]], [(''fc.weight'', 2)])"
    by (simp add: get_model_gradients_def demo_heap_def demo_model_def named_parameters_def
          module_parameters_def clone_def)
  from snapshots_are_copies[OF a w, of "[[1], [0], [1]]" "[(''fc.weight'', 2)]" "''fc.weight''" 2
         "[[1], [0], [0]]" "[(''fc.weight'', 2)]" 2] r1 r2
  have "write_all [[1], [0], [1]] [(0, [9]), (1, [8])] ! 2 = demo_heap ! 0 \<and>
        write_all [[1], [0], [0]] [(0, [9]), (1, [8])] ! 2 = demo_heap ! 1"
    by (simp add: demo_heap_def)
  with a w r1 r2 show ?thesis by blast
qed

section \<open>Weight decay\<close>

lemma wd_pre_step_fold:
  "wd_pre_step h model c = Inr h' \<Longrightarrow> h' = fold (decay_step c) (decayed model) h"
proof (induction model arbitrary: h)
  case Nil
  then show ?case by simp
next
  case (Cons m ms)
  show ?case
  proof (cases "mod_kind m = Conv2d \<or> mod_kind m = Linear")
    case False
    with Cons show ?thesis by simp
  next
    case True
    with Cons.prems obtain h1 where
      d: "decay_weight c h m = Inr h1" and rest: "wd_pre_step h1 ms c = Inr h'"
      by (auto split: sum.splits)
    from d obtain w g where w: "map_of (mod_params m) ''weight'' = Some w" and
      g: "grad w = Some g" and h1: "h1 = h[g := add_scaled c (h ! g) (h ! data w)]"
      by (auto simp: decay_weight_def split: option.splits)
    have "decayed (m # ms) = (g, data w) # decayed ms" using True w g by simp
    then show ?thesis using Cons.IH[OF rest] h1 by (simp add: decay_step_def)
  qed
qed

lemma fold_decay:
  assumes "no_sharing ps" and "allocated h (map fst ps)"
  shows "length (fold (decay_step c) ps h) = length h \<and>
         (\<forall>(g, w)\<in>set ps. fold (decay_step c) ps h ! g = add_scaled c (h ! g) (h ! w)) \<and>
         (\<forall>a. a \<notin> fst ` set ps \<longrightarrow> fold (decay_step c) ps h ! a = h ! a)"
  using assms
proof (induction ps arbitrary: h)
  case Nil
  then show ?case by simp
next
  case (Cons gw ps)
  obtain g0 w0 where gw: "gw = (g0, w0)" by (cases gw)
  let ?h1 = "decay_step c gw h"
  have h1: "?h1 = h[g0 := add_scaled c (h ! g0) (h ! w0)]" by (simp add: decay_step_def gw)
  from Cons.prems(1) have ns: "no_sharing ps" and
    g0: "g0 \<notin> fst ` set ps" "g0 \<notin> snd ` set ps" and w0: "w0 \<notin> fst ` set ps" "g0 \<noteq> w0"
    by (auto simp: gw)
  have len1: "length ?h1 = length h" by (simp add: decay_step_def)
  from Cons.prems(2) have a0: "g0 < length h" and al: "allocated ?h1 (map fst ps)"
    unfolding allocated_iff len1 by (auto simp: gw)
  from Cons.IH[OF ns al] have
    len: "length (fold (decay_step c) ps ?h1) = length ?h1" and
    dec: "\<And>g w. (g, w) \<in> set ps \<Longrightarrow>
            fold (decay_step c) ps ?h1 ! g = add_scaled c (?h1 ! g) (?h1 ! w)" and
    oth: "\<And>a. a \<notin> fst ` set ps \<Longrightarrow> fold (decay_step c) ps ?h1 ! a = ?h1 ! a"
    by auto
  have f: "fold (decay_step c) (gw # ps) h = fold (decay_step c) ps ?h1" by simp
  have c1: "length (fold (decay_step c) (gw # ps) h) = length h"
    unfolding f len by (simp add: h1)
  have c2: "fold (decay_step c) (gw # ps) h ! g = add_scaled c (h ! g) (h ! w)"
    if m: "(g, w) \<in> set (gw # ps)" for g w
  proof (cases "(g, w) \<in> set ps")
    case True
    then have "g \<noteq> g0" "w \<noteq> g0" using g0 by force+
    then have "?h1 ! g = h ! g" "?h1 ! w = h ! w" by (simp_all add: h1)
    with dec[OF True] show ?thesis unfolding f by simp
  next
    case False
    with m have e: "g = g0" "w = w0" by (simp_all add: gw)
    have "fold (decay_step c) ps ?h1 ! g0 = ?h1 ! g0" by (rule oth[OF g0(1)])
    also have "\<dots> = add_scaled c (h ! g0) (h ! w0)" using a0 by (simp add: h1)
    finally show ?thesis unfolding f e .
  qed
  have c3: "fold (decay_step c) (gw # ps) h ! a = h ! a" if "a \<notin> fst ` set (gw # ps)" for a
  proof -
    from that have "a \<noteq> g0" "a \<notin> fst ` set ps" by (auto simp: gw)
    then show ?thesis unfolding f using oth[of a] by (simp add: h1)
  qed
  from c1 c2 c3 show ?case by blast
qed

lemma decayed_mem:
  "(g, d) \<in> set (decayed model) \<longleftrightarrow>
     (\<exists>m\<in>set model. (mod_kind m = Conv2d \<or> mod_kind m = Linear) \<and>
        (\<exists>w. map_of (mod_params m) ''weight'' = Some w \<and> grad w = Some g \<and> d = data w))"
  by (induction model) (auto split: option.splits)

lemma concat_single:
  assumes "i < L" and "\<And>j. j \<noteq> i \<Longrightarrow> G j = []"
  shows "concat (map G [0..<L]) = G i"
proof -
  have "[0..<L] = [0..<i] @ [i..<L]"
    using assms(1) by (metis le_add_diff_inverse less_imp_le_nat upt_add_eq_append zero_le)
  moreover have "[i..<L] = i # [Suc i..<L]"
    using assms(1) by (rule upt_conv_Cons)
  ultimately have u: "[0..<L] = [0..<i] @ [i] @ [Suc i..<L]" by simp
  have b: "concat (map G [0..<i]) = []"
    by (rule concat_all_empty) (use assms(2) in auto)
  have a: "concat (map G [Suc i..<L]) = []"
    by (rule concat_all_empty) (use assms(2) in auto)
  have "concat (map G [0..<L]) = concat (map G [0..<i]) @ G i @ concat (map G [Suc i..<L])"
    unfolding u by simp
  then show ?thesis unfolding a b by simp
qed

lemma decay_order_of_step:
  "map snd (filter (is_decay_order i) (map (Pair j) (step_events epoch w gc ban hb j g r))) =
     (if j = i
      then WdPreStep #
           ((if gc < 1000 then [ClipGradNorm gc] else []) @
            (if int j mod ban = ban - 1
             then [Push ((int j div ban) mod w) g epoch
                     (of_int (int j div ban - (int j div ban) mod w) / of_int w + 1)
                     (int j div ban) r]
             else []))
      else [])"
  by (simp add: step_events_def Let_def)

lemma grad_phase_heap:
  assumes "grad_phase e gc ban i b st = Inr st'"
  shows "\<exists>h2. wd_pre_step (fst (backward e (st_heap st) (st_model st) b ban))
                 (snd (backward e (st_heap st) (st_model st) b ban)) default_weight_decay = Inr h2 \<and>
              st_heap st' =
                (if gc < 1000
                 then clip_grad_norm e h2 (snd (backward e (st_heap st) (st_model st) b ban)) gc
                 else h2)"
  using assms
  by (auto simp: grad_phase_def bindE_Inr Let_def split_beta split: if_splits)

text \<open>
  Claim C2, as amended. \<^verbatim>\<open>wd_pre_step\<close> adds \<^verbatim>\<open>weight_decay * weight\<close> in place to the
  gradient of the \<^verbatim>\<open>weight\<close> of every \<^verbatim>\<open>nn.Conv2d\<close> and \<^verbatim>\<open>nn.Linear\<close> module, and
  leaves every other tensor as it was: biases and the parameters of modules of other
  classes are not decayed. In each pass of the training loop it runs, with the default
  \<^verbatim>\<open>weight_decay = 1e-4\<close>, on the result of the backward pass; clipping, when enabled,
  is applied to its result, and the push of that pass, if any, comes after it.
\<close>

theorem weight_decay_on_conv_linear_weights:
  "(wd_pre_step h model c = Inr h' \<longrightarrow> no_sharing (decayed model) \<longrightarrow>
    allocated h (map fst (decayed model)) \<longrightarrow>
      length h' = length h \<and>
      (\<forall>m\<in>set model. \<forall>w g.
         (mod_kind m = Conv2d \<or> mod_kind m = Linear) \<longrightarrow>
         map_of (mod_params m) ''weight'' = Some w \<longrightarrow> grad w = Some g \<longrightarrow>
         h' ! g = add_scaled c (h ! g) (h ! data w)) \<and>
      (\<forall>a. a \<notin> fst ` set (decayed model) \<longrightarrow> h' ! a = h ! a)) \<and>
   (grad_phase e grad_clip batch_accumulate_num i b st0 = Inr st1 \<longrightarrow>
      (\<exists>h2. wd_pre_step (fst (backward e (st_heap st0) (st_model st0) b batch_accumulate_num))
               (snd (backward e (st_heap st0) (st_model st0) b batch_accumulate_num))
               default_weight_decay = Inr h2 \<and>
            st_heap st1 =
              (if grad_clip < 1000
               then clip_grad_norm e h2
                      (snd (backward e (st_heap st0) (st_model st0) b batch_accumulate_num)) grad_clip
               else h2))) \<and>
   (train e loader h0 model0 server epoch workers_number grad_clip batch_accumulate_num
      bar statistics = Inr (res, st) \<longrightarrow> i < length loader \<longrightarrow>
      (\<exists>rest. map snd (filter (is_decay_order i) (trace st)) = WdPreStep # rest \<and>
              WdPreStep \<notin> set rest))"
proof (intro conjI impI)
  assume run: "wd_pre_step h model c = Inr h'" and ns: "no_sharing (decayed model)" and
    al: "allocated h (map fst (decayed model))"
  have h': "h' = fold (decay_step c) (decayed model) h" by (rule wd_pre_step_fold[OF run])
  from fold_decay[OF ns al, of c] have
    len: "length h' = length h" and
    dec: "\<And>g w. (g, w) \<in> set (decayed model) \<Longrightarrow> h' ! g = add_scaled c (h ! g) (h ! w)" and
    oth: "\<And>a. a \<notin> fst ` set (decayed model) \<Longrightarrow> h' ! a = h ! a"
    unfolding h' by auto
  show "length h' = length h" by fact
  show "\<forall>m\<in>set model. \<forall>w g.
         (mod_kind m = Conv2d \<or> mod_kind m = Linear) \<longrightarrow>
         map_of (mod_params m) ''weight'' = Some w \<longrightarrow> grad w = Some g \<longrightarrow>
         h' ! g = add_scaled c (h ! g) (h ! data w)"
  proof (intro ballI allI impI)
    fix m w g
    assume "m \<in> set model" "mod_kind m = Conv2d \<or> mod_kind m = Linear"
      "map_of (mod_params m) ''weight'' = Some w" "grad w = Some g"
    then have "(g, data w) \<in> set (decayed model)" unfolding decayed_mem by blast
    then show "h' ! g = add_scaled c (h ! g) (h ! data w)" by (rule dec)
  qed
  show "\<forall>a. a \<notin> fst ` set (decayed model) \<longrightarrow> h' ! a = h ! a" using oth by blast
next
  assume "grad_phase e grad_clip batch_accumulate_num i b st0 = Inr st1"
  then show "\<exists>h2. wd_pre_step (fst (backward e (st_heap st0) (st_model st0) b batch_accumulate_num))
               (snd (backward e (st_heap st0) (st_model st0) b batch_accumulate_num))
               default_weight_decay = Inr h2 \<and>
            st_heap st1 =
              (if grad_clip < 1000
               then clip_grad_norm e h2
                      (snd (backward e (st_heap st0) (st_model st0) b batch_accumulate_num)) grad_clip
               else h2)"
    by (rule grad_phase_heap)
next
  assume run: "train e loader h0 model0 server epoch workers_number grad_clip batch_accumulate_num
      bar statistics = Inr (res, st)" and i: "i < length loader"
  from train_trace[OF run] obtain gs rs where
    tr: "trace st = concat (map (\<lambda>j. map (Pair j)
           (step_events epoch workers_number grad_clip batch_accumulate_num (bar \<noteq> None) j (gs j) (rs j)))
           [0..<length loader])" by blast
  let ?F = "\<lambda>j. map (Pair j)
           (step_events epoch workers_number grad_clip batch_accumulate_num (bar \<noteq> None) j (gs j) (rs j))"
  let ?G = "\<lambda>j. map snd (filter (is_decay_order i) (?F j))"
  have "map snd (filter (is_decay_order i) (trace st)) = concat (map ?G [0..<length loader])"
    unfolding tr filter_concat map_concat map_map comp_def ..
  also have "\<dots> = ?G i"
    by (rule concat_single[OF i]) (simp add: decay_order_of_step)
  finally have "map snd (filter (is_decay_order i) (trace st)) = ?G i" .
  then show "\<exists>rest. map snd (filter (is_decay_order i) (trace st)) = WdPreStep # rest \<and>
              WdPreStep \<notin> set rest"
    unfolding decay_order_of_step by auto
qed

text \<open>
  Claim C2 as stated fails: the gradient of the bias of a linear layer, and of the
  weight of a module that is neither \<^verbatim>\<open>nn.Conv2d\<close> nor \<^verbatim>\<open>nn.Linear\<close>, is not changed.
\<close>

theorem weight_decay_skips_bias:
  "wd_pre_step bias_heap bias_model default_weight_decay =
     Inr [[1], [10001 / 10000], [1], [1], [1], [1]] \<and>
   map_of (named_parameters bias_model) ''fc.bias'' = Some \<lparr>data = 2, grad = Some 3\<rparr> \<and>
   [[1], [10001 / 10000], [1], [1], [1], [1]] ! 3 \<noteq>
     add_scaled default_weight_decay (bias_heap ! 3) (bias_heap ! 2) \<and>
   map_of (named_parameters bias_model) ''bn.weight'' = Some \<lparr>data = 4, grad = Some 5\<rparr> \<and>
   [[1], [10001 / 10000], [1], [1], [1], [1]] ! 5 \<noteq>
     add_scaled default_weight_decay (bias_heap ! 5) (bias_heap ! 4)"
  by (simp add: bias_heap_def bias_model_def default_weight_decay_def decay_weight_def
        add_scaled_def named_parameters_def module_parameters_def)

lemma demo_grad_phase:
  "grad_phase demo_env 5 2 0 2 demo_state =
   Inr \<lparr>st_heap = [[1], [10001 / 10000]],
        st_model =
          [\<lparr>mod_name = ''fc'', mod_kind = Linear,
              mod_params = [(''weight'', \<lparr>data = 0, grad = Some 1\<rparr>)]\<rparr>],
        st_server = 0, train_loss = \<lparr>avg = 2, sum_m = 2, count = 1\<rparr>,
        train_error = \<lparr>avg = 50, sum_m = 50, count = 1\<rparr>, st_statistics = [],
        st_bar = None,
        trace =
          [(0, Forward), (0, Backward), (0, WdPreStep),
           (0, ClipGradNorm 5)]\<rparr>"
  by code_simp

theorem weight_decay_on_conv_linear_weights_witness:
  "wd_pre_step bias_heap bias_model default_weight_decay =
     Inr [[1], [10001 / 10000], [1], [1], [1], [1]] \<and>
   no_sharing (decayed bias_model) \<and>
   allocated bias_heap (map fst (decayed bias_model)) \<and>
   [[1], [10001 / 10000], [1], [1], [1], [1]] ! 1 =
     add_scaled default_weight_decay (bias_heap ! 1) (bias_heap ! 0) \<and>
   [[1], [10001 / 10000], [1], [1], [1], [1]] ! 3 = bias_heap ! 3 \<and>
   (\<exists>h2. wd_pre_step (fst (backward demo_env demo_heap demo_model 2 2))
            (snd (backward demo_env demo_heap demo_model 2 2)) default_weight_decay = Inr h2 \<and>
         [[1], [10001 / 10000]] = clip_grad_norm demo_env h2 demo_model 5) \<and>
   (0::nat) < length [2, 2, 2, 2, 2, 2::rat] \<and>
   map snd (filter (is_decay_order 0)
     (trace (snd (projr (train demo_env [2, 2, 2, 2, 2, 2] demo_heap demo_model 0 7 2 5 2 None []))))) =
     [WdPreStep, ClipGradNorm 5]"
proof -
  note inst = weight_decay_on_conv_linear_weights
     [where h = bias_heap and model = bias_model and c = default_weight_decay and
        h' = "[[1], [10001 / 10000], [1], [1], [1], [1]]" and e = demo_env and grad_clip = 5 and
        batch_accumulate_num = 2 and i = 0 and b = 2 and ?st0.0 = demo_state and
        loader = "[2, 2, 2, 2, 2, 2]" and ?h0.0 = demo_heap and ?model0.0 = demo_model and
        server = 0 and epoch = 7 and workers_number = 2 and bar = None and statistics = "[]",
      unfolded demo_run demo_grad_phase]
  have r: "wd_pre_step bias_heap bias_model default_weight_decay =
     Inr [[1], [10001 / 10000], [1], [1], [1], [1]]"
    by (simp add: bias_heap_def bias_model_def default_weight_decay_def decay_weight_def
          add_scaled_def)
  have d: "decayed bias_model = [(1, 0)]" by (simp add: bias_model_def)
  have ns: "no_sharing (decayed bias_model)" unfolding d by simp
  have al: "allocated bias_heap (map fst (decayed bias_model))"
    unfolding d by (simp add: bias_heap_def)
  have m: "\<lparr>mod_name = ''fc'', mod_kind = Linear,
                  mod_params = [(''weight'', \<lparr>data = 0, grad = Some 1\<rparr>),
                                (''bias'', \<lparr>data = 2, grad = Some 3\<rparr>)]\<rparr> \<in> set bias_model"
    by (simp add: bias_model_def)
  from inst r ns al have
    p1: "(\<forall>m\<in>set bias_model. \<forall>w g.
         (mod_kind m = Conv2d \<or> mod_kind m = Linear) \<longrightarrow>
         map_of (mod_params m) ''weight'' = Some w \<longrightarrow> grad w = Some g \<longrightarrow>
         [[1], [10001 / 10000], [1], [1], [1], [1]] ! g =
           add_scaled default_weight_decay (bias_heap ! g) (bias_heap ! data w))" and
    p2: "\<forall>a. a \<notin> fst ` set (decayed bias_model) \<longrightarrow>
           [[1], [10001 / 10000], [1], [1], [1], [1]] ! a = bias_heap ! a"
    by blast+
  from p1 m have c1: "[[1], [10001 / 10000], [1], [1], [1], [1]] ! 1 =
     add_scaled default_weight_decay (bias_heap ! 1) (bias_heap ! 0)"
    by force
  have "(3::nat) \<notin> fst ` set (decayed bias_model)" unfolding d by simp
  with p2 have c2: "[[1], [10001 / 10000], [1], [1], [1], [1]] ! 3 = bias_heap ! 3"
    by blast
  from inst have c3: "\<exists>h2. wd_pre_step (fst (backward demo_env demo_heap demo_model 2 2))
            (snd (backward demo_env demo_heap demo_model 2 2)) default_weight_decay = Inr h2 \<and>
         [[1], [10001 / 10000]] = clip_grad_norm demo_env h2 demo_model 5"
    by (simp add: demo_state_def demo_env_def)
  have l: "(0::nat) < length [2, 2, 2, 2, 2, 2::rat]" by simp
  have c4: "map snd (filter (is_decay_order 0)
     (trace (snd (projr (train demo_env [2, 2, 2, 2, 2, 2] demo_heap demo_model 0 7 2 5 2 None []))))) =
     [WdPreStep, ClipGradNorm 5]"
    unfolding demo_run by simp
  from r ns al c1 c2 c3 l c4 show ?thesis by blast
qed

section \<open>Resuming\<close>

text \<open>
  Claim C6 as stated fails: a checkpoint whose server was built for two workers is
  accepted into a run whose server was built for four. (The server is represented by
  its number of workers.)
\<close>

theorem resume_accepts_other_configuration:
  "resume load_names True
     (Some (Inr \<lparr>ck_epoch = 3, ck_server = (2::int), ck_val_stats = (), ck_train_stats = (),
                 ck_state_dict = [''fc.weight'']\<rparr>))
     \<lparr>rs_start_epoch = 0, rs_server = 4, rs_val_statistics = (), rs_train_statistics = (),
      rs_model = [''fc.weight'']\<rparr> =
   Inr \<lparr>rs_start_epoch = 3, rs_server = 2, rs_val_statistics = (), rs_train_statistics = (),
        rs_model = [''fc.weight'']\<rparr>"
  by (simp add: resume_def load_names_def bindE_def)

text \<open>
  Claim C6, as amended. Resuming takes the start epoch, the server and the statistics
  from the checkpoint as they are; the only check is the one the library's
  \<^verbatim>\<open>load_state_dict\<close> makes on the state dict. The script raises nothing of its own: a
  failure of the resume step is the exception of \<^verbatim>\<open>torch.load\<close> or of
  \<^verbatim>\<open>load_state_dict\<close>. Without \<^verbatim>\<open>args.resume\<close>, or without the file, the run goes on
  with the fresh state.
\<close>

theorem resume_checks_only_state_dict:
  "(resume load_state_dict resume_given file rs = Inr rs' \<longrightarrow> resume_given \<longrightarrow>
      file = Some (Inr checkpoint) \<longrightarrow>
        rs_start_epoch rs' = ck_epoch checkpoint \<and> rs_server rs' = ck_server checkpoint \<and>
        rs_val_statistics rs' = ck_val_stats checkpoint \<and>
        rs_train_statistics rs' = ck_train_stats checkpoint \<and>
        load_state_dict (rs_model rs) (ck_state_dict checkpoint) = Inr (rs_model rs')) \<and>
   (resume load_state_dict resume_given file rs = Inl err \<longrightarrow>
      resume_given \<and>
      (file = Some (Inl err) \<or>
       (\<exists>ck. file = Some (Inr ck) \<and> load_state_dict (rs_model rs) (ck_state_dict ck) = Inl err))) \<and>
   (\<not> resume_given \<or> file = None \<longrightarrow> resume load_state_dict resume_given file rs = Inr rs)"
  by (auto simp: resume_def bindE_def split: if_splits option.splits sum.splits)

theorem resume_checks_only_state_dict_witness:
  "resume load_names True
     (Some (Inr \<lparr>ck_epoch = 3, ck_server = (2::int), ck_val_stats = (), ck_train_stats = (),
                 ck_state_dict = [''conv.weight'']\<rparr>))
     \<lparr>rs_start_epoch = 0, rs_server = 4, rs_val_statistics = (), rs_train_statistics = (),
      rs_model = [''fc.weight'']\<rparr> = Inl LibraryError \<and>
   load_names [''fc.weight''] [''conv.weight''] = Inl LibraryError \<and>
   resume load_names True
     (Some (Inr \<lparr>ck_epoch = 3, ck_server = (2::int), ck_val_stats = (), ck_train_stats = (),
                 ck_state_dict = [''fc.weight'']\<rparr>))
     \<lparr>rs_start_epoch = 0, rs_server = 4, rs_val_statistics = (), rs_train_statistics = (),
      rs_model = [''fc.weight'']\<rparr> =
   Inr \<lparr>rs_start_epoch = 3, rs_server = 2, rs_val_statistics = (), rs_train_statistics = (),
        rs_model = [''fc.weight'']\<rparr> \<and>
   resume load_names True None
     \<lparr>rs_start_epoch = 0, rs_server = (4::int), rs_val_statistics = (), rs_train_statistics = (),
      rs_model = [''fc.weight'']\<rparr> =
   Inr \<lparr>rs_start_epoch = 0, rs_server = 4, rs_val_statistics = (), rs_train_statistics = (),
        rs_model = [''fc.weight'']\<rparr>"
proof -
  let ?rs = "\<lparr>rs_start_epoch = 0, rs_server = (4::int), rs_val_statistics = (), rs_train_statistics = (),
      rs_model = [''fc.weight'']\<rparr>"
  let ?bad = "\<lparr>ck_epoch = 3, ck_server = (2::int), ck_val_stats = (), ck_train_stats = (),
                 ck_state_dict = [''conv.weight'']\<rparr>"
  let ?good = "\<lparr>ck_epoch = 3, ck_server = (2::int), ck_val_stats = (), ck_train_stats = (),
                 ck_state_dict = [''fc.weight'']\<rparr>"
  have e: "resume load_names True (Some (Inr ?bad)) ?rs = Inl LibraryError"
    by (simp add: resume_def load_names_def bindE_def)
  from resume_checks_only_state_dict[of load_names True "Some (Inr ?bad)" ?rs _ _ LibraryError] e
  have l: "load_names [''fc.weight''] [''conv.weight''] = Inl LibraryError"
    by simp
  have g: "resume load_names True (Some (Inr ?good)) ?rs =
     Inr \<lparr>rs_start_epoch = 3, rs_server = 2, rs_val_statistics = (), rs_train_statistics = (),
        rs_model = [''fc.weight'']\<rparr>"
    by (simp add: resume_def load_names_def bindE_def)
  from resume_checks_only_state_dict[of load_names True None ?rs]
  have n: "resume load_names True None ?rs = Inr ?rs" by simp
  from e l g n show ?thesis by blast
qed

section \<open>The loss handed to the training-loss meter\<close>



section \<open>A run on the recording server\<close>

text \<open>
  A run of \<^verbatim>\<open>train\<close> on \<open>recording e\<close> goes through the same states as the run on \<open>e\<close>,
  and the calls its server has received are, in order and with their arguments, the
  pulls and pushes of the trace. So what is proved of the pulls and pushes of the
  trace of a run is proved of the calls \<^verbatim>\<open>server.pull\<close> and \<^verbatim>\<open>server.push\<close> receive.
\<close>

lemma server_calls_append: "server_calls (xs @ ys) = server_calls xs @ server_calls ys"
  by (induction xs rule: server_calls.induct) auto

lemma recording_simps:
  "cuda_is_available (recording e) = cuda_is_available e"
  "cuda (recording e) = cuda e"
  "zero_grad (recording e) = zero_grad e"
  "forward (recording e) = forward e"
  "criterion (recording e) = criterion e"
  "backward (recording e) = backward e"
  "clip_grad_norm (recording e) = clip_grad_norm e"
  "accuracy (recording e) = accuracy e"
  "size0 (recording e) = size0 e"
  "pull (recording e) (sv, calls) h cw =
     ((fst (pull e sv h cw), calls @ [PullCall cw]), snd (pull e sv h cw))"
  "push (recording e) (sv, calls) h cw g ep tau it =
     ((fst (push e sv h cw g ep tau it),
       calls @ [PushCall cw g ep tau it (snd (snd (push e sv h cw g ep tau it)))]),
      snd (push e sv h cw g ep tau it))"
  by (simp_all add: recording_def split_beta)

lemma with_calls_simps:
  "st_heap (with_calls st calls) = st_heap st"
  "st_model (with_calls st calls) = st_model st"
  "st_server (with_calls st calls) = (st_server st, calls)"
  "train_loss (with_calls st calls) = train_loss st"
  "train_error (with_calls st calls) = train_error st"
  "st_statistics (with_calls st calls) = st_statistics st"
  "st_bar (with_calls st calls) = st_bar st"
  "trace (with_calls st calls) = trace st"
  by (simp_all add: with_calls_def)

lemma set_model_weights_recording:
  "set_model_weights (recording e) h weights model = set_model_weights e h weights model"
  by (simp add: set_model_weights_def recording_simps)

lemma pull_phase_recorded:
  assumes "pull_phase e can cw i st = Inr st'"
  shows "pull_phase (recording e) can cw i (with_calls st (server_calls (trace st))) =
         Inr (with_calls st' (server_calls (trace st')))"
  using assms
  by (auto simp: pull_phase_def bindE_Inr split_beta recording_simps with_calls_simps
        set_model_weights_recording with_calls_def server_calls_append split: if_splits)

lemma grad_phase_recorded:
  assumes "grad_phase e gc ban i b st = Inr st'"
  shows "grad_phase (recording e) gc ban i b (with_calls st (server_calls (trace st))) =
         Inr (with_calls st' (server_calls (trace st')))"
  using assms
  by (auto simp: grad_phase_def bindE_Inr Let_def split_beta recording_simps with_calls_simps
        with_calls_def server_calls_append split: if_splits)

lemma push_phase_recorded:
  assumes "push_phase e epoch w ban can cw i st = Inr st'"
  shows "push_phase (recording e) epoch w ban can cw i (with_calls st (server_calls (trace st))) =
         Inr (with_calls st' (server_calls (trace st')))"
  using assms
  by (auto simp: push_phase_def bindE_Inr split_beta recording_simps with_calls_simps
        with_calls_def server_calls_append split: if_splits)

lemma bar_phase_recorded:
  "bar_phase i (with_calls st (server_calls (trace st))) =
   with_calls (bar_phase i st) (server_calls (trace (bar_phase i st)))"
  by (auto simp: bar_phase_def with_calls_def server_calls_append split: option.splits)

lemma train_step_recorded:
  assumes "train_step e epoch w gc ban i b st = Inr st'"
  shows "train_step (recording e) epoch w gc ban i b (with_calls st (server_calls (trace st))) =
         Inr (with_calls st' (server_calls (trace st')))"
proof -
  from assms obtain can cw st1 st2 st3 where
    can: "current_accumulate_num (int i) ban = Inr can" and
    cw: "current_worker (int i) ban w = Inr cw" and
    p1: "pull_phase e can cw i st = Inr st1" and
    p2: "grad_phase e gc ban i b st1 = Inr st2" and
    p3: "push_phase e epoch w ban can cw i st2 = Inr st3" and
    st': "st' = bar_phase i st3"
    unfolding train_step_def bindE_Inr by auto
  show ?thesis
    unfolding train_step_def
    by (simp add: can cw bindE_def pull_phase_recorded[OF p1] grad_phase_recorded[OF p2]
          push_phase_recorded[OF p3] bar_phase_recorded st')
qed

lemma train_loop_recorded:
  "train_loop e epoch w gc ban ibs st = Inr st' \<Longrightarrow>
   train_loop (recording e) epoch w gc ban ibs (with_calls st (server_calls (trace st))) =
   Inr (with_calls st' (server_calls (trace st')))"
proof (induction ibs arbitrary: st)
  case Nil
  then show ?case by simp
next
  case (Cons ib ibs)
  obtain i b where ib: "ib = (i, b)" by (cases ib)
  from Cons.prems obtain st1 where
    s1: "train_step e epoch w gc ban i b st = Inr st1" and
    rest: "train_loop e epoch w gc ban ibs st1 = Inr st'"
    by (auto simp: ib bindE_Inr)
  show ?case
    by (simp add: ib bindE_def train_step_recorded[OF s1] Cons.IH[OF rest])
qed

lemma train_recorded:
  assumes "train e loader h model server epoch w gc ban bar statistics = Inr (res, st)"
  shows "train (recording e) loader h model (server, []) epoch w gc ban bar statistics =
         Inr (res, with_calls st (server_calls (trace st)))"
proof -
  let ?s0 = "\<lparr>st_heap = h, st_model = model, st_server = server,
               train_loss = reset, train_error = reset,
               st_statistics = statistics, st_bar = bar, trace = []\<rparr>"
  from assms have l: "train_loop e epoch w gc ban (enumerate 0 loader) ?s0 = Inr st" and
    r: "res = (avg (train_loss st), avg (train_error st))"
    by (auto simp: train_def bindE_Inr)
  have s0: "with_calls ?s0 (server_calls (trace ?s0)) =
        \<lparr>st_heap = h, st_model = model, st_server = (server, []),
               train_loss = reset, train_error = reset,
               st_statistics = statistics, st_bar = bar, trace = []\<rparr>"
    by (simp add: with_calls_def)
  from train_loop_recorded[OF l] show ?thesis
    unfolding s0 by (simp add: train_def bindE_def r with_calls_simps)
qed

section \<open>The calls of a run, group by group\<close>

lemma server_calls_concat: "server_calls (concat xss) = concat (map server_calls xss)"
  by (induction xss) (auto simp: server_calls_append)

lemma returned_step_norms_append:
  "returned_step_norms (xs @ ys) = returned_step_norms xs @ returned_step_norms ys"
  by (induction xs rule: returned_step_norms.induct) auto

lemma returned_step_norms_concat:
  "returned_step_norms (concat xss) = concat (map returned_step_norms xss)"
  by (induction xss) (auto simp: returned_step_norms_append)

lemma saved_step_norms_concat:
  "saved_step_norms (concat xss) = concat (map saved_step_norms xss)"
  by (induction xss) (auto simp: saved_step_norms_append)

lemma calls_of_step:
  assumes n: "0 < n"
  shows "server_calls (map (Pair i) (step_events epoch w gc (int n) hb i g r)) =
         (if i mod n = 0 then [PullCall (int (i div n) mod w)] else []) @
         (if i mod n = n - 1
          then [PushCall (int (i div n) mod w) g epoch
                  (of_int (int (i div n) - int (i div n) mod w) / of_int w + 1) (int (i div n)) r]
          else [])"
proof -
  have d: "int i div int n = int (i div n)" by (simp add: zdiv_int)
  have m: "int i mod int n = int (i mod n)" by (simp add: zmod_int)
  have l: "(int (i mod n) = int n - 1) = (i mod n = n - 1)" using n by auto
  show ?thesis
    by (simp add: step_events_def Let_def d m l)
qed

lemma saved_of_step:
  "saved_step_norms (map (Pair i) (step_events epoch w gc ban hb i g r)) =
   returned_step_norms (server_calls (map (Pair i) (step_events epoch w gc ban hb i g r)))"
  by (simp add: step_events_def Let_def)

lemma concat_groups:
  "concat (map F [0..<G * n]) = concat (map (\<lambda>g. concat (map F [g * n..<g * n + n])) [0..<G])"
proof (induction G)
  case 0
  then show ?case by simp
next
  case (Suc G)
  have "[0..<Suc G * n] = [0..<G * n] @ [G * n..<G * n + n]"
    using upt_add_eq_append[of 0 "G * n" n] by (simp add: add.commute)
  then show ?case using Suc by simp
qed

lemma calls_of_full_group:
  assumes n: "0 < n"
  shows "concat (map (\<lambda>i.
           (if i mod n = 0 then [PullCall (int (i div n) mod w)] else []) @
           (if i mod n = n - 1
            then [PushCall (int (i div n) mod w) (gs i) epoch
                    (of_int (int (i div n) - int (i div n) mod w) / of_int w + 1)
                    (int (i div n)) (rs i)]
            else [])) [g * n..<g * n + n]) =
         [PullCall (int g mod w),
          PushCall (int g mod w) (gs (g * n + n - 1)) epoch
            (of_int (int g - int g mod w) / of_int w + 1) (int g) (rs (g * n + n - 1))]"
proof -
  let ?a = "g * n"
  let ?P = "[PullCall (int g mod w)]"
  let ?Q = "\<lambda>i. [PushCall (int g mod w) (gs i) epoch
            (of_int (int g - int g mod w) / of_int w + 1) (int g) (rs i)]"
  have inside: "map (\<lambda>i.
           (if i mod n = 0 then [PullCall (int (i div n) mod w)] else []) @
           (if i mod n = n - 1
            then [PushCall (int (i div n) mod w) (gs i) epoch
                    (of_int (int (i div n) - int (i div n) mod w) / of_int w + 1)
                    (int (i div n)) (rs i)]
            else [])) [?a..<?a + n] =
        map (\<lambda>i. (if i = ?a then ?P else []) @ [] @ (if i = ?a + n - 1 then ?Q i else []))
          [?a..<?a + n]"
  proof (rule map_cong)
    fix i assume "i \<in> set [?a..<?a + n]"
    then have lo: "g * n \<le> i" and hi: "i < g * n + n" by simp_all
    then have d: "i div n = g" using n
      by (metis add.commute div_nat_eqI mult.commute mult_Suc_right)
    have i_eq: "i = g * n + i mod n" using d by (metis div_mult_mod_eq)
    have first: "(i mod n = 0) = (i = g * n)" using i_eq by auto
    have last: "(i mod n = n - 1) = (i = g * n + n - 1)" using i_eq n by auto
    show "(if i mod n = 0 then [PullCall (int (i div n) mod w)] else []) @
           (if i mod n = n - 1
            then [PushCall (int (i div n) mod w) (gs i) epoch
                    (of_int (int (i div n) - int (i div n) mod w) / of_int w + 1)
                    (int (i div n)) (rs i)]
            else []) =
          (if i = ?a then ?P else []) @ [] @ (if i = ?a + n - 1 then ?Q i else [])"
      unfolding d first last by simp
  qed simp
  have empty: "concat (map (\<lambda>i. []) [?a..<?a + n]) = ([] :: server_call list)"
    by (rule concat_all_empty) simp
  show ?thesis
    unfolding inside concat_group[OF n] empty by simp
qed

lemma calls_of_partial_group:
  assumes n: "0 < n" and m: "m < n"
  shows "concat (map (\<lambda>i.
           (if i mod n = 0 then [PullCall (int (i div n) mod w)] else []) @
           (if i mod n = n - 1
            then [PushCall (int (i div n) mod w) (gs i) epoch
                    (of_int (int (i div n) - int (i div n) mod w) / of_int w + 1)
                    (int (i div n)) (rs i)]
            else [])) [g * n..<g * n + m]) =
         (if m = 0 then [] else [PullCall (int g mod w)])"
proof (cases "m = 0")
  case True
  then show ?thesis by simp
next
  case False
  then have mpos: "0 < m" by simp
  let ?a = "g * n"
  let ?P = "[PullCall (int g mod w)]"
  have inside: "map (\<lambda>i.
           (if i mod n = 0 then [PullCall (int (i div n) mod w)] else []) @
           (if i mod n = n - 1
            then [PushCall (int (i div n) mod w) (gs i) epoch
                    (of_int (int (i div n) - int (i div n) mod w) / of_int w + 1)
                    (int (i div n)) (rs i)]
            else [])) [?a..<?a + m] =
        map (\<lambda>i. (if i = ?a then ?P else []) @ []) [?a..<?a + m]"
  proof (rule map_cong)
    fix i assume "i \<in> set [?a..<?a + m]"
    then have lo: "g * n \<le> i" and hi: "i < g * n + m" by simp_all
    with m have hi': "i < g * n + n" by simp
    from lo hi' have d: "i div n = g" using n
      by (metis add.commute div_nat_eqI mult.commute mult_Suc_right)
    have i_eq: "i = g * n + i mod n" using d by (metis div_mult_mod_eq)
    have first: "(i mod n = 0) = (i = g * n)" using i_eq by auto
    have "i mod n < m" using i_eq hi by linarith
    then have last: "i mod n \<noteq> n - 1" using m by linarith
    show "(if i mod n = 0 then [PullCall (int (i div n) mod w)] else []) @
           (if i mod n = n - 1
            then [PushCall (int (i div n) mod w) (gs i) epoch
                    (of_int (int (i div n) - int (i div n) mod w) / of_int w + 1)
                    (int (i div n)) (rs i)]
            else []) =
          (if i = ?a then ?P else []) @ []"
      unfolding d first using last by simp
  qed simp
  have empty: "concat (map (\<lambda>i. []) [?a..<?a + m]) = ([] :: server_call list)"
    by (rule concat_all_empty) simp
  show ?thesis
    unfolding inside concat_first[OF mpos] empty using False by simp
qed

lemma server_calls_of_run:
  assumes run: "train e loader h model server epoch w gc ban bar statistics = Inr (res, st)"
      and ban: "0 < ban"
  shows "\<exists>gs rs.
           server_calls (trace st) =
             concat (map (\<lambda>g. [PullCall (int g mod w),
                                PushCall (int g mod w) (gs g) epoch
                                  (of_int (int g - int g mod w) / of_int w + 1) (int g) (rs g)])
                       [0..<length loader div nat ban]) @
             (if length loader mod nat ban = 0 then []
              else [PullCall (int (length loader div nat ban) mod w)]) \<and>
           st_statistics st = statistics @ map rs [0..<length loader div nat ban]"
proof -
  define n where "n = nat ban"
  from ban have n: "0 < n" and ban_n: "ban = int n" by (simp_all add: n_def)
  define L where "L = length loader"
  define G where "G = L div n"
  define m where "m = L mod n"
  have L: "L = G * n + m" by (simp add: G_def m_def)
  have m: "m < n" using n by (simp add: m_def)
  from train_trace[OF run] obtain gs rs where
    tr: "trace st = concat (map (\<lambda>i. map (Pair i)
           (step_events epoch w gc (int n) (bar \<noteq> None) i (gs i) (rs i))) [0..<L])"
    unfolding ban_n L_def by blast
  let ?F = "\<lambda>i.
           (if i mod n = 0 then [PullCall (int (i div n) mod w)] else []) @
           (if i mod n = n - 1
            then [PushCall (int (i div n) mod w) (gs i) epoch
                    (of_int (int (i div n) - int (i div n) mod w) / of_int w + 1)
                    (int (i div n)) (rs i)]
            else [])"
  define gs' where "gs' = (\<lambda>g. gs (g * n + n - 1))"
  define rs' where "rs' = (\<lambda>g. rs (g * n + n - 1))"
  let ?grp = "\<lambda>g. [PullCall (int g mod w),
                    PushCall (int g mod w) (gs' g) epoch
                      (of_int (int g - int g mod w) / of_int w + 1) (int g) (rs' g)]"
  have calls: "server_calls (trace st) = concat (map ?F [0..<L])"
    unfolding tr server_calls_concat map_map comp_def calls_of_step[OF n] ..
  have split: "[0..<L] = [0..<G * n] @ [G * n..<G * n + m]"
    unfolding L using upt_add_eq_append[of 0 "G * n" m] by simp
  have full: "concat (map ?F [0..<G * n]) = concat (map ?grp [0..<G])"
    unfolding concat_groups calls_of_full_group[OF n] gs'_def rs'_def ..
  have part: "concat (map ?F [G * n..<G * n + m]) =
              (if m = 0 then [] else [PullCall (int G mod w)])"
    by (rule calls_of_partial_group[OF n m])
  have log: "server_calls (trace st) =
        concat (map ?grp [0..<G]) @ (if m = 0 then [] else [PullCall (int G mod w)])"
    unfolding calls split map_append concat_append full part ..
  have saved: "saved_step_norms (trace st) = returned_step_norms (server_calls (trace st))"
    unfolding tr saved_step_norms_concat server_calls_concat returned_step_norms_concat
      map_map comp_def saved_of_step ..
  have norms: "returned_step_norms (concat (map ?grp [0..<G])) = map rs' [0..<G]"
    by (induction G) (simp_all add: returned_step_norms_append)
  have "returned_step_norms (server_calls (trace st)) = map rs' [0..<G]"
    unfolding log returned_step_norms_append norms by simp
  with saved train_saved[OF run] have
    stats: "st_statistics st = statistics @ map rs' [0..<G]" by simp
  from log stats show ?thesis
    unfolding G_def m_def L_def n_def by blast
qed

lemma server_calls_push_mem:
  "PushCall cw g ep tau it r \<in> set (server_calls tr) \<longleftrightarrow> (\<exists>i. (i, Push cw g ep tau it r) \<in> set tr)"
  by (induction tr rule: server_calls.induct) auto

lemma server_calls_pull_mem:
  "PullCall cw \<in> set (server_calls tr) \<longleftrightarrow> (\<exists>i. (i, Pull cw) \<in> set tr)"
  by (induction tr rule: server_calls.induct) auto

lemma push_in_trace:
  assumes run: "train e loader h model server epoch w gc ban bar statistics = Inr (res, st)"
      and i: "i < length loader" and last: "int i mod ban = ban - 1"
  shows "\<exists>g r. (i, Push ((int i div ban) mod w) g epoch
                   (of_int (int i div ban - (int i div ban) mod w) / of_int w + 1)
                   (int i div ban) r) \<in> set (trace st)"
proof -
  from train_trace[OF run] obtain gs rs where
    tr: "trace st = concat (map (\<lambda>i. map (Pair i)
           (step_events epoch w gc ban (bar \<noteq> None) i (gs i) (rs i))) [0..<length loader])"
    by blast
  have "Push ((int i div ban) mod w) (gs i) epoch
          (of_int (int i div ban - (int i div ban) mod w) / of_int w + 1) (int i div ban) (rs i)
        \<in> set (step_events epoch w gc ban (bar \<noteq> None) i (gs i) (rs i))"
    using last by (simp add: step_events_def Let_def)
  then have "(i, Push ((int i div ban) mod w) (gs i) epoch
          (of_int (int i div ban - (int i div ban) mod w) / of_int w + 1) (int i div ban) (rs i))
        \<in> set (trace st)"
    unfolding tr using i by auto
  then show ?thesis by blast
qed

lemma pull_phase_calls:
  assumes "pull_phase e can cw i s = Inr s1"
  shows "(can = 0 \<longrightarrow>
            (\<exists>h0 weights h1 m1.
               pull e (st_server s) (st_heap s) cw = (st_server s1, h0, weights) \<and>
               set_model_weights e h0 weights (st_model s) = Inr (h1, m1) \<and>
               zero_grad e h1 m1 = (st_heap s1, st_model s1) \<and>
               st_statistics s1 = st_statistics s)) \<and>
         (can \<noteq> 0 \<longrightarrow> s1 = s)"
  using assms
  by (auto simp: pull_phase_def bindE_Inr split_beta prod_eq_iff split: if_splits)

lemma push_phase_calls:
  assumes "push_phase e epoch w ban can cw i s2 = Inr s3"
  shows "(can = ban - 1 \<longrightarrow>
            (\<exists>h1 gradients tau step_norm.
               get_model_gradients (st_heap s2) (st_model s2) = Inr (h1, gradients) \<and>
               staleness (int i) ban cw w = Inr tau \<and>
               tau = (of_int (int i div ban) - of_int cw) / of_int w + 1 \<and>
               push e (st_server s2) h1 cw gradients epoch tau (int i div ban) =
                 (st_server s3, st_heap s3, step_norm) \<and>
               st_statistics s3 = st_statistics s2 @ [step_norm] \<and>
               st_model s3 = st_model s2)) \<and>
         (can \<noteq> ban - 1 \<longrightarrow> s3 = s2)"
  using assms
  by (auto simp: push_phase_def bindE_Inr staleness_def py_floordiv_def py_truediv_def
        split_beta prod_eq_iff split: if_splits)

lemma grad_phase_server:
  assumes "grad_phase e gc ban i b s1 = Inr s2"
  shows "st_server s2 = st_server s1 \<and> st_statistics s2 = st_statistics s1"
  using assms by (auto simp: grad_phase_def bindE_Inr Let_def split_beta)

lemma train_step_phases:
  assumes "train_step e epoch w gc ban i b s = Inr s'"
  shows "\<exists>s1 s2 s3.
           pull_phase e (int i mod ban) ((int i div ban) mod w) i s = Inr s1 \<and>
           grad_phase e gc ban i b s1 = Inr s2 \<and>
           push_phase e epoch w ban (int i mod ban) ((int i div ban) mod w) i s2 = Inr s3 \<and>
           s' = bar_phase i s3"
  using assms
  by (auto simp: train_step_def bindE_Inr current_accumulate_num_def current_worker_def
        py_mod_def py_floordiv_def split: if_splits)

lemma workers_of_run:
  assumes run: "train e loader h model server epoch w gc ban bar statistics = Inr (res, st)"
      and ban: "0 < ban"
  shows "map worker_of (server_calls (trace st)) =
           concat (map (\<lambda>g. [int g mod w, int g mod w]) [0..<length loader div nat ban]) @
           (if length loader mod nat ban = 0 then []
            else [int (length loader div nat ban) mod w])"
proof -
  from server_calls_of_run[OF run ban] obtain gs rs where
    c: "server_calls (trace st) =
          concat (map (\<lambda>g. [PullCall (int g mod w),
                             PushCall (int g mod w) (gs g) epoch
                               (of_int (int g - int g mod w) / of_int w + 1) (int g) (rs g)])
                    [0..<length loader div nat ban]) @
          (if length loader mod nat ban = 0 then []
           else [PullCall (int (length loader div nat ban) mod w)])"
    by blast
  show ?thesis unfolding c by (simp add: map_concat comp_def)
qed

lemma worker_of_event:
  assumes run: "train e loader h model server epoch w gc ban bar statistics = Inr (res, st)"
      and m: "(i, ev) \<in> set (trace st)"
      and ev: "ev = Pull cw \<or> ev = Push cw gradients ep tau iteration step_norm"
  shows "i < length loader \<and>
         current_worker (int i) ban w = Inr cw \<and>
         cw = (int i div ban) mod w \<and>
         current_worker 0 ban w = Inr 0 \<and>
         current_worker (int i + ban) ban w = Inr ((cw + 1) mod w) \<and>
         (0 < w \<longrightarrow> 0 \<le> cw \<and> cw < w)"
proof -
  from trace_mem[OF run m] obtain g r where
    i: "i < length loader" and
    e: "ev \<in> set (step_events epoch w gc ban (bar \<noteq> None) i g r)"
    by blast
  from i have "loader \<noteq> []" by auto
  from train_nonzero[OF run this] have
    ban: "ban \<noteq> 0" and w: "w \<noteq> 0" by simp_all
  have cw: "cw = (int i div ban) mod w"
  proof (cases "ev = Pull cw")
    case True
    with e pull_needs_group show ?thesis by blast
  next
    case False
    with ev have "ev = Push cw gradients ep tau iteration step_norm" by simp
    with e push_needs_group show ?thesis by blast
  qed
  have "current_worker (int i) ban w = Inr cw"
    using ban w cw by (simp add: current_worker_def py_floordiv_def py_mod_def bindE_def)
  moreover have "current_worker 0 ban w = Inr 0"
    using ban w by (simp add: current_worker_def py_floordiv_def py_mod_def bindE_def)
  moreover have "current_worker (int i + ban) ban w = Inr ((cw + 1) mod w)"
    using ban w cw
    by (simp add: current_worker_def py_floordiv_def py_mod_def bindE_def mod_add_left_eq)
  moreover have "0 < w \<longrightarrow> 0 \<le> cw \<and> cw < w"
    using cw by simp
  ultimately show ?thesis using cw i by blast
qed

lemma train_step_calls:
  assumes "train_step e epoch w gc ban i b s = Inr s'"
  obtains s1 s2 s3 where
    "pull_phase e (int i mod ban) ((int i div ban) mod w) i s = Inr s1"
    "grad_phase e gc ban i b s1 = Inr s2"
    "push_phase e epoch w ban (int i mod ban) ((int i div ban) mod w) i s2 = Inr s3"
    "s' = bar_phase i s3"
    "int i mod ban = 0 \<longrightarrow>
       (\<exists>h0 weights h1 m1.
          pull e (st_server s) (st_heap s) ((int i div ban) mod w) =
            (st_server s1, h0, weights) \<and>
          set_model_weights e h0 weights (st_model s) = Inr (h1, m1) \<and>
          zero_grad e h1 m1 = (st_heap s1, st_model s1))"
    "int i mod ban \<noteq> 0 \<longrightarrow> s1 = s"
    "st_server s2 = st_server s1"
    "st_statistics s2 = st_statistics s"
    "int i mod ban = ban - 1 \<longrightarrow>
       (\<exists>h1 gradients tau step_norm.
          get_model_gradients (st_heap s2) (st_model s2) = Inr (h1, gradients) \<and>
          staleness (int i) ban ((int i div ban) mod w) w = Inr tau \<and>
          push e (st_server s2) h1 ((int i div ban) mod w) gradients epoch tau
            (int i div ban) = (st_server s3, st_heap s3, step_norm) \<and>
          st_statistics s3 = st_statistics s2 @ [step_norm])"
    "int i mod ban \<noteq> ban - 1 \<longrightarrow> s3 = s2"
proof -
  from train_step_phases[OF assms] obtain s1 s2 s3 where
    p1: "pull_phase e (int i mod ban) ((int i div ban) mod w) i s = Inr s1" and
    p2: "grad_phase e gc ban i b s1 = Inr s2" and
    p3: "push_phase e epoch w ban (int i mod ban) ((int i div ban) mod w) i s2 = Inr s3" and
    p4: "s' = bar_phase i s3"
    by blast
  note a = pull_phase_calls[OF p1]
  note g = grad_phase_server[OF p2]
  note c = push_phase_calls[OF p3]
  have st: "st_statistics s1 = st_statistics s"
    using a by (cases "int i mod ban = 0") auto
  have a1: "int i mod ban = 0 \<longrightarrow>
              (\<exists>h0 weights h1 m1.
                 pull e (st_server s) (st_heap s) ((int i div ban) mod w) =
                   (st_server s1, h0, weights) \<and>
                 set_model_weights e h0 weights (st_model s) = Inr (h1, m1) \<and>
                 zero_grad e h1 m1 = (st_heap s1, st_model s1))"
    using a by auto
  have a2: "int i mod ban \<noteq> 0 \<longrightarrow> s1 = s" using a by blast
  have c1: "int i mod ban = ban - 1 \<longrightarrow>
              (\<exists>h1 gradients tau step_norm.
                 get_model_gradients (st_heap s2) (st_model s2) = Inr (h1, gradients) \<and>
                 staleness (int i) ban ((int i div ban) mod w) w = Inr tau \<and>
                 push e (st_server s2) h1 ((int i div ban) mod w) gradients epoch tau
                   (int i div ban) = (st_server s3, st_heap s3, step_norm) \<and>
                 st_statistics s3 = st_statistics s2 @ [step_norm])"
    using c by auto
  have c2: "int i mod ban \<noteq> ban - 1 \<longrightarrow> s3 = s2" using c by blast
  have g1: "st_server s2 = st_server s1" using g by simp
  have g2: "st_statistics s2 = st_statistics s" using g st by simp
  show thesis by (rule that[OF p1 p2 p3 p4 a1 a2 g1 g2 c1 c2])
qed

lemma demo_push_phase:
  "push_phase demo_env 7 2 2 1 0 1 demo_state =
   Inr \<lparr>st_heap = [[1], [0], [0]],
        st_model =
          [\<lparr>mod_name = ''fc'', mod_kind = Linear,
              mod_params = [(''weight'', \<lparr>data = 0, grad = Some 1\<rparr>)]\<rparr>],
        st_server = 1, train_loss = \<lparr>avg = 0, sum_m = 0, count = 0\<rparr>,
        train_error = \<lparr>avg = 0, sum_m = 0, count = 0\<rparr>, st_statistics = [1],
        st_bar = None,
        trace =
          [(1, Push 0 [(''fc.weight'', 2)] 7 1 0 1), (1, SaveStepNorm 1)]\<rparr>"
  by code_simp

lemma demo_step:
  "train_step demo_env 7 2 5 1 3 2 demo_state =
   Inr \<lparr>st_heap = [[1], [20001 / 10000], [1], [20001 / 10000]],
        st_model =
          [\<lparr>mod_name = ''fc'', mod_kind = Linear,
              mod_params = [(''weight'', \<lparr>data = 2, grad = Some 1\<rparr>)]\<rparr>],
        st_server = 1, train_loss = \<lparr>avg = 2, sum_m = 2, count = 1\<rparr>,
        train_error = \<lparr>avg = 50, sum_m = 50, count = 1\<rparr>,
        st_statistics = [2], st_bar = None,
        trace =
          [(3, Pull 1), (3, ZeroGrad), (3, Forward), (3, Backward),
           (3, WdPreStep), (3, ClipGradNorm 5),
           (3, Push 1 [(''fc.weight'', 3)] 7 2 3 2), (3, SaveStepNorm 2)]\<rparr>"
  by code_simp

lemma demo_step_calls:
  "pull demo_env 0 demo_heap 1 = (0, [[1], [0], [1]], [(''fc.weight'', 2)]) \<and>
   get_model_gradients [[1], [20001 / 10000], [1]]
     [\<lparr>mod_name = ''fc'', mod_kind = Linear,
        mod_params = [(''weight'', \<lparr>data = 2, grad = Some 1\<rparr>)]\<rparr>] =
     Inr ([[1], [20001 / 10000], [1], [20001 / 10000]], [(''fc.weight'', 3)]) \<and>
   staleness 3 1 1 2 = Inr 2 \<and>
   push demo_env 0 [[1], [20001 / 10000], [1], [20001 / 10000]] 1 [(''fc.weight'', 3)] 7 2 3 =
     (1, [[1], [20001 / 10000], [1], [20001 / 10000]], 2)"
  by code_simp

section \<open>The staleness factor handed to push\<close>

text \<open>
  Claim C1. Take a run of \<^verbatim>\<open>train\<close> that returns, with \<^verbatim>\<open>workers_number\<close> positive.
  The server that records its calls receives exactly the pulls and pushes of the
  trace. Every push it receives was made at a loader index \<open>i\<close> that is the last of its
  accumulation group, with \<^verbatim>\<open>iteration = i // batch_accumulate_num\<close>, for the round-robin
  worker of \<open>i\<close>, and the \<^verbatim>\<open>tau\<close> it was handed is the value of
  \<^verbatim>\<open>(i // batch_accumulate_num - current_worker) / workers_number + 1\<close>, which is
  \<^verbatim>\<open>iteration // workers_number + 1\<close> and at least 1. The last batch of every group makes
  such a push. In one pass through lines 194 to 198 (\<open>push_phase\<close>), the \<^verbatim>\<open>tau\<close> that
  \<^verbatim>\<open>server.push\<close> is called with is the value of that expression, and the server and
  heap that the pass leaves are the ones this call returned.
\<close>

theorem staleness_at_least_one:
  assumes "train e loader h model server epoch workers_number grad_clip batch_accumulate_num
             bar statistics = Inr (res, st)"
      and "0 < workers_number"
  shows "train (recording e) loader h model (server, []) epoch workers_number grad_clip
           batch_accumulate_num bar statistics =
           Inr (res, with_calls st (server_calls (trace st))) \<and>
         (\<forall>cw gradients ep tau iteration step_norm.
            PushCall cw gradients ep tau iteration step_norm \<in> set (server_calls (trace st)) \<longrightarrow>
              (\<exists>i<length loader.
                 int i mod batch_accumulate_num = batch_accumulate_num - 1 \<and>
                 iteration = int i div batch_accumulate_num \<and>
                 current_worker (int i) batch_accumulate_num workers_number = Inr cw \<and>
                 staleness (int i) batch_accumulate_num cw workers_number = Inr tau) \<and>
              tau = (of_int iteration - of_int cw) / of_int workers_number + 1 \<and>
              tau = of_int (iteration div workers_number) + 1 \<and>
              1 \<le> tau) \<and>
         (\<forall>i<length loader.
            int i mod batch_accumulate_num = batch_accumulate_num - 1 \<longrightarrow>
              (\<exists>cw gradients tau step_norm.
                 PushCall cw gradients epoch tau (int i div batch_accumulate_num) step_norm
                   \<in> set (server_calls (trace st)))) \<and>
         (push_phase e epoch workers_number batch_accumulate_num can worker j s = Inr s' \<longrightarrow>
          can = batch_accumulate_num - 1 \<longrightarrow>
            (\<exists>h1 gradients tau step_norm.
               staleness (int j) batch_accumulate_num worker workers_number = Inr tau \<and>
               tau = (of_int (int j div batch_accumulate_num) - of_int worker) /
                       of_int workers_number + 1 \<and>
               push e (st_server s) h1 worker gradients epoch tau
                 (int j div batch_accumulate_num) = (st_server s', st_heap s', step_norm)))"
proof (intro conjI allI impI)
  show "train (recording e) loader h model (server, []) epoch workers_number grad_clip
           batch_accumulate_num bar statistics =
           Inr (res, with_calls st (server_calls (trace st)))"
    by (rule train_recorded[OF assms(1)])
next
  fix cw gradients ep tau iteration step_norm
  assume "PushCall cw gradients ep tau iteration step_norm \<in> set (server_calls (trace st))"
  then obtain i where m: "(i, Push cw gradients ep tau iteration step_norm) \<in> set (trace st)"
    unfolding server_calls_push_mem by blast
  from trace_mem[OF assms(1) m] obtain g r where
    i: "i < length loader" and
    "Push cw gradients ep tau iteration step_norm \<in>
       set (step_events epoch workers_number grad_clip batch_accumulate_num (bar \<noteq> None) i g r)"
    by blast
  from push_needs_group[OF this(2)] have
    last: "int i mod batch_accumulate_num = batch_accumulate_num - 1" and
    cw: "cw = (int i div batch_accumulate_num) mod workers_number" and
    it: "iteration = int i div batch_accumulate_num" and
    tau: "tau = of_int (int i div batch_accumulate_num -
                 (int i div batch_accumulate_num) mod workers_number) / of_int workers_number + 1"
    by simp_all
  from last_of_group_pos[OF last] have ban: "0 < batch_accumulate_num" .
  then have q: "0 \<le> iteration" unfolding it by (simp add: pos_imp_zdiv_nonneg_iff)
  have w: "workers_number \<noteq> 0" using assms(2) by simp
  have t1: "tau = of_int (iteration - iteration mod workers_number) / of_int workers_number + 1"
    using tau it by simp
  have c: "current_worker (int i) batch_accumulate_num workers_number = Inr cw"
    using ban w cw by (simp add: current_worker_def py_floordiv_def py_mod_def bindE_def)
  have s: "staleness (int i) batch_accumulate_num cw workers_number = Inr tau"
    using ban w cw tau
    by (simp add: staleness_def py_floordiv_def py_truediv_def bindE_def)
  show "\<exists>i<length loader.
                 int i mod batch_accumulate_num = batch_accumulate_num - 1 \<and>
                 iteration = int i div batch_accumulate_num \<and>
                 current_worker (int i) batch_accumulate_num workers_number = Inr cw \<and>
                 staleness (int i) batch_accumulate_num cw workers_number = Inr tau"
    using i last it c s by blast
  show "tau = (of_int iteration - of_int cw) / of_int workers_number + 1"
    using tau cw it by simp
  show "tau = of_int (iteration div workers_number) + 1"
    using staleness_value(1)[OF assms(2) q] t1 by simp
  show "1 \<le> tau"
    using staleness_value(2)[OF assms(2) q] t1 by simp
next
  fix i
  assume i: "i < length loader" and
    last: "int i mod batch_accumulate_num = batch_accumulate_num - 1"
  from push_in_trace[OF assms(1) i last] obtain g r where
    "(i, Push ((int i div batch_accumulate_num) mod workers_number) g epoch
          (of_int (int i div batch_accumulate_num -
                   (int i div batch_accumulate_num) mod workers_number) /
             of_int workers_number + 1)
          (int i div batch_accumulate_num) r) \<in> set (trace st)" by blast
  then have "PushCall ((int i div batch_accumulate_num) mod workers_number) g epoch
          (of_int (int i div batch_accumulate_num -
                   (int i div batch_accumulate_num) mod workers_number) /
             of_int workers_number + 1)
          (int i div batch_accumulate_num) r \<in> set (server_calls (trace st))"
    unfolding server_calls_push_mem by blast
  then show "\<exists>cw gradients tau step_norm.
                 PushCall cw gradients epoch tau (int i div batch_accumulate_num) step_norm
                   \<in> set (server_calls (trace st))" by blast
next
  assume p: "push_phase e epoch workers_number batch_accumulate_num can worker j s = Inr s'"
     and c: "can = batch_accumulate_num - 1"
  from push_phase_calls[OF p] c
  show "\<exists>h1 gradients tau step_norm.
               staleness (int j) batch_accumulate_num worker workers_number = Inr tau \<and>
               tau = (of_int (int j div batch_accumulate_num) - of_int worker) /
                       of_int workers_number + 1 \<and>
               push e (st_server s) h1 worker gradients epoch tau
                 (int j div batch_accumulate_num) = (st_server s', st_heap s', step_norm)"
    by blast
qed

theorem staleness_at_least_one_witness:
  "(0::int) < 2 \<and>
   st_server (snd (projr (train (recording demo_env) [2, 2, 2, 2, 2, 2] demo_heap demo_model
                            (0, []) 7 2 5 2 None []))) =
     (3, [PullCall 0, PushCall 0 [(''fc.weight'', 3)] 7 1 0 1,
          PullCall 1, PushCall 1 [(''fc.weight'', 5)] 7 1 1 1,
          PullCall 0, PushCall 0 [(''fc.weight'', 7)] 7 2 2 2]) \<and>
   current_worker 5 2 2 = Inr 0 \<and> staleness 5 2 0 2 = Inr 2 \<and>
   (2::rat) = (of_int 2 - of_int 0) / of_int 2 + 1 \<and> (1::rat) \<le> 2 \<and>
   st_server (projr (push_phase demo_env 7 2 2 1 0 1 demo_state)) = 1 \<and>
   (1::int) = 2 - 1 \<and> staleness 1 2 0 2 = Inr 1 \<and>
   push demo_env 0 [[1], [0], [0]] 0 [(''fc.weight'', 2)] 7 1 0 = (1, [[1], [0], [0]], 1)"
proof -
  have w: "(0::int) < 2" by simp
  note inst = staleness_at_least_one[OF demo_run w]
  from inst have rec: "st_server (snd (projr (train (recording demo_env) [2, 2, 2, 2, 2, 2]
                          demo_heap demo_model (0, []) 7 2 5 2 None []))) =
     (3, [PullCall 0, PushCall 0 [(''fc.weight'', 3)] 7 1 0 1,
          PullCall 1, PushCall 1 [(''fc.weight'', 5)] 7 1 1 1,
          PullCall 0, PushCall 0 [(''fc.weight'', 7)] 7 2 2 2])"
    by (simp add: with_calls_def)
  have c: "current_worker 5 2 2 = Inr 0 \<and> staleness 5 2 0 2 = Inr 2 \<and>
           (2::rat) = (of_int 2 - of_int 0) / of_int 2 + 1 \<and> (1::rat) \<le> 2"
    by (simp add: current_worker_def staleness_def py_floordiv_def py_mod_def py_truediv_def
          bindE_def)
  have p: "st_server (projr (push_phase demo_env 7 2 2 1 0 1 demo_state)) = 1"
    unfolding demo_push_phase by simp
  have q: "(1::int) = 2 - 1 \<and> staleness 1 2 0 2 = Inr 1 \<and>
           push demo_env 0 [[1], [0], [0]] 0 [(''fc.weight'', 2)] 7 1 0 = (1, [[1], [0], [0]], 1)"
    by (simp add: staleness_def py_floordiv_def py_truediv_def bindE_def demo_env_def)
  from w rec c p q show ?thesis by blast
qed

section \<open>Round-robin workers\<close>

text \<open>
  Claim C4. Worker assignment is round-robin. In a run of \<^verbatim>\<open>train\<close> that returns, the
  server that records its calls receives exactly the pulls and pushes of the trace;
  with \<^verbatim>\<open>batch_accumulate_num\<close> positive, the workers these calls are made for are, in
  order, \<open>g mod workers_number\<close> twice (the pull and the push) for every complete
  group \<open>g = 0, 1, ...\<close>, and once more for the pull of a last, incomplete group. Every
  pull and push made at loader index \<open>i\<close> is for worker
  \<^verbatim>\<open>(i // batch_accumulate_num) % workers_number\<close>; the first group is worker 0, the next
  group is the next worker modulo the number of workers, and with a positive number
  of workers the index stays in range. In one pass through the loop body
  (\<open>train_step\<close>) at index \<open>j\<close>, \<^verbatim>\<open>server.pull\<close> and \<^verbatim>\<open>server.push\<close>, when they are called,
  are called with that worker.
\<close>

theorem round_robin_workers:
  "(train e loader h model server epoch workers_number grad_clip batch_accumulate_num
      bar statistics = Inr (res, st) \<longrightarrow>
      train (recording e) loader h model (server, []) epoch workers_number grad_clip
        batch_accumulate_num bar statistics =
        Inr (res, with_calls st (server_calls (trace st))) \<and>
      (0 < batch_accumulate_num \<longrightarrow>
         map worker_of (server_calls (trace st)) =
           concat (map (\<lambda>g. [int g mod workers_number, int g mod workers_number])
                     [0..<length loader div nat batch_accumulate_num]) @
           (if length loader mod nat batch_accumulate_num = 0 then []
            else [int (length loader div nat batch_accumulate_num) mod workers_number])) \<and>
      (\<forall>i ev cw gradients ep tau iteration step_norm.
         (i, ev) \<in> set (trace st) \<longrightarrow>
         ev = Pull cw \<or> ev = Push cw gradients ep tau iteration step_norm \<longrightarrow>
           i < length loader \<and>
           current_worker (int i) batch_accumulate_num workers_number = Inr cw \<and>
           cw = (int i div batch_accumulate_num) mod workers_number \<and>
           current_worker 0 batch_accumulate_num workers_number = Inr 0 \<and>
           current_worker (int i + batch_accumulate_num) batch_accumulate_num workers_number =
             Inr ((cw + 1) mod workers_number) \<and>
           (0 < workers_number \<longrightarrow> 0 \<le> cw \<and> cw < workers_number))) \<and>
   (train_step e epoch workers_number grad_clip batch_accumulate_num j b s = Inr s' \<longrightarrow>
      (\<exists>s1 s2 s3.
         current_worker (int j) batch_accumulate_num workers_number =
           Inr ((int j div batch_accumulate_num) mod workers_number) \<and>
         pull_phase e (int j mod batch_accumulate_num)
           ((int j div batch_accumulate_num) mod workers_number) j s = Inr s1 \<and>
         grad_phase e grad_clip batch_accumulate_num j b s1 = Inr s2 \<and>
         push_phase e epoch workers_number batch_accumulate_num (int j mod batch_accumulate_num)
           ((int j div batch_accumulate_num) mod workers_number) j s2 = Inr s3 \<and>
         s' = bar_phase j s3 \<and>
         (int j mod batch_accumulate_num = 0 \<longrightarrow>
            (\<exists>h0 weights.
               pull e (st_server s) (st_heap s)
                 ((int j div batch_accumulate_num) mod workers_number) =
                 (st_server s1, h0, weights))) \<and>
         (int j mod batch_accumulate_num = batch_accumulate_num - 1 \<longrightarrow>
            (\<exists>h1 gradients tau step_norm.
               push e (st_server s2) h1 ((int j div batch_accumulate_num) mod workers_number)
                 gradients epoch tau (int j div batch_accumulate_num) =
                 (st_server s3, st_heap s3, step_norm)))))"
proof (rule conjI)
  show "train e loader h model server epoch workers_number grad_clip batch_accumulate_num
      bar statistics = Inr (res, st) \<longrightarrow>
      train (recording e) loader h model (server, []) epoch workers_number grad_clip
        batch_accumulate_num bar statistics =
        Inr (res, with_calls st (server_calls (trace st))) \<and>
      (0 < batch_accumulate_num \<longrightarrow>
         map worker_of (server_calls (trace st)) =
           concat (map (\<lambda>g. [int g mod workers_number, int g mod workers_number])
                     [0..<length loader div nat batch_accumulate_num]) @
           (if length loader mod nat batch_accumulate_num = 0 then []
            else [int (length loader div nat batch_accumulate_num) mod workers_number])) \<and>
      (\<forall>i ev cw gradients ep tau iteration step_norm.
         (i, ev) \<in> set (trace st) \<longrightarrow>
         ev = Pull cw \<or> ev = Push cw gradients ep tau iteration step_norm \<longrightarrow>
           i < length loader \<and>
           current_worker (int i) batch_accumulate_num workers_number = Inr cw \<and>
           cw = (int i div batch_accumulate_num) mod workers_number \<and>
           current_worker 0 batch_accumulate_num workers_number = Inr 0 \<and>
           current_worker (int i + batch_accumulate_num) batch_accumulate_num workers_number =
             Inr ((cw + 1) mod workers_number) \<and>
           (0 < workers_number \<longrightarrow> 0 \<le> cw \<and> cw < workers_number))"
  proof (intro impI conjI allI)
    assume run: "train e loader h model server epoch workers_number grad_clip
      batch_accumulate_num bar statistics = Inr (res, st)"
    show "train (recording e) loader h model (server, []) epoch workers_number grad_clip
        batch_accumulate_num bar statistics =
        Inr (res, with_calls st (server_calls (trace st)))"
      by (rule train_recorded[OF run])
    {
      assume ban: "0 < batch_accumulate_num"
      show "map worker_of (server_calls (trace st)) =
           concat (map (\<lambda>g. [int g mod workers_number, int g mod workers_number])
                     [0..<length loader div nat batch_accumulate_num]) @
           (if length loader mod nat batch_accumulate_num = 0 then []
            else [int (length loader div nat batch_accumulate_num) mod workers_number])"
        by (rule workers_of_run[OF run ban])
    }
    fix i ev cw gradients ep tau iteration step_norm
    assume m: "(i, ev) \<in> set (trace st)"
       and ev: "ev = Pull cw \<or> ev = Push cw gradients ep tau iteration step_norm"
    note r = worker_of_event[OF run m ev]
    show "i < length loader" using r by blast
    show "current_worker (int i) batch_accumulate_num workers_number = Inr cw" using r by blast
    show "cw = (int i div batch_accumulate_num) mod workers_number" using r by blast
    show "current_worker 0 batch_accumulate_num workers_number = Inr 0" using r by blast
    show "current_worker (int i + batch_accumulate_num) batch_accumulate_num workers_number =
             Inr ((cw + 1) mod workers_number)" using r by blast
    {
      assume "0 < workers_number"
      with r show "0 \<le> cw" by blast
    }
    {
      assume "0 < workers_number"
      with r show "cw < workers_number" by blast
    }
  qed
next
  show "train_step e epoch workers_number grad_clip batch_accumulate_num j b s = Inr s' \<longrightarrow>
      (\<exists>s1 s2 s3.
         current_worker (int j) batch_accumulate_num workers_number =
           Inr ((int j div batch_accumulate_num) mod workers_number) \<and>
         pull_phase e (int j mod batch_accumulate_num)
           ((int j div batch_accumulate_num) mod workers_number) j s = Inr s1 \<and>
         grad_phase e grad_clip batch_accumulate_num j b s1 = Inr s2 \<and>
         push_phase e epoch workers_number batch_accumulate_num (int j mod batch_accumulate_num)
           ((int j div batch_accumulate_num) mod workers_number) j s2 = Inr s3 \<and>
         s' = bar_phase j s3 \<and>
         (int j mod batch_accumulate_num = 0 \<longrightarrow>
            (\<exists>h0 weights.
               pull e (st_server s) (st_heap s)
                 ((int j div batch_accumulate_num) mod workers_number) =
                 (st_server s1, h0, weights))) \<and>
         (int j mod batch_accumulate_num = batch_accumulate_num - 1 \<longrightarrow>
            (\<exists>h1 gradients tau step_norm.
               push e (st_server s2) h1 ((int j div batch_accumulate_num) mod workers_number)
                 gradients epoch tau (int j div batch_accumulate_num) =
                 (st_server s3, st_heap s3, step_norm))))"
  proof
    assume step: "train_step e epoch workers_number grad_clip batch_accumulate_num j b s = Inr s'"
    from train_step_trace(3,4)[OF step] have
      nz: "batch_accumulate_num \<noteq> 0" "workers_number \<noteq> 0" by simp_all
    have cw: "current_worker (int j) batch_accumulate_num workers_number =
           Inr ((int j div batch_accumulate_num) mod workers_number)"
      using nz by (simp add: current_worker_def py_floordiv_def py_mod_def bindE_def)
    from step obtain s1 s2 s3 where
      p1: "pull_phase e (int j mod batch_accumulate_num)
             ((int j div batch_accumulate_num) mod workers_number) j s = Inr s1" and
      p2: "grad_phase e grad_clip batch_accumulate_num j b s1 = Inr s2" and
      p3: "push_phase e epoch workers_number batch_accumulate_num (int j mod batch_accumulate_num)
             ((int j div batch_accumulate_num) mod workers_number) j s2 = Inr s3" and
      p4: "s' = bar_phase j s3" and
      a: "int j mod batch_accumulate_num = 0 \<longrightarrow>
              (\<exists>h0 weights h1 m1.
                 pull e (st_server s) (st_heap s)
                   ((int j div batch_accumulate_num) mod workers_number) =
                   (st_server s1, h0, weights) \<and>
                 set_model_weights e h0 weights (st_model s) = Inr (h1, m1) \<and>
                 zero_grad e h1 m1 = (st_heap s1, st_model s1))" and
      c: "int j mod batch_accumulate_num = batch_accumulate_num - 1 \<longrightarrow>
              (\<exists>h1 gradients tau step_norm.
                 get_model_gradients (st_heap s2) (st_model s2) = Inr (h1, gradients) \<and>
                 staleness (int j) batch_accumulate_num
                   ((int j div batch_accumulate_num) mod workers_number) workers_number =
                   Inr tau \<and>
                 push e (st_server s2) h1 ((int j div batch_accumulate_num) mod workers_number)
                   gradients epoch tau (int j div batch_accumulate_num) =
                   (st_server s3, st_heap s3, step_norm) \<and>
                 st_statistics s3 = st_statistics s2 @ [step_norm])"
      by (rule train_step_calls)
    have a': "int j mod batch_accumulate_num = 0 \<longrightarrow>
            (\<exists>h0 weights.
               pull e (st_server s) (st_heap s)
                 ((int j div batch_accumulate_num) mod workers_number) =
                 (st_server s1, h0, weights))"
      using a by auto
    have c': "int j mod batch_accumulate_num = batch_accumulate_num - 1 \<longrightarrow>
            (\<exists>h1 gradients tau step_norm.
               push e (st_server s2) h1 ((int j div batch_accumulate_num) mod workers_number)
                 gradients epoch tau (int j div batch_accumulate_num) =
                 (st_server s3, st_heap s3, step_norm))"
      using c by auto
    show "\<exists>s1 s2 s3.
         current_worker (int j) batch_accumulate_num workers_number =
           Inr ((int j div batch_accumulate_num) mod workers_number) \<and>
         pull_phase e (int j mod batch_accumulate_num)
           ((int j div batch_accumulate_num) mod workers_number) j s = Inr s1 \<and>
         grad_phase e grad_clip batch_accumulate_num j b s1 = Inr s2 \<and>
         push_phase e epoch workers_number batch_accumulate_num (int j mod batch_accumulate_num)
           ((int j div batch_accumulate_num) mod workers_number) j s2 = Inr s3 \<and>
         s' = bar_phase j s3 \<and>
         (int j mod batch_accumulate_num = 0 \<longrightarrow>
            (\<exists>h0 weights.
               pull e (st_server s) (st_heap s)
                 ((int j div batch_accumulate_num) mod workers_number) =
                 (st_server s1, h0, weights))) \<and>
         (int j mod batch_accumulate_num = batch_accumulate_num - 1 \<longrightarrow>
            (\<exists>h1 gradients tau step_norm.
               push e (st_server s2) h1 ((int j div batch_accumulate_num) mod workers_number)
                 gradients epoch tau (int j div batch_accumulate_num) =
                 (st_server s3, st_heap s3, step_norm)))"
      by (rule exI[of _ s1], rule exI[of _ s2], rule exI[of _ s3])
         (intro conjI cw p1 p2 p3 p4 a' c')
  qed
qed

theorem round_robin_workers_witness:
  "map worker_of (snd (st_server (snd (projr (train (recording demo_env) [2, 2, 2, 2, 2, 2]
                                             demo_heap demo_model (0, []) 7 2 5 2 None []))))) =
     [0, 0, 1, 1, 0, 0] \<and>
   (0::int) < 2 \<and>
   (2, Pull 1) \<in>
     set (trace (snd (projr (train demo_env [2, 2, 2, 2, 2, 2] demo_heap demo_model 0 7 2 5 2 None [])))) \<and>
   current_worker 2 2 2 = Inr 1 \<and> current_worker 4 2 2 = Inr 0 \<and> current_worker 0 2 2 = Inr 0 \<and>
   st_server (projr (train_step demo_env 7 2 5 1 3 2 demo_state)) = 1 \<and>
   current_worker 3 1 2 = Inr 1 \<and>
   pull demo_env 0 demo_heap 1 = (0, [[1], [0], [1]], [(''fc.weight'', 2)]) \<and>
   push demo_env 0 [[1], [20001 / 10000], [1], [20001 / 10000]] 1 [(''fc.weight'', 3)] 7 2 3 =
     (1, [[1], [20001 / 10000], [1], [20001 / 10000]], 2)"
proof -
  note run_part = round_robin_workers[THEN conjunct1, THEN mp, OF demo_run]
  note step_part = round_robin_workers[THEN conjunct2, THEN mp, OF demo_step]
  have a: "map worker_of (snd (st_server (snd (projr (train (recording demo_env)
             [2, 2, 2, 2, 2, 2] demo_heap demo_model (0, []) 7 2 5 2 None []))))) =
     [0, 0, 1, 1, 0, 0]"
    using run_part[THEN conjunct1] by (simp add: with_calls_def)
  have p: "(0::int) < 2" by simp
  have m: "(2, Pull 1) \<in>
     set (trace (snd (projr (train demo_env [2, 2, 2, 2, 2, 2] demo_heap demo_model 0 7 2 5 2 None []))))"
    unfolding demo_run by simp
  have c: "current_worker 2 2 2 = Inr 1 \<and> current_worker 4 2 2 = Inr 0 \<and>
           current_worker 0 2 2 = Inr 0"
    by (simp add: current_worker_def py_floordiv_def py_mod_def bindE_def)
  have s: "st_server (projr (train_step demo_env 7 2 5 1 3 2 demo_state)) = 1"
    unfolding demo_step by simp
  from step_part have "current_worker (int 3) 1 2 = Inr ((int 3 div 1) mod 2)" by blast
  then have w: "current_worker 3 1 2 = Inr 1" by simp
  note d = demo_step_calls
  from a p m c s w d show ?thesis by blast
qed

section \<open>One pull and one push per accumulation group\<close>

text \<open>
  Claim C5. Take a run of \<^verbatim>\<open>train\<close> that returns, with \<^verbatim>\<open>batch_accumulate_num\<close>
  positive. The calls its server receives are, for every complete accumulation group
  \<open>g\<close> in order, one pull for the group's worker followed by one push for the same
  worker with \<^verbatim>\<open>iteration = g\<close>, and then one pull for a last incomplete group if
  there is one; the statistics receive exactly the step norms these pushes returned,
  in order. For a complete group \<open>g\<close> the pull comes at the first batch, before the
  forward pass, and the push after the backward pass of the last batch, followed by
  \<^verbatim>\<open>save_step_norm\<close> of the value it returned. In one pass through the loop body
  (\<open>train_step\<close>): at the first batch of a group the server is pulled for the worker
  and the weights it returns are loaded into the model; at the last batch the
  gradients handed to \<^verbatim>\<open>server.push\<close> are the snapshot \<^verbatim>\<open>get_model_gradients\<close> takes of
  the model after that pass's backward, weight-decay and clipping steps, the server
  and heap are the ones the push returns, and the step norm it returns is appended to
  the statistics; at any other batch there is no pull and no push.
\<close>

theorem one_pull_one_push_per_group:
  "(train e loader h model server epoch workers_number grad_clip batch_accumulate_num
      bar statistics = Inr (res, st) \<longrightarrow>
    0 < batch_accumulate_num \<longrightarrow>
      train (recording e) loader h model (server, []) epoch workers_number grad_clip
        batch_accumulate_num bar statistics =
        Inr (res, with_calls st (server_calls (trace st))) \<and>
      (\<exists>gs rs.
         server_calls (trace st) =
           concat (map (\<lambda>g. [PullCall (int g mod workers_number),
                              PushCall (int g mod workers_number) (gs g) epoch
                                (of_int (int g - int g mod workers_number) /
                                   of_int workers_number + 1)
                                (int g) (rs g)])
                     [0..<length loader div nat batch_accumulate_num]) @
           (if length loader mod nat batch_accumulate_num = 0 then []
            else [PullCall (int (length loader div nat batch_accumulate_num) mod
                            workers_number)]) \<and>
         st_statistics st =
           statistics @ map rs [0..<length loader div nat batch_accumulate_num]) \<and>
      st_statistics st = statistics @ saved_step_norms (trace st) \<and>
      ((g + 1) * nat batch_accumulate_num \<le> length loader \<longrightarrow>
         (\<exists>gradients tau step_norm.
            group_sync batch_accumulate_num g (trace st) =
              [(g * nat batch_accumulate_num, Pull (int g mod workers_number))] @
              concat (map (\<lambda>i. [(i, Forward), (i, Backward)])
                        [g * nat batch_accumulate_num..<
                         g * nat batch_accumulate_num + nat batch_accumulate_num]) @
              [(g * nat batch_accumulate_num + nat batch_accumulate_num - 1,
                  Push (int g mod workers_number) gradients epoch tau (int g) step_norm),
               (g * nat batch_accumulate_num + nat batch_accumulate_num - 1,
                  SaveStepNorm step_norm)]))) \<and>
   (train_step e epoch workers_number grad_clip batch_accumulate_num j b s = Inr s' \<longrightarrow>
      (\<exists>s1 s2 s3.
         pull_phase e (int j mod batch_accumulate_num)
           ((int j div batch_accumulate_num) mod workers_number) j s = Inr s1 \<and>
         grad_phase e grad_clip batch_accumulate_num j b s1 = Inr s2 \<and>
         push_phase e epoch workers_number batch_accumulate_num (int j mod batch_accumulate_num)
           ((int j div batch_accumulate_num) mod workers_number) j s2 = Inr s3 \<and>
         s' = bar_phase j s3 \<and>
         (int j mod batch_accumulate_num = 0 \<longrightarrow>
            (\<exists>h0 weights h1 m1.
               pull e (st_server s) (st_heap s)
                 ((int j div batch_accumulate_num) mod workers_number) =
                 (st_server s1, h0, weights) \<and>
               set_model_weights e h0 weights (st_model s) = Inr (h1, m1) \<and>
               zero_grad e h1 m1 = (st_heap s1, st_model s1))) \<and>
         (int j mod batch_accumulate_num \<noteq> 0 \<longrightarrow> s1 = s) \<and>
         st_server s2 = st_server s1 \<and>
         st_statistics s2 = st_statistics s \<and>
         (int j mod batch_accumulate_num = batch_accumulate_num - 1 \<longrightarrow>
            (\<exists>h1 gradients tau step_norm.
               get_model_gradients (st_heap s2) (st_model s2) = Inr (h1, gradients) \<and>
               staleness (int j) batch_accumulate_num
                 ((int j div batch_accumulate_num) mod workers_number) workers_number =
                 Inr tau \<and>
               push e (st_server s2) h1 ((int j div batch_accumulate_num) mod workers_number)
                 gradients epoch tau (int j div batch_accumulate_num) =
                 (st_server s3, st_heap s3, step_norm) \<and>
               st_statistics s3 = st_statistics s2 @ [step_norm])) \<and>
         (int j mod batch_accumulate_num \<noteq> batch_accumulate_num - 1 \<longrightarrow> s3 = s2)))"
proof (rule conjI)
  show "train e loader h model server epoch workers_number grad_clip batch_accumulate_num
      bar statistics = Inr (res, st) \<longrightarrow>
    0 < batch_accumulate_num \<longrightarrow>
      train (recording e) loader h model (server, []) epoch workers_number grad_clip
        batch_accumulate_num bar statistics =
        Inr (res, with_calls st (server_calls (trace st))) \<and>
      (\<exists>gs rs.
         server_calls (trace st) =
           concat (map (\<lambda>g. [PullCall (int g mod workers_number),
                              PushCall (int g mod workers_number) (gs g) epoch
                                (of_int (int g - int g mod workers_number) /
                                   of_int workers_number + 1)
                                (int g) (rs g)])
                     [0..<length loader div nat batch_accumulate_num]) @
           (if length loader mod nat batch_accumulate_num = 0 then []
            else [PullCall (int (length loader div nat batch_accumulate_num) mod
                            workers_number)]) \<and>
         st_statistics st =
           statistics @ map rs [0..<length loader div nat batch_accumulate_num]) \<and>
      st_statistics st = statistics @ saved_step_norms (trace st) \<and>
      ((g + 1) * nat batch_accumulate_num \<le> length loader \<longrightarrow>
         (\<exists>gradients tau step_norm.
            group_sync batch_accumulate_num g (trace st) =
              [(g * nat batch_accumulate_num, Pull (int g mod workers_number))] @
              concat (map (\<lambda>i. [(i, Forward), (i, Backward)])
                        [g * nat batch_accumulate_num..<
                         g * nat batch_accumulate_num + nat batch_accumulate_num]) @
              [(g * nat batch_accumulate_num + nat batch_accumulate_num - 1,
                  Push (int g mod workers_number) gradients epoch tau (int g) step_norm),
               (g * nat batch_accumulate_num + nat batch_accumulate_num - 1,
                  SaveStepNorm step_norm)]))"
  proof (intro impI conjI)
    assume run: "train e loader h model server epoch workers_number grad_clip
      batch_accumulate_num bar statistics = Inr (res, st)"
       and pos: "0 < batch_accumulate_num"
    show "train (recording e) loader h model (server, []) epoch workers_number grad_clip
        batch_accumulate_num bar statistics =
        Inr (res, with_calls st (server_calls (trace st)))"
      by (rule train_recorded[OF run])
    show "\<exists>gs rs.
         server_calls (trace st) =
           concat (map (\<lambda>g. [PullCall (int g mod workers_number),
                              PushCall (int g mod workers_number) (gs g) epoch
                                (of_int (int g - int g mod workers_number) /
                                   of_int workers_number + 1)
                                (int g) (rs g)])
                     [0..<length loader div nat batch_accumulate_num]) @
           (if length loader mod nat batch_accumulate_num = 0 then []
            else [PullCall (int (length loader div nat batch_accumulate_num) mod
                            workers_number)]) \<and>
         st_statistics st =
           statistics @ map rs [0..<length loader div nat batch_accumulate_num]"
      by (rule server_calls_of_run[OF run pos])
    show "st_statistics st = statistics @ saved_step_norms (trace st)"
      by (rule train_saved[OF run])
    assume len0: "(g + 1) * nat batch_accumulate_num \<le> length loader"
    define n where "n = nat batch_accumulate_num"
    from pos have n: "0 < n" and ban: "batch_accumulate_num = int n" by (simp_all add: n_def)
    from train_trace[OF run] obtain gs rs where
      tr: "trace st = concat (map (\<lambda>i. map (Pair i)
             (step_events epoch workers_number grad_clip (int n) (bar \<noteq> None) i (gs i) (rs i)))
             [0..<length loader])" unfolding ban by blast
    from len0 have len: "(g + 1) * n \<le> length loader" by (simp add: n_def)
    have "group_sync (int n) g (trace st) =
           [(g * n, Pull (int g mod workers_number))] @
           concat (map (\<lambda>i. [(i, Forward), (i, Backward)]) [g * n..<g * n + n]) @
           [(g * n + n - 1, Push (int g mod workers_number) (gs (g * n + n - 1)) epoch
                (of_int (int g - int g mod workers_number) / of_int workers_number + 1) (int g)
                (rs (g * n + n - 1))),
            (g * n + n - 1, SaveStepNorm (rs (g * n + n - 1)))]"
      unfolding tr by (rule group_of_trace[OF n len])
    then have "\<exists>gradients tau step_norm.
             group_sync batch_accumulate_num g (trace st) =
               [(g * n, Pull (int g mod workers_number))] @
               concat (map (\<lambda>i. [(i, Forward), (i, Backward)]) [g * n..<g * n + n]) @
               [(g * n + n - 1, Push (int g mod workers_number) gradients epoch tau (int g) step_norm),
                (g * n + n - 1, SaveStepNorm step_norm)]"
      unfolding ban by blast
    then show "\<exists>gradients tau step_norm.
            group_sync batch_accumulate_num g (trace st) =
              [(g * nat batch_accumulate_num, Pull (int g mod workers_number))] @
              concat (map (\<lambda>i. [(i, Forward), (i, Backward)])
                        [g * nat batch_accumulate_num..<
                         g * nat batch_accumulate_num + nat batch_accumulate_num]) @
              [(g * nat batch_accumulate_num + nat batch_accumulate_num - 1,
                  Push (int g mod workers_number) gradients epoch tau (int g) step_norm),
               (g * nat batch_accumulate_num + nat batch_accumulate_num - 1,
                  SaveStepNorm step_norm)]"
      unfolding n_def .
  qed
next
  show "train_step e epoch workers_number grad_clip batch_accumulate_num j b s = Inr s' \<longrightarrow>
      (\<exists>s1 s2 s3.
         pull_phase e (int j mod batch_accumulate_num)
           ((int j div batch_accumulate_num) mod workers_number) j s = Inr s1 \<and>
         grad_phase e grad_clip batch_accumulate_num j b s1 = Inr s2 \<and>
         push_phase e epoch workers_number batch_accumulate_num (int j mod batch_accumulate_num)
           ((int j div batch_accumulate_num) mod workers_number) j s2 = Inr s3 \<and>
         s' = bar_phase j s3 \<and>
         (int j mod batch_accumulate_num = 0 \<longrightarrow>
            (\<exists>h0 weights h1 m1.
               pull e (st_server s) (st_heap s)
                 ((int j div batch_accumulate_num) mod workers_number) =
                 (st_server s1, h0, weights) \<and>
               set_model_weights e h0 weights (st_model s) = Inr (h1, m1) \<and>
               zero_grad e h1 m1 = (st_heap s1, st_model s1))) \<and>
         (int j mod batch_accumulate_num \<noteq> 0 \<longrightarrow> s1 = s) \<and>
         st_server s2 = st_server s1 \<and>
         st_statistics s2 = st_statistics s \<and>
         (int j mod batch_accumulate_num = batch_accumulate_num - 1 \<longrightarrow>
            (\<exists>h1 gradients tau step_norm.
               get_model_gradients (st_heap s2) (st_model s2) = Inr (h1, gradients) \<and>
               staleness (int j) batch_accumulate_num
                 ((int j div batch_accumulate_num) mod workers_number) workers_number =
                 Inr tau \<and>
               push e (st_server s2) h1 ((int j div batch_accumulate_num) mod workers_number)
                 gradients epoch tau (int j div batch_accumulate_num) =
                 (st_server s3, st_heap s3, step_norm) \<and>
               st_statistics s3 = st_statistics s2 @ [step_norm])) \<and>
         (int j mod batch_accumulate_num \<noteq> batch_accumulate_num - 1 \<longrightarrow> s3 = s2))"
  proof
    assume step: "train_step e epoch workers_number grad_clip batch_accumulate_num j b s = Inr s'"
    from step obtain s1 s2 s3 where
      p: "pull_phase e (int j mod batch_accumulate_num)
            ((int j div batch_accumulate_num) mod workers_number) j s = Inr s1"
         "grad_phase e grad_clip batch_accumulate_num j b s1 = Inr s2"
         "push_phase e epoch workers_number batch_accumulate_num (int j mod batch_accumulate_num)
            ((int j div batch_accumulate_num) mod workers_number) j s2 = Inr s3"
         "s' = bar_phase j s3"
         "int j mod batch_accumulate_num = 0 \<longrightarrow>
            (\<exists>h0 weights h1 m1.
               pull e (st_server s) (st_heap s)
                 ((int j div batch_accumulate_num) mod workers_number) =
                 (st_server s1, h0, weights) \<and>
               set_model_weights e h0 weights (st_model s) = Inr (h1, m1) \<and>
               zero_grad e h1 m1 = (st_heap s1, st_model s1))"
         "int j mod batch_accumulate_num \<noteq> 0 \<longrightarrow> s1 = s"
         "st_server s2 = st_server s1"
         "st_statistics s2 = st_statistics s"
         "int j mod batch_accumulate_num = batch_accumulate_num - 1 \<longrightarrow>
            (\<exists>h1 gradients tau step_norm.
               get_model_gradients (st_heap s2) (st_model s2) = Inr (h1, gradients) \<and>
               staleness (int j) batch_accumulate_num
                 ((int j div batch_accumulate_num) mod workers_number) workers_number =
                 Inr tau \<and>
               push e (st_server s2) h1 ((int j div batch_accumulate_num) mod workers_number)
                 gradients epoch tau (int j div batch_accumulate_num) =
                 (st_server s3, st_heap s3, step_norm) \<and>
               st_statistics s3 = st_statistics s2 @ [step_norm])"
         "int j mod batch_accumulate_num \<noteq> batch_accumulate_num - 1 \<longrightarrow> s3 = s2"
      by (rule train_step_calls)
    show "\<exists>s1 s2 s3.
         pull_phase e (int j mod batch_accumulate_num)
           ((int j div batch_accumulate_num) mod workers_number) j s = Inr s1 \<and>
         grad_phase e grad_clip batch_accumulate_num j b s1 = Inr s2 \<and>
         push_phase e epoch workers_number batch_accumulate_num (int j mod batch_accumulate_num)
           ((int j div batch_accumulate_num) mod workers_number) j s2 = Inr s3 \<and>
         s' = bar_phase j s3 \<and>
         (int j mod batch_accumulate_num = 0 \<longrightarrow>
            (\<exists>h0 weights h1 m1.
               pull e (st_server s) (st_heap s)
                 ((int j div batch_accumulate_num) mod workers_number) =
                 (st_server s1, h0, weights) \<and>
               set_model_weights e h0 weights (st_model s) = Inr (h1, m1) \<and>
               zero_grad e h1 m1 = (st_heap s1, st_model s1))) \<and>
         (int j mod batch_accumulate_num \<noteq> 0 \<longrightarrow> s1 = s) \<and>
         st_server s2 = st_server s1 \<and>
         st_statistics s2 = st_statistics s \<and>
         (int j mod batch_accumulate_num = batch_accumulate_num - 1 \<longrightarrow>
            (\<exists>h1 gradients tau step_norm.
               get_model_gradients (st_heap s2) (st_model s2) = Inr (h1, gradients) \<and>
               staleness (int j) batch_accumulate_num
                 ((int j div batch_accumulate_num) mod workers_number) workers_number =
                 Inr tau \<and>
               push e (st_server s2) h1 ((int j div batch_accumulate_num) mod workers_number)
                 gradients epoch tau (int j div batch_accumulate_num) =
                 (st_server s3, st_heap s3, step_norm) \<and>
               st_statistics s3 = st_statistics s2 @ [step_norm])) \<and>
         (int j mod batch_accumulate_num \<noteq> batch_accumulate_num - 1 \<longrightarrow> s3 = s2)"
      by (rule exI[of _ s1], rule exI[of _ s2], rule exI[of _ s3]) (intro conjI p)
  qed
qed

theorem one_pull_one_push_per_group_witness:
  "(0::int) < 2 \<and> (1 + 1) * nat 2 \<le> length [2, 2, 2, 2, 2, 2::rat] \<and>
   snd (st_server (snd (projr (train (recording demo_env) [2, 2, 2, 2, 2, 2]
                                 demo_heap demo_model (0, []) 7 2 5 2 None [])))) =
     [PullCall 0, PushCall 0 [(''fc.weight'', 3)] 7 1 0 1,
      PullCall 1, PushCall 1 [(''fc.weight'', 5)] 7 1 1 1,
      PullCall 0, PushCall 0 [(''fc.weight'', 7)] 7 2 2 2] \<and>
   group_sync 2 1
     (trace (snd (projr (train demo_env [2, 2, 2, 2, 2, 2] demo_heap demo_model 0 7 2 5 2 None [])))) =
     [(2, Pull 1), (2, Forward), (2, Backward), (3, Forward), (3, Backward),
      (3, Push 1 [(''fc.weight'', 5)] 7 1 1 1), (3, SaveStepNorm 1)] \<and>
   st_statistics (snd (projr (train demo_env [2, 2, 2, 2, 2, 2] demo_heap demo_model 0 7 2 5 2 None []))) =
     [1, 1, 2] \<and>
   st_statistics (projr (train_step demo_env 7 2 5 1 3 2 demo_state)) = [2] \<and>
   int 3 mod 1 = 0 \<and> int 3 mod 1 = 1 - 1 \<and>
   pull demo_env 0 demo_heap 1 = (0, [[1], [0], [1]], [(''fc.weight'', 2)]) \<and>
   get_model_gradients [[1], [20001 / 10000], [1]]
     [\<lparr>mod_name = ''fc'', mod_kind = Linear,
        mod_params = [(''weight'', \<lparr>data = 2, grad = Some 1\<rparr>)]\<rparr>] =
     Inr ([[1], [20001 / 10000], [1], [20001 / 10000]], [(''fc.weight'', 3)]) \<and>
   staleness 3 1 1 2 = Inr 2 \<and>
   push demo_env 0 [[1], [20001 / 10000], [1], [20001 / 10000]] 1 [(''fc.weight'', 3)] 7 2 3 =
     (1, [[1], [20001 / 10000], [1], [20001 / 10000]], 2)"
proof -
  have p: "(0::int) < 2" by simp
  have l: "(1 + 1) * nat 2 \<le> length [2, 2, 2, 2, 2, 2::rat]" by simp
  note run_part = one_pull_one_push_per_group[where g = 1, THEN conjunct1, THEN mp, OF demo_run,
                    THEN mp, OF p]
  note step_part = one_pull_one_push_per_group[THEN conjunct2, THEN mp, OF demo_step]
  have a: "snd (st_server (snd (projr (train (recording demo_env) [2, 2, 2, 2, 2, 2]
                                 demo_heap demo_model (0, []) 7 2 5 2 None [])))) =
     [PullCall 0, PushCall 0 [(''fc.weight'', 3)] 7 1 0 1,
      PullCall 1, PushCall 1 [(''fc.weight'', 5)] 7 1 1 1,
      PullCall 0, PushCall 0 [(''fc.weight'', 7)] 7 2 2 2]"
    using run_part[THEN conjunct1] by (simp add: with_calls_def)
  have b: "group_sync 2 1
     (trace (snd (projr (train demo_env [2, 2, 2, 2, 2, 2] demo_heap demo_model 0 7 2 5 2 None [])))) =
     [(2, Pull 1), (2, Forward), (2, Backward), (3, Forward), (3, Backward),
      (3, Push 1 [(''fc.weight'', 5)] 7 1 1 1), (3, SaveStepNorm 1)]"
    unfolding demo_run by (simp add: group_sync_def)
  have c: "st_statistics (snd (projr (train demo_env [2, 2, 2, 2, 2, 2] demo_heap demo_model 0 7 2 5 2 None []))) =
     [1, 1, 2]"
    using run_part[THEN conjunct2, THEN conjunct2, THEN conjunct1] unfolding demo_run by simp
  from step_part have "\<exists>s3. projr (train_step demo_env 7 2 5 1 3 2 demo_state) = bar_phase 3 s3"
    unfolding demo_step by auto
  have s: "st_statistics (projr (train_step demo_env 7 2 5 1 3 2 demo_state)) = [2]"
    unfolding demo_step by simp
  have i: "int 3 mod 1 = 0 \<and> int 3 mod 1 = 1 - 1" by simp
  note d = demo_step_calls
  from p l a b c s i d show ?thesis by blast
qed

section \<open>Clipping the gradients\<close>

lemma clipping_grad_phase:
  "grad_phase clipping_env (1 / 2) 2 0 2 demo_state =
   Inr \<lparr>st_heap = [[1], [1 / 2]],
        st_model =
          [\<lparr>mod_name = ''fc'', mod_kind = Linear,
              mod_params = [(''weight'', \<lparr>data = 0, grad = Some 1\<rparr>)]\<rparr>],
        st_server = 0, train_loss = \<lparr>avg = 2, sum_m = 2, count = 1\<rparr>,
        train_error = \<lparr>avg = 50, sum_m = 50, count = 1\<rparr>, st_statistics = [],
        st_bar = None,
        trace =
          [(0, Forward), (0, Backward), (0, WdPreStep),
           (0, ClipGradNorm (1 / 2))]\<rparr>"
  by code_simp

lemma unclipped_grad_phase:
  "grad_phase clipping_env 1000 2 0 2 demo_state =
   Inr \<lparr>st_heap = [[1], [10001 / 10000]],
        st_model =
          [\<lparr>mod_name = ''fc'', mod_kind = Linear,
              mod_params = [(''weight'', \<lparr>data = 0, grad = Some 1\<rparr>)]\<rparr>],
        st_server = 0, train_loss = \<lparr>avg = 2, sum_m = 2, count = 1\<rparr>,
        train_error = \<lparr>avg = 50, sum_m = 50, count = 1\<rparr>, st_statistics = [],
        st_bar = None,
        trace = [(0, Forward), (0, Backward), (0, WdPreStep)]\<rparr>"
  by code_simp

lemma clipping_step:
  "train_step clipping_env 7 2 (1 / 2) 1 3 2 demo_state =
   Inr \<lparr>st_heap = [[1], [1 / 2], [1], [1 / 2]],
        st_model =
          [\<lparr>mod_name = ''fc'', mod_kind = Linear,
              mod_params = [(''weight'', \<lparr>data = 2, grad = Some 1\<rparr>)]\<rparr>],
        st_server = 1, train_loss = \<lparr>avg = 2, sum_m = 2, count = 1\<rparr>,
        train_error = \<lparr>avg = 50, sum_m = 50, count = 1\<rparr>,
        st_statistics = [2], st_bar = None,
        trace =
          [(3, Pull 1), (3, ZeroGrad), (3, Forward), (3, Backward),
           (3, WdPreStep), (3, ClipGradNorm (1 / 2)),
           (3, Push 1 [(''fc.weight'', 3)] 7 2 3 2), (3, SaveStepNorm 2)]\<rparr>"
  by code_simp

lemma clipping_calls:
  "wd_pre_step (fst (backward clipping_env demo_heap demo_model 2 2))
     (snd (backward clipping_env demo_heap demo_model 2 2)) default_weight_decay =
     Inr [[1], [10001 / 10000]] \<and>
   clip_grad_norm clipping_env [[1], [10001 / 10000]]
     (snd (backward clipping_env demo_heap demo_model 2 2)) (1 / 2) = [[1], [1 / 2]]"
  by code_simp

text \<open>
  Claim C3. Clipping happens exactly when \<^verbatim>\<open>grad_clip\<close> is below 1000. In a run of
  \<^verbatim>\<open>train\<close> the calls to \<^verbatim>\<open>clip_grad_norm\<close> are, when \<^verbatim>\<open>grad_clip < 1000\<close>, one call
  per batch with ceiling \<^verbatim>\<open>grad_clip\<close>, and none otherwise. When \<^verbatim>\<open>grad_clip\<close> is at
  or above 1000 the outcome of \<^verbatim>\<open>train\<close> does not depend on what \<^verbatim>\<open>clip_grad_norm\<close>
  would do. In one pass through lines 184 to 193 (\<open>grad_phase\<close>), the tensors the pass
  leaves are, when \<^verbatim>\<open>grad_clip < 1000\<close>, what \<^verbatim>\<open>clip_grad_norm\<close> with ceiling
  \<^verbatim>\<open>grad_clip\<close> makes of the result of the weight-decay step, and otherwise that
  result itself, unclipped; every pass through the loop body (\<open>train_step\<close>) goes
  through this.
\<close>

theorem clipping_iff_below_sentinel:
  "(train e loader h model server epoch workers_number grad_clip batch_accumulate_num
      bar statistics = Inr (res, st) \<longrightarrow>
    filter is_clip (trace st) =
      (if grad_clip < 1000 then map (\<lambda>i. (i, ClipGradNorm grad_clip)) [0..<length loader] else [])) \<and>
   (\<not> grad_clip < 1000 \<longrightarrow>
    train (e\<lparr>clip_grad_norm := f\<rparr>) loader h model server epoch workers_number grad_clip
      batch_accumulate_num bar statistics =
    train e loader h model server epoch workers_number grad_clip batch_accumulate_num
      bar statistics) \<and>
   (grad_phase e grad_clip batch_accumulate_num j b s = Inr s' \<longrightarrow>
      (\<exists>h2. wd_pre_step (fst (backward e (st_heap s) (st_model s) b batch_accumulate_num))
                (snd (backward e (st_heap s) (st_model s) b batch_accumulate_num))
                default_weight_decay = Inr h2 \<and>
            (grad_clip < 1000 \<longrightarrow>
               st_heap s' =
                 clip_grad_norm e h2
                   (snd (backward e (st_heap s) (st_model s) b batch_accumulate_num)) grad_clip) \<and>
            (\<not> grad_clip < 1000 \<longrightarrow> st_heap s' = h2))) \<and>
   (train_step e epoch workers_number grad_clip batch_accumulate_num j b s0 = Inr s3 \<longrightarrow>
      (\<exists>s1 s2 s2' h2.
         pull_phase e (int j mod batch_accumulate_num)
           ((int j div batch_accumulate_num) mod workers_number) j s0 = Inr s1 \<and>
         grad_phase e grad_clip batch_accumulate_num j b s1 = Inr s2 \<and>
         push_phase e epoch workers_number batch_accumulate_num (int j mod batch_accumulate_num)
           ((int j div batch_accumulate_num) mod workers_number) j s2 = Inr s2' \<and>
         s3 = bar_phase j s2' \<and>
         wd_pre_step (fst (backward e (st_heap s1) (st_model s1) b batch_accumulate_num))
           (snd (backward e (st_heap s1) (st_model s1) b batch_accumulate_num))
           default_weight_decay = Inr h2 \<and>
         st_heap s2 =
           (if grad_clip < 1000
            then clip_grad_norm e h2
                   (snd (backward e (st_heap s1) (st_model s1) b batch_accumulate_num)) grad_clip
            else h2)))"
proof (intro conjI impI)
  assume run: "train e loader h model server epoch workers_number grad_clip batch_accumulate_num
      bar statistics = Inr (res, st)"
  from train_trace[OF run] obtain gs rs where
    tr: "trace st = concat (map (\<lambda>i. map (Pair i)
           (step_events epoch workers_number grad_clip batch_accumulate_num (bar \<noteq> None) i (gs i) (rs i)))
           [0..<length loader])" by blast
  have "filter is_clip (trace st) =
        concat (map (\<lambda>i. if grad_clip < 1000 then [(i, ClipGradNorm grad_clip)] else [])
                  [0..<length loader])"
    unfolding tr filter_concat map_map comp_def clip_of_step ..
  also have "\<dots> = (if grad_clip < 1000
                    then map (\<lambda>i. (i, ClipGradNorm grad_clip)) [0..<length loader] else [])"
    by (induction "length loader") auto
  finally show "filter is_clip (trace st) =
      (if grad_clip < 1000 then map (\<lambda>i. (i, ClipGradNorm grad_clip)) [0..<length loader] else [])" .
next
  assume "\<not> grad_clip < 1000"
  then show "train (e\<lparr>clip_grad_norm := f\<rparr>) loader h model server epoch workers_number grad_clip
      batch_accumulate_num bar statistics =
    train e loader h model server epoch workers_number grad_clip batch_accumulate_num
      bar statistics"
    by (simp add: train_def train_loop_clip_irrelevant)
next
  assume g: "grad_phase e grad_clip batch_accumulate_num j b s = Inr s'"
  from grad_phase_heap[OF g] obtain h2 where
    w: "wd_pre_step (fst (backward e (st_heap s) (st_model s) b batch_accumulate_num))
          (snd (backward e (st_heap s) (st_model s) b batch_accumulate_num))
          default_weight_decay = Inr h2" and
    c: "st_heap s' =
          (if grad_clip < 1000
           then clip_grad_norm e h2
                  (snd (backward e (st_heap s) (st_model s) b batch_accumulate_num)) grad_clip
           else h2)"
    by blast
  have c1: "grad_clip < 1000 \<longrightarrow>
               st_heap s' =
                 clip_grad_norm e h2
                   (snd (backward e (st_heap s) (st_model s) b batch_accumulate_num)) grad_clip"
    using c by simp
  have c2: "\<not> grad_clip < 1000 \<longrightarrow> st_heap s' = h2" using c by simp
  show "\<exists>h2. wd_pre_step (fst (backward e (st_heap s) (st_model s) b batch_accumulate_num))
                (snd (backward e (st_heap s) (st_model s) b batch_accumulate_num))
                default_weight_decay = Inr h2 \<and>
            (grad_clip < 1000 \<longrightarrow>
               st_heap s' =
                 clip_grad_norm e h2
                   (snd (backward e (st_heap s) (st_model s) b batch_accumulate_num)) grad_clip) \<and>
            (\<not> grad_clip < 1000 \<longrightarrow> st_heap s' = h2)"
    by (rule exI[of _ h2]) (intro conjI w c1 c2)
next
  assume step: "train_step e epoch workers_number grad_clip batch_accumulate_num j b s0 = Inr s3"
  from train_step_phases[OF step] obtain s1 s2 s2' where
    p1: "pull_phase e (int j mod batch_accumulate_num)
           ((int j div batch_accumulate_num) mod workers_number) j s0 = Inr s1" and
    p2: "grad_phase e grad_clip batch_accumulate_num j b s1 = Inr s2" and
    p3: "push_phase e epoch workers_number batch_accumulate_num (int j mod batch_accumulate_num)
           ((int j div batch_accumulate_num) mod workers_number) j s2 = Inr s2'" and
    p4: "s3 = bar_phase j s2'"
    by blast
  from grad_phase_heap[OF p2] obtain h2 where
    w: "wd_pre_step (fst (backward e (st_heap s1) (st_model s1) b batch_accumulate_num))
          (snd (backward e (st_heap s1) (st_model s1) b batch_accumulate_num))
          default_weight_decay = Inr h2" and
    c: "st_heap s2 =
          (if grad_clip < 1000
           then clip_grad_norm e h2
                  (snd (backward e (st_heap s1) (st_model s1) b batch_accumulate_num)) grad_clip
           else h2)"
    by blast
  show "\<exists>s1 s2 s2' h2.
         pull_phase e (int j mod batch_accumulate_num)
           ((int j div batch_accumulate_num) mod workers_number) j s0 = Inr s1 \<and>
         grad_phase e grad_clip batch_accumulate_num j b s1 = Inr s2 \<and>
         push_phase e epoch workers_number batch_accumulate_num (int j mod batch_accumulate_num)
           ((int j div batch_accumulate_num) mod workers_number) j s2 = Inr s2' \<and>
         s3 = bar_phase j s2' \<and>
         wd_pre_step (fst (backward e (st_heap s1) (st_model s1) b batch_accumulate_num))
           (snd (backward e (st_heap s1) (st_model s1) b batch_accumulate_num))
           default_weight_decay = Inr h2 \<and>
         st_heap s2 =
           (if grad_clip < 1000
            then clip_grad_norm e h2
                   (snd (backward e (st_heap s1) (st_model s1) b batch_accumulate_num)) grad_clip
            else h2)"
    by (rule exI[of _ s1], rule exI[of _ s2], rule exI[of _ s2'], rule exI[of _ h2])
       (intro conjI p1 p2 p3 p4 w c)
qed

theorem clipping_iff_below_sentinel_witness:
  "filter is_clip
     (trace (snd (projr (train demo_env [2, 2, 2, 2, 2, 2] demo_heap demo_model 0 7 2 5 2 None [])))) =
     [(0, ClipGradNorm 5), (1, ClipGradNorm 5), (2, ClipGradNorm 5), (3, ClipGradNorm 5),
      (4, ClipGradNorm 5), (5, ClipGradNorm 5)] \<and>
   \<not> (1000::rat) < 1000 \<and>
   filter is_clip
     (trace (snd (projr (train demo_env [2, 2] demo_heap demo_model 0 7 2 1000 2 None [])))) = [] \<and>
   train (demo_env\<lparr>clip_grad_norm := (\<lambda>h m c. [])\<rparr>) [2, 2] demo_heap demo_model 0 7 2 1000 2 None [] =
   train demo_env [2, 2] demo_heap demo_model 0 7 2 1000 2 None [] \<and>
   (1 / 2 :: rat) < 1000 \<and>
   wd_pre_step (fst (backward clipping_env demo_heap demo_model 2 2))
     (snd (backward clipping_env demo_heap demo_model 2 2)) default_weight_decay =
     Inr [[1], [10001 / 10000]] \<and>
   clip_grad_norm clipping_env [[1], [10001 / 10000]]
     (snd (backward clipping_env demo_heap demo_model 2 2)) (1 / 2) = [[1], [1 / 2]] \<and>
   st_heap (projr (grad_phase clipping_env (1 / 2) 2 0 2 demo_state)) = [[1], [1 / 2]] \<and>
   st_heap (projr (grad_phase clipping_env 1000 2 0 2 demo_state)) = [[1], [10001 / 10000]] \<and>
   st_heap (projr (train_step clipping_env 7 2 (1 / 2) 1 3 2 demo_state)) =
     [[1], [1 / 2], [1], [1 / 2]]"
proof -
  have a: "filter is_clip
     (trace (snd (projr (train demo_env [2, 2, 2, 2, 2, 2] demo_heap demo_model 0 7 2 5 2 None [])))) =
     [(0, ClipGradNorm 5), (1, ClipGradNorm 5), (2, ClipGradNorm 5), (3, ClipGradNorm 5),
      (4, ClipGradNorm 5), (5, ClipGradNorm 5)]"
    using clipping_iff_below_sentinel[THEN conjunct1, THEN mp, OF demo_run]
    unfolding demo_run by (simp add: upt_rec)
  have n: "\<not> (1000::rat) < 1000" by simp
  have b1: "filter is_clip
     (trace (snd (projr (train demo_env [2, 2] demo_heap demo_model 0 7 2 1000 2 None [])))) = []"
    using clipping_iff_below_sentinel[THEN conjunct1, THEN mp, OF demo_run_unclipped]
    unfolding demo_run_unclipped by simp
  have b2: "train (demo_env\<lparr>clip_grad_norm := (\<lambda>h m c. [])\<rparr>) [2, 2] demo_heap demo_model 0 7 2 1000 2 None [] =
   train demo_env [2, 2] demo_heap demo_model 0 7 2 1000 2 None []"
    by (rule clipping_iff_below_sentinel[THEN conjunct2, THEN conjunct1, THEN mp, OF n])
  have l: "(1 / 2 :: rat) < 1000" by simp
  from clipping_iff_below_sentinel[THEN conjunct2, THEN conjunct2, THEN conjunct1, THEN mp,
         OF clipping_grad_phase]
  obtain h2 where
    w: "wd_pre_step (fst (backward clipping_env (st_heap demo_state) (st_model demo_state) 2 2))
          (snd (backward clipping_env (st_heap demo_state) (st_model demo_state) 2 2))
          default_weight_decay = Inr h2" and
    c: "(1 / 2 :: rat) < 1000 \<longrightarrow>
          [[1], [1 / 2]] =
            clip_grad_norm clipping_env h2
              (snd (backward clipping_env (st_heap demo_state) (st_model demo_state) 2 2)) (1 / 2)"
    by auto
  have g1: "st_heap (projr (grad_phase clipping_env (1 / 2) 2 0 2 demo_state)) = [[1], [1 / 2]]"
    unfolding clipping_grad_phase by simp
  have g2: "st_heap (projr (grad_phase clipping_env 1000 2 0 2 demo_state)) =
            [[1], [10001 / 10000]]"
    unfolding unclipped_grad_phase by simp
  have g3: "st_heap (projr (train_step clipping_env 7 2 (1 / 2) 1 3 2 demo_state)) =
     [[1], [1 / 2], [1], [1 / 2]]"
    unfolding clipping_step by simp
  note d = clipping_calls
  from a n b1 b2 l d g1 g2 g3 show ?thesis by blast
qed

section \<open>The recorded loss\<close>




section \<open>The learning rate of the scenario\<close>

lemma sqrt_16: "sqrt 16 = 4"
  by (rule real_sqrt_unique) simp_all

lemma sqrt_4: "sqrt 4 = 2"
  by (rule real_sqrt_unique) simp_all

text \<open>
  Claim C7 as stated fails on the spec's own rule: for \<^verbatim>\<open>workers_num = 4\<close>,
  \<^verbatim>\<open>batch_size = 1024\<close> and \<^verbatim>\<open>baseline = 256\<close> the rule gives the base learning rate
  itself (here 1), not \<^verbatim>\<open>base_lr * sqrt(4) / 4\<close>, which is half of it.
\<close>

theorem reconfigured_lr_scenario_is_base_lr:
  "reconfigured_lr 1 4 1024 256 = 1 \<and>
   (1::real) * sqrt 4 / 4 = 1 / 2 \<and>
   reconfigured_lr 1 4 1024 256 \<noteq> 1 * sqrt 4 / 4"
  by (simp add: reconfigured_lr_def sqrt_16 sqrt_4)

text \<open>
  Claim C7, as amended. For \<^verbatim>\<open>workers_num = 4\<close>, \<^verbatim>\<open>batch_size = 1024\<close> and
  \<^verbatim>\<open>baseline = 256\<close> the rule \<^verbatim>\<open>lr * sqrt(workers_num * batch_size / baseline) / workers_num\<close>
  gives \<^verbatim>\<open>lr * sqrt(16) / 4\<close>, the base learning rate itself; the warm-up ramp of
  the "fast" mode runs from a quarter of the base learning rate to eight times it.
\<close>

theorem reconfigured_lr_scenario:
  "reconfigured_lr lr 4 1024 256 = lr * sqrt 16 / 4 \<and>
   reconfigured_lr lr 4 1024 256 = lr \<and>
   warm_up_start_lr lr 4 = lr / 4 \<and>
   warm_up_end_lr lr 4 1024 256 = 8 * lr"
  by (simp add: reconfigured_lr_def warm_up_start_lr_def warm_up_end_lr_def sqrt_16 sqrt_4)

end
